theory Spec2Isabelle
  imports Main "HOL-Library.Word" "HOL-Library.Signed_Division"
begin

text \<open>
  A shallow embedding of the Mython interpreter: the lexer (lexer.h and its
  implementation file), the runtime objects (runtime.h, runtime.cpp) and the nodes of the
  syntax tree (statement.h, statement.cpp). Every function of the source that the
  statements below depend on is a function here, with the name it has in the source; its
  loops are recursive functions, its exceptions are values, and the objects it mutates are
  passed in and returned.

  What is assumed of the platform: \<^verbatim>\<open>int\<close> has 32 bits; the streams behave as in the
  C++11 standard (\<^verbatim>\<open>peek\<close> at the end of the input sets \<^verbatim>\<open>eofbit\<close>, a read on a stream
  that is not good sets \<^verbatim>\<open>failbit\<close>); the character classes are those of the "C"
  locale; the program is compiled as C++17, which the source requires.
\<close>

section \<open>Tokens (lexer.h)\<close>

text \<open>
  The C++ type \<^verbatim>\<open>int\<close> is a 32-bit two's complement word; \<^verbatim>\<open>sint\<close> reads its
  value. The alternatives of \<^verbatim>\<open>parse::Token\<close> are listed in the order of the variant.
  A constructor keeps the name of its \<^verbatim>\<open>token_type\<close> struct; the suffix \<open>_tok\<close> is
  added where the name is also a name of HOL, of the runtime or of the syntax tree.
  A data member loses its trailing underscore (\<^verbatim>\<open>tokens_\<close> is \<open>tokens\<close>), which
  an Isabelle name cannot end with.
\<close>

type_synonym cint = "32 word"

datatype Token =
    Number_tok cint | Id_tok string | Char_tok char | String_tok string
  | Class_tok | Return_tok | If_tok | Else | Def | Newline | Print_tok | Indent | Dedent
  | And_tok | Or_tok | Not_tok | Eq | NotEq | LessOrEq | GreaterOrEq
  | None_tok | True_tok | False_tok | Eof

section \<open>The input stream\<close>

text \<open>
  A \<^verbatim>\<open>std::stringstream\<close> over one line: the characters not yet read and the two
  state bits the lexer can observe. A read is refused (and sets \<^verbatim>\<open>failbit\<close>) unless
  the stream is good; reaching the end sets \<^verbatim>\<open>eofbit\<close>. The result of \<^verbatim>\<open>peek()\<close>
  and \<^verbatim>\<open>get()\<close> is an \<^verbatim>\<open>int\<close>, here \<open>None\<close> for \<^verbatim>\<open>EOF\<close>.
\<close>

record istream =
  buf :: string
  eofbit :: bool
  failbit :: bool

definition stringstream :: "string \<Rightarrow> istream" where
  "stringstream line = \<lparr>buf = line, eofbit = False, failbit = False\<rparr>"

definition good :: "istream \<Rightarrow> bool" where
  "good s = (\<not> eofbit s \<and> \<not> failbit s)"

definition eof :: "istream \<Rightarrow> bool" where
  "eof s = eofbit s"

definition peek :: "istream \<Rightarrow> char option \<times> istream" where
  "peek s =
     (if good s then
        (case buf s of
           [] \<Rightarrow> (None, s\<lparr>eofbit := True\<rparr>)
         | c # cs \<Rightarrow> (Some c, s))
      else (None, s\<lparr>failbit := True\<rparr>))"

definition get :: "istream \<Rightarrow> char option \<times> istream" where
  "get s =
     (if good s then
        (case buf s of
           [] \<Rightarrow> (None, s\<lparr>eofbit := True, failbit := True\<rparr>)
         | c # cs \<Rightarrow> (Some c, s\<lparr>buf := cs\<rparr>))
      else (None, s\<lparr>failbit := True\<rparr>))"

definition ignore :: "istream \<Rightarrow> istream" where
  "ignore s =
     (if good s then
        (case buf s of
           [] \<Rightarrow> s\<lparr>eofbit := True\<rparr>
         | c # cs \<Rightarrow> s\<lparr>buf := cs\<rparr>)
      else s\<lparr>failbit := True\<rparr>)"

text \<open>\<^verbatim>\<open>input >> std::noskipws >> c\<close>: the character, or \<open>None\<close> when the extraction
  fails and \<^verbatim>\<open>c\<close> keeps its old value.\<close>

definition extract_char :: "istream \<Rightarrow> char option \<times> istream" where
  "extract_char s =
     (if good s then
        (case buf s of
           [] \<Rightarrow> (None, s\<lparr>eofbit := True, failbit := True\<rparr>)
         | c # cs \<Rightarrow> (Some c, s\<lparr>buf := cs\<rparr>))
      else (None, s\<lparr>failbit := True\<rparr>))"

text \<open>\<^verbatim>\<open>putback\<close> clears \<^verbatim>\<open>eofbit\<close> first (C++11). The lexer only puts back the
  character it has just extracted, so the put-back position exists.\<close>

definition putback :: "char \<Rightarrow> istream \<Rightarrow> istream" where
  "putback c s =
     (let s1 = s\<lparr>eofbit := False\<rparr>
      in if good s1 then s1\<lparr>buf := c # buf s1\<rparr> else s1\<lparr>failbit := True\<rparr>)"

text \<open>The conversion of the \<^verbatim>\<open>int\<close> returned by \<^verbatim>\<open>get()\<close> or \<^verbatim>\<open>peek()\<close> to
  \<^verbatim>\<open>char\<close>: \<^verbatim>\<open>EOF\<close> (-1) becomes the byte 0xFF.\<close>

definition to_char :: "char option \<Rightarrow> char" where
  "to_char p = (case p of None \<Rightarrow> CHR 0xFF | Some c \<Rightarrow> c)"

section \<open>Character classes (the "C" locale)\<close>

definition isdigit :: "char \<Rightarrow> bool" where
  "isdigit c = (c \<in> set ''0123456789'')"

definition isalpha :: "char \<Rightarrow> bool" where
  "isalpha c = (c \<in> set ''abcdefghijklmnopqrstuvwxyzABCDEFGHIJKLMNOPQRSTUVWXYZ'')"

definition isalnum :: "char \<Rightarrow> bool" where
  "isalnum c = (isalpha c \<or> isdigit c)"

definition IsChar :: "char \<Rightarrow> bool" where
  "IsChar c = (c \<in> set ''.,(+)-*/:@%$^&;?=<>!{}[]'')"

definition special_operators :: "char set" where
  "special_operators = set ''=!<>''"

definition special_symbols :: "char set" where
  "special_symbols = {CHR 0x27, CHR 0x22, CHR ''n'', CHR ''t''}"

definition key_words_token :: "string \<Rightarrow> Token option" where
  "key_words_token = map_of
     [(''class'', Class_tok), (''return'', Return_tok), (''if'', If_tok),
      (''else'', Else), (''def'', Def), (''print'', Print_tok),
      (''and'', And_tok), (''or'', Or_tok), (''not'', Not_tok),
      (''None'', None_tok), (''True'', True_tok), (''False'', False_tok)]"

definition special_operators_token :: "string \<Rightarrow> Token option" where
  "special_operators_token = map_of
     [(''=='', Eq), (''!='', NotEq), (''<='', LessOrEq), (''>='', GreaterOrEq)]"

section \<open>The lexer (lexer.h and its implementation)\<close>

text \<open>
  What ends the lexer other than by returning: the exceptions of \<^verbatim>\<open>std::stoi\<close> and of
  \<^verbatim>\<open>unordered_map::at\<close>, and the read of the uninitialised \<^verbatim>\<open>char c\<close> in
  \<^verbatim>\<open>ReadString\<close> when nothing could be extracted (undefined behaviour). A loop that
  never ends is the value \<open>None\<close>.
\<close>

datatype lex_error = invalid_argument | out_of_range | uninitialized_read

type_synonym 'a lex_result = "(lex_error + 'a) option"

record Lexer =
  current_token :: Token
  tokens :: "Token list"
  current_index :: nat
  indent_size :: nat

definition push_back :: "Token \<Rightarrow> Lexer \<Rightarrow> Lexer" where
  "push_back t lx = lx\<lparr>tokens := tokens lx @ [t]\<rparr>"

definition NextToken :: "Lexer \<Rightarrow> Token \<times> Lexer" where
  "NextToken lx =
     (if current_index lx < length (tokens lx) then
        (let lx1 = lx\<lparr>current_token := tokens lx ! current_index lx,
                       current_index := current_index lx + 1\<rparr>
         in (current_token lx1, lx1))
      else (current_token lx, lx))"

definition CurrentToken :: "Lexer \<Rightarrow> Token" where
  "CurrentToken lx = current_token lx"

text \<open>\<^verbatim>\<open>ReadString\<close>: the loop \<^verbatim>\<open>while (!input.eof())\<close> with the result string and the
  variable \<^verbatim>\<open>c\<close> (\<open>None\<close> while uninitialised).\<close>

partial_function (option) ReadString_loop ::
  "(char \<Rightarrow> bool) \<Rightarrow> istream \<Rightarrow> string \<Rightarrow> char option \<Rightarrow> (string \<times> char option \<times> istream) option"
where
  "ReadString_loop pred s res c =
     (if eof s then Some (res, c, s)
      else
        (case extract_char s of
           (None, s1) \<Rightarrow> ReadString_loop pred s1 res c
         | (Some c1, s1) \<Rightarrow>
             if \<not> pred c1 then Some (res, Some c1, s1)
             else if c1 = CHR 0x5C then
               (let (g, s2) = get s1; ch = to_char g
                in if ch \<in> special_symbols then
                     ReadString_loop pred s2
                       (res @ [if ch = CHR ''n'' then CHR 0x0A
                               else if ch = CHR ''t'' then CHR 0x09 else ch]) (Some c1)
                   else ReadString_loop pred s2 res (Some c1))
             else ReadString_loop pred s1 (res @ [c1]) (Some c1)))"

definition ReadString :: "(char \<Rightarrow> bool) \<Rightarrow> istream \<Rightarrow> (string \<times> istream) lex_result" where
  "ReadString pred s =
     (case ReadString_loop pred s [] None of
        None \<Rightarrow> None
      | Some (res, None, s1) \<Rightarrow> Some (Inl uninitialized_read)
      | Some (res, Some c, s1) \<Rightarrow>
          Some (Inr (res, if \<not> pred c \<and> c \<noteq> CHR 0x27 \<and> c \<noteq> CHR 0x22
                          then putback c s1 else s1)))"

text \<open>\<^verbatim>\<open>std::stoi\<close> on a string without leading white space or sign: the value of the
  leading run of digits, \<^verbatim>\<open>invalid_argument\<close> when there is none, \<^verbatim>\<open>out_of_range\<close>
  above \<^verbatim>\<open>INT_MAX\<close>.\<close>

definition digit_value :: "char \<Rightarrow> nat" where
  "digit_value c = of_char c - 48"

definition stoi :: "string \<Rightarrow> lex_error + cint" where
  "stoi str =
     (let ds = takeWhile isdigit str;
          n = foldl (\<lambda>a c. 10 * a + digit_value c) 0 ds
      in if ds = [] then Inl invalid_argument
         else if n > 2147483647 then Inl out_of_range
         else Inr (word_of_nat n))"

definition LoadChar :: "char \<Rightarrow> Lexer \<Rightarrow> Lexer" where
  "LoadChar c lx = push_back (Char_tok c) lx"

definition LoadEof :: "Lexer \<Rightarrow> Lexer" where
  "LoadEof lx = push_back Eof lx"

definition LoadEndl :: "Lexer \<Rightarrow> Lexer" where
  "LoadEndl lx =
     (if tokens lx \<noteq> [] \<and> last (tokens lx) \<noteq> Newline then push_back Newline lx else lx)"

definition LoadNumber :: "Lexer \<Rightarrow> istream \<Rightarrow> (Lexer \<times> istream) lex_result" where
  "LoadNumber lx s =
     (case ReadString isdigit s of
        None \<Rightarrow> None
      | Some (Inl e) \<Rightarrow> Some (Inl e)
      | Some (Inr (number, s1)) \<Rightarrow>
          (case stoi number of
             Inl e \<Rightarrow> Some (Inl e)
           | Inr v \<Rightarrow> Some (Inr (push_back (Number_tok v) lx, s1))))"

definition LoadString :: "Lexer \<Rightarrow> istream \<Rightarrow> (Lexer \<times> istream) lex_result" where
  "LoadString lx s =
     (let (g, s1) = get s; end = to_char g
      in case ReadString (\<lambda>c. c \<noteq> end) s1 of
           None \<Rightarrow> None
         | Some (Inl e) \<Rightarrow> Some (Inl e)
         | Some (Inr (dest, s2)) \<Rightarrow> Some (Inr (push_back (String_tok dest) lx, s2)))"

definition LoadWord :: "Lexer \<Rightarrow> istream \<Rightarrow> (Lexer \<times> istream) lex_result" where
  "LoadWord lx s =
     (case ReadString (\<lambda>c. c = CHR ''_'' \<or> isalnum c) s of
        None \<Rightarrow> None
      | Some (Inl e) \<Rightarrow> Some (Inl e)
      | Some (Inr (word, s1)) \<Rightarrow>
          (case key_words_token word of
             Some t \<Rightarrow> Some (Inr (push_back t lx, s1))
           | None \<Rightarrow> Some (Inr (push_back (Id_tok word) lx, s1))))"

definition LoadSign :: "Lexer \<Rightarrow> istream \<Rightarrow> (Lexer \<times> istream) lex_result" where
  "LoadSign lx s =
     (let (g, s1) = get s; first = to_char g; (p, s2) = peek s1
      in if p = Some CHR ''='' then
           (let (g2, s3) = get s2; second = to_char g2
            in case special_operators_token [first, second] of
                 None \<Rightarrow> Some (Inl out_of_range)
               | Some t \<Rightarrow> Some (Inr (push_back t lx, s3)))
         else Some (Inr (LoadChar first lx, s2)))"

text \<open>\<^verbatim>\<open>indent_size_\<close> is a \<^verbatim>\<open>size_t\<close>. It only moves in steps of 2 from 0 and is
  bounded by the length of a line, so it is even and neither loop wraps around
  (lemma \<open>ParseLines_inv\<close> below); it is modelled as a natural number.\<close>

function LoadDedent :: "Lexer \<Rightarrow> nat \<Rightarrow> Lexer" where
  "LoadDedent lx current_indent =
     (if indent_size lx > current_indent then
        LoadDedent (push_back Dedent (lx\<lparr>indent_size := indent_size lx - 2\<rparr>)) current_indent
      else lx)"
  by pat_completeness auto
termination
  by (relation "measure (\<lambda>(lx, i). indent_size lx)") (auto simp: push_back_def)

function LoadIndent :: "Lexer \<Rightarrow> nat \<Rightarrow> Lexer" where
  "LoadIndent lx current_indent =
     (if indent_size lx < current_indent then
        LoadIndent (push_back Indent (lx\<lparr>indent_size := indent_size lx + 2\<rparr>)) current_indent
      else lx)"
  by pat_completeness auto
termination
  by (relation "measure (\<lambda>(lx, i). i - indent_size lx)") (auto simp: push_back_def)

text \<open>The \<^verbatim>\<open>do ... while (input.peek() == ' ')\<close> of \<^verbatim>\<open>LoadTab\<close>.\<close>

function LoadTab_loop :: "nat \<Rightarrow> istream \<Rightarrow> nat \<times> istream" where
  "LoadTab_loop i s =
     (let s1 = ignore s; (p, s2) = peek s1
      in if p = Some CHR '' '' then LoadTab_loop (i + 1) s2 else (i + 1, s2))"
  by pat_completeness auto
termination
  by (relation "measure (\<lambda>(i, s). length (buf s))")
     (auto simp: peek_def ignore_def good_def split: if_splits list.splits)

definition LoadTab :: "Lexer \<Rightarrow> istream \<Rightarrow> Lexer \<times> istream" where
  "LoadTab lx s =
     (let (p, s1) = peek s
      in if p = Some CHR '' '' then
           (let (i, s2) = LoadTab_loop 0 s1
            in if i > indent_size lx then (LoadIndent lx i, s2) else (LoadDedent lx i, s2))
         else (LoadDedent lx 0, s1))"

declare LoadDedent.simps [simp del] LoadIndent.simps [simp del] LoadTab_loop.simps [simp del]

text \<open>The body of the loop of \<^verbatim>\<open>LoadTokens\<close>, one definition for each \<^verbatim>\<open>if\<close>.\<close>

definition skip_space :: "istream \<Rightarrow> istream" where
  "skip_space s = (let (p, s1) = peek s in if p = Some CHR '' '' then ignore s1 else s1)"

definition at_comment :: "istream \<Rightarrow> bool \<times> istream" where
  "at_comment s = (let (p, s1) = peek s in (p = Some CHR ''#'', s1))"

definition number_step :: "Lexer \<times> istream \<Rightarrow> (Lexer \<times> istream) lex_result" where
  "number_step st =
     (let (lx, s) = st; (p, s1) = peek s
      in if (case p of None \<Rightarrow> False | Some c \<Rightarrow> isdigit c) then LoadNumber lx s1
         else Some (Inr (lx, s1)))"

definition string_step :: "Lexer \<times> istream \<Rightarrow> (Lexer \<times> istream) lex_result" where
  "string_step st =
     (let (lx, s) = st; (p, s1) = peek s
      in if p = Some (CHR 0x22) then LoadString lx s1
         else (let (q, s2) = peek s1
               in if q = Some (CHR 0x27) then LoadString lx s2 else Some (Inr (lx, s2))))"

definition word_step :: "Lexer \<times> istream \<Rightarrow> (Lexer \<times> istream) lex_result" where
  "word_step st =
     (let (lx, s) = st; (p, s1) = peek s
      in if p = Some CHR ''_'' then LoadWord lx s1
         else (let (q, s2) = peek s1
               in if (case q of None \<Rightarrow> False | Some c \<Rightarrow> isalpha c) then LoadWord lx s2
                  else Some (Inr (lx, s2))))"

definition char_step :: "Lexer \<times> istream \<Rightarrow> (Lexer \<times> istream) lex_result" where
  "char_step st =
     (let (lx, s) = st; (p, s1) = peek s
      in if IsChar (to_char p) then
           (let (q, s2) = peek s1
            in if to_char q \<in> special_operators then LoadSign lx s2
               else (let (g, s3) = get s2 in Some (Inr (LoadChar (to_char g) lx, s3))))
         else Some (Inr (lx, s1)))"

definition and_then ::
  "'a lex_result \<Rightarrow> ('a \<Rightarrow> 'b lex_result) \<Rightarrow> 'b lex_result" where
  "and_then r f = (case r of None \<Rightarrow> None | Some (Inl e) \<Rightarrow> Some (Inl e) | Some (Inr x) \<Rightarrow> f x)"

definition LoadTokens_body :: "Lexer \<times> istream \<Rightarrow> (Lexer \<times> istream) lex_result" where
  "LoadTokens_body st =
     and_then (and_then (and_then (number_step st) string_step) word_step) char_step"

partial_function (option) LoadTokens :: "Lexer \<Rightarrow> istream \<Rightarrow> (lex_error + Lexer \<times> istream) option"
where
  "LoadTokens lx s =
     (if eof s then Some (Inr (lx, s))
      else
        (let s1 = skip_space s; (brk, s2) = at_comment s1
         in if brk then Some (Inr (lx, s2))
            else
              (case LoadTokens_body (lx, s2) of
                 None \<Rightarrow> None
               | Some (Inl e) \<Rightarrow> Some (Inl e)
               | Some (Inr (lx1, s3)) \<Rightarrow> LoadTokens lx1 s3)))"

definition ParseString :: "Lexer \<Rightarrow> istream \<Rightarrow> (Lexer \<times> istream) lex_result" where
  "ParseString lx s = (let (lx1, s1) = LoadTab lx s in LoadTokens lx1 s1)"

fun StringIsEmpty :: "string \<Rightarrow> bool" where
  "StringIsEmpty [] = True"
| "StringIsEmpty (c # str) =
     (if c \<noteq> CHR '' '' then (if c = CHR ''#'' then True else False) else StringIsEmpty str)"

text \<open>The lines \<^verbatim>\<open>std::getline\<close> delivers until it fails: the text is cut at every
  line feed, and a last line without line feed is delivered unless it is empty.\<close>

fun getlines :: "string \<Rightarrow> string \<Rightarrow> string list" where
  "getlines line [] = (if line = [] then [] else [line])"
| "getlines line (c # input) =
     (if c = CHR 0x0A then line # getlines [] input else getlines (line @ [c]) input)"

fun ParseLines :: "Lexer \<Rightarrow> string list \<Rightarrow> Lexer lex_result" where
  "ParseLines lx [] = Some (Inr lx)"
| "ParseLines lx (line # rest) =
     (if \<not> StringIsEmpty line then
        (case ParseString lx (stringstream line) of
           None \<Rightarrow> None
         | Some (Inl e) \<Rightarrow> Some (Inl e)
         | Some (Inr (lx1, s1)) \<Rightarrow> ParseLines (LoadEndl lx1) rest)
      else ParseLines lx rest)"

definition ParseTextOnTokens :: "Lexer \<Rightarrow> string \<Rightarrow> Lexer lex_result" where
  "ParseTextOnTokens lx input =
     (case ParseLines lx (getlines [] input) of
        None \<Rightarrow> None
      | Some (Inl e) \<Rightarrow> Some (Inl e)
      | Some (Inr lx1) \<Rightarrow> Some (Inr (snd (NextToken (LoadEof (LoadDedent lx1 0))))))"

text \<open>The constructor \<^verbatim>\<open>Lexer(std::istream&)\<close> on a fresh stream over the text. The
  members start as declared: a default \<^verbatim>\<open>Token\<close> holds the first alternative,
  \<^verbatim>\<open>Number{0}\<close>.\<close>

definition Lexer_init :: Lexer where
  "Lexer_init =
     \<lparr>current_token = Number_tok 0, tokens = [], current_index = 0, indent_size = 0\<rparr>"

definition Lexer_new :: "string \<Rightarrow> Lexer lex_result" where
  "Lexer_new input = ParseTextOnTokens Lexer_init input"

section \<open>Runtime objects (runtime.h, runtime.cpp)\<close>

text \<open>
  A \<^verbatim>\<open>runtime::Class\<close> is reached through a reference (\<^verbatim>\<open>const Class&\<close>, or a
  holder); \<open>class_ref\<close> is its address, resolved by the table \<open>class_at\<close> of the
  program. An object has an identity: \<open>Member n\<close> is the object that is a data member of
  the syntax-tree node at \<open>n\<close> (\<^verbatim>\<open>ValueStatement::value_\<close>, \<^verbatim>\<open>NewInstance::cls_\<close>),
  which \<^verbatim>\<open>ObjectHolder::Share\<close> refers to; \<open>Owned k\<close> is the \<open>k\<close>-th object allocated
  by \<^verbatim>\<open>ObjectHolder::Own\<close>. An \<^verbatim>\<open>ObjectHolder\<close> is empty or refers to an object; the
  values of \<^verbatim>\<open>Number\<close>, \<^verbatim>\<open>String\<close> and \<^verbatim>\<open>Bool\<close> never change and travel with the
  reference, the fields of a \<^verbatim>\<open>ClassInstance\<close> live in the \<open>world\<close> under its
  address.
\<close>

type_synonym class_ref = nat

datatype address = Member nat | Owned nat

datatype Object =
    Number cint | String string | Bool bool | ClassObject class_ref | ClassInstance class_ref

datatype ObjectHolder = Empty | Holder address Object

type_synonym Closure = "string \<Rightarrow> ObjectHolder option"

text \<open>The comparator of a \<^verbatim>\<open>Comparison\<close> node is one of the six functions of
  runtime.cpp.\<close>

datatype Comparator =
    cmp_Equal | cmp_Less | cmp_NotEqual | cmp_Greater | cmp_LessOrEqual | cmp_GreaterOrEqual

text \<open>
  The nodes of statement.h. \<^verbatim>\<open>ValueStatement\<close> and \<^verbatim>\<open>NewInstance\<close> carry the address
  of their member object; \<^verbatim>\<open>FieldAssignment\<close> holds its \<^verbatim>\<open>VariableValue\<close> by value,
  that is its dotted names; the \<^verbatim>\<open>else_body_\<close> of \<^verbatim>\<open>IfElse\<close> may be null.
\<close>

datatype Statement =
    ValueStatement nat Object
  | VariableValue "string list"
  | Assignment string Statement
  | FieldAssignment "string list" string Statement
  | None_stmt
  | Print "Statement list"
  | MethodCall Statement string "Statement list"
  | NewInstance nat class_ref "Statement list"
  | Stringify Statement
  | Add Statement Statement
  | Sub Statement Statement
  | Mult Statement Statement
  | Div Statement Statement
  | Or Statement Statement
  | And Statement Statement
  | Not_stmt Statement
  | Compound "Statement list"
  | MethodBody Statement
  | Return Statement
  | ClassDefinition ObjectHolder
  | IfElse Statement Statement "Statement option"
  | Comparison Comparator Statement Statement

abbreviation NumericConst :: "nat \<Rightarrow> cint \<Rightarrow> Statement" where
  "NumericConst a n \<equiv> ValueStatement a (Number n)"

abbreviation StringConst :: "nat \<Rightarrow> string \<Rightarrow> Statement" where
  "StringConst a s \<equiv> ValueStatement a (String s)"

abbreviation BoolConst :: "nat \<Rightarrow> bool \<Rightarrow> Statement" where
  "BoolConst a b \<equiv> ValueStatement a (Bool b)"

record Method =
  name :: string
  formal_params :: "string list"
  body :: Statement

text \<open>\<^verbatim>\<open>runtime::Class\<close> with its members \<^verbatim>\<open>name_\<close>, \<^verbatim>\<open>methods_\<close> and
  \<^verbatim>\<open>parent_\<close>. The parent is given to the constructor and never changes, so the chain of
  parents is finite: the parent is part of the value.\<close>

datatype Class = Class string "Method list" "Class option"

text \<open>What the code reads and never changes: the classes, and the text that
  \<^verbatim>\<open>os << this\<close> prints for an address (implementation-defined).\<close>

record program =
  class_at :: "class_ref \<Rightarrow> Class option"
  ptr_text :: "address \<Rightarrow> string"

text \<open>
  What execution changes besides the closure it is given: the \<^verbatim>\<open>closure_\<close> of every
  \<^verbatim>\<open>ClassInstance\<close> (read by \<^verbatim>\<open>Fields()\<close>), the text written to the output stream
  of the \<^verbatim>\<open>Context\<close>, the number of objects \<^verbatim>\<open>ObjectHolder::Own\<close> has allocated, and
  for each of these objects the number of holders that keep it: a \<^verbatim>\<open>shared_ptr\<close>
  destroys its object when the last holder of the object goes. \<open>retained w k\<close> counts
  the holders of the \<open>k\<close>-th owned object that outlive the execution of a node: the
  variables of the closures, the fields of the instances, and the holders that are
  members of nodes (\<^verbatim>\<open>ClassDefinition::cls_\<close>). The other holders are temporaries and
  local variables of \<^verbatim>\<open>Execute\<close> and \<^verbatim>\<open>Call\<close>: the result of a call, which goes at
  the end of the expression that made the call, and the operands and arguments that a
  node keeps while it runs (\<^verbatim>\<open>lhs\<close>, \<^verbatim>\<open>rhs\<close>, \<^verbatim>\<open>params\<close>). These are not counted.
  What a node executes meanwhile reaches an object through a variable or a field, which
  is counted; so the count of an object is 0 while such a local still holds it only if
  the last variable or field that held it has been overwritten meanwhile.
\<close>

record world =
  Fields :: "address \<Rightarrow> Closure"
  out_text :: string
  owned :: nat
  retained :: "nat \<Rightarrow> nat"

text \<open>A holder is stored (copied into a variable or a field) or goes (is overwritten, or
  destroyed with its closure). \<^verbatim>\<open>ObjectHolder::Share\<close> makes a holder that owns nothing:
  the members of nodes live as long as the tree.\<close>

definition retain :: "ObjectHolder \<Rightarrow> world \<Rightarrow> world" where
  "retain h w =
     (case h of
        Holder (Owned k) obj \<Rightarrow> w\<lparr>retained := (retained w)(k := retained w k + 1)\<rparr>
      | _ \<Rightarrow> w)"

definition release :: "ObjectHolder \<Rightarrow> world \<Rightarrow> world" where
  "release h w =
     (case h of
        Holder (Owned k) obj \<Rightarrow> w\<lparr>retained := (retained w)(k := retained w k - 1)\<rparr>
      | _ \<Rightarrow> w)"

text \<open>The assignment \<^verbatim>\<open>closure[key] = value\<close> of holders: the value is stored, and the
  holder that was there, if any, goes.\<close>

definition store :: "ObjectHolder option \<Rightarrow> ObjectHolder \<Rightarrow> world \<Rightarrow> world" where
  "store old new w = (case old of None \<Rightarrow> retain new w | Some h \<Rightarrow> release h (retain new w))"

text \<open>The construction and the destruction of a closure with the given keys.\<close>

definition retain_vars :: "string list \<Rightarrow> Closure \<Rightarrow> world \<Rightarrow> world" where
  "retain_vars keys cl w =
     fold (\<lambda>k w1. case cl k of None \<Rightarrow> w1 | Some h \<Rightarrow> retain h w1) (remdups keys) w"

definition release_vars :: "string list \<Rightarrow> Closure \<Rightarrow> world \<Rightarrow> world" where
  "release_vars keys cl w =
     fold (\<lambda>k w1. case cl k of None \<Rightarrow> w1 | Some h \<Rightarrow> release h w1) (remdups keys) w"

text \<open>A pointer taken by \<^verbatim>\<open>Get()\<close> from a temporary holder dangles when the
  temporary was the last holder of an owned object. \<^verbatim>\<open>ObjectHolder::Own\<close> is applied to
  Numbers, Strings and Bools only; an instance is a member of its \<^verbatim>\<open>NewInstance\<close> node,
  so the pointers that \<^verbatim>\<open>MethodCall\<close> and \<^verbatim>\<open>FieldAssignment\<close> take by \<^verbatim>\<open>TryAs\<close> from
  a temporary do not dangle.\<close>

definition dangling :: "world \<Rightarrow> address \<Rightarrow> bool" where
  "dangling w p = (case p of Member a \<Rightarrow> False | Owned k \<Rightarrow> retained w k = 0)"

text \<open>
  An execution returns a value, or leaves by the \<^verbatim>\<open>throw\<close> of an \<^verbatim>\<open>ObjectHolder\<close>
  (\<^verbatim>\<open>Return::Execute\<close>), or by a \<^verbatim>\<open>std::runtime_error\<close>, or has no defined behaviour
  (a null or dangling pointer is dereferenced, a signed operation overflows). The closure
  and the world are returned in every case: what was changed before a \<^verbatim>\<open>throw\<close> stays
  changed. \<open>None\<close> is an execution that runs out of fuel (see \<open>Execute\<close>).
\<close>

datatype error = runtime_error string | undefined_behaviour

datatype 'a outcome = Normal 'a | Unwind ObjectHolder | Error error

type_synonym ('a, 's) result = "('a outcome \<times> 's) option"

type_synonym exec = "Statement \<Rightarrow> Closure \<times> world \<Rightarrow> (ObjectHolder, Closure \<times> world) result"

type_synonym printer = "address \<Rightarrow> Object \<Rightarrow> world \<Rightarrow> (string, world) result"

text \<open>Sequencing: the rest of a function body runs only after a call that returned.\<close>

definition after :: "('a, 's) result \<Rightarrow> ('a \<Rightarrow> 's \<Rightarrow> ('b, 's) result) \<Rightarrow> ('b, 's) result" where
  "after r f =
     (case r of
        None \<Rightarrow> None
      | Some (Normal v, s) \<Rightarrow> f v s
      | Some (Unwind u, s) \<Rightarrow> Some (Unwind u, s)
      | Some (Error e, s) \<Rightarrow> Some (Error e, s))"

definition with_closure :: "Closure \<Rightarrow> ('a, world) result \<Rightarrow> ('a, Closure \<times> world) result" where
  "with_closure cl r = (case r of None \<Rightarrow> None | Some (x, w) \<Rightarrow> Some (x, (cl, w)))"

definition Own :: "Object \<Rightarrow> Closure \<times> world \<Rightarrow> (ObjectHolder, Closure \<times> world) result" where
  "Own obj st =
     (case st of (cl, w) \<Rightarrow>
        Some (Normal (Holder (Owned (owned w)) obj), (cl, w\<lparr>owned := owned w + 1\<rparr>)))"

fun IsTrue :: "ObjectHolder \<Rightarrow> bool" where
  "IsTrue (Holder a (Number n)) = (n \<noteq> 0)"
| "IsTrue (Holder a (String s)) = (s \<noteq> [])"
| "IsTrue (Holder a (Bool b)) = b"
| "IsTrue h = False"

text \<open>\<^verbatim>\<open>Class::GetMethod\<close>: the loop over \<^verbatim>\<open>methods_\<close>, then the parent.\<close>

fun GetMethod_scan :: "Method list \<Rightarrow> string \<Rightarrow> Method option" where
  "GetMethod_scan [] nm = None"
| "GetMethod_scan (m # ms) nm = (if name m = nm then Some m else GetMethod_scan ms nm)"

fun GetMethod :: "Class \<Rightarrow> string \<Rightarrow> Method option" where
  "GetMethod (Class cname ms par) nm =
     (case GetMethod_scan ms nm of
        Some m \<Rightarrow> Some m
      | None \<Rightarrow> (case par of Some p \<Rightarrow> GetMethod p nm | None \<Rightarrow> None))"

fun GetName :: "Class \<Rightarrow> string" where
  "GetName (Class cname ms par) = cname"

definition HasMethod :: "Class \<Rightarrow> string \<Rightarrow> nat \<Rightarrow> bool" where
  "HasMethod cls method argument_count =
     (case GetMethod cls method of
        None \<Rightarrow> False
      | Some m \<Rightarrow> length (formal_params m) = argument_count)"

text \<open>\<^verbatim>\<open>unordered_map::emplace\<close> leaves an existing key alone.\<close>

definition emplace :: "string \<Rightarrow> ObjectHolder \<Rightarrow> Closure \<Rightarrow> Closure" where
  "emplace k v cl = (if cl k = None then cl(k \<mapsto> v) else cl)"

fun emplace_params :: "string list \<Rightarrow> ObjectHolder list \<Rightarrow> Closure \<Rightarrow> Closure" where
  "emplace_params (p # ps) (a # as) cl = emplace_params ps as (emplace p a cl)"
| "emplace_params ps as cl = cl"

text \<open>
  The keys that the execution of a statement can add to the closure it is given: the
  \<^verbatim>\<open>var_\<close> of every \<^verbatim>\<open>Assignment\<close> and the name of the class of every
  \<^verbatim>\<open>ClassDefinition\<close> in it (every node passes its closure on to the nodes below it;
  the body of a method that is called gets another closure).
\<close>

fun assigned :: "program \<Rightarrow> Statement \<Rightarrow> string list" where
  "assigned P (ValueStatement a obj) = []"
| "assigned P (VariableValue dotted_ids) = []"
| "assigned P (Assignment var rv) = var # assigned P rv"
| "assigned P (FieldAssignment object field_name rv) = assigned P rv"
| "assigned P None_stmt = []"
| "assigned P (Print args) = concat (map (assigned P) args)"
| "assigned P (MethodCall object method args) = assigned P object @ concat (map (assigned P) args)"
| "assigned P (NewInstance a c args) = concat (map (assigned P) args)"
| "assigned P (Stringify argument) = assigned P argument"
| "assigned P (Add l r) = assigned P l @ assigned P r"
| "assigned P (Sub l r) = assigned P l @ assigned P r"
| "assigned P (Mult l r) = assigned P l @ assigned P r"
| "assigned P (Div l r) = assigned P l @ assigned P r"
| "assigned P (Or l r) = assigned P l @ assigned P r"
| "assigned P (And l r) = assigned P l @ assigned P r"
| "assigned P (Not_stmt argument) = assigned P argument"
| "assigned P (Compound args) = concat (map (assigned P) args)"
| "assigned P (MethodBody b) = assigned P b"
| "assigned P (Return statement) = assigned P statement"
| "assigned P (ClassDefinition cls) =
     (case cls of
        Holder a (ClassObject c) \<Rightarrow> (case class_at P c of None \<Rightarrow> [] | Some cl \<Rightarrow> [GetName cl])
      | _ \<Rightarrow> [])"
| "assigned P (IfElse condition if_body else_body) =
     assigned P condition @ assigned P if_body @
       (case else_body of None \<Rightarrow> [] | Some e \<Rightarrow> assigned P e)"
| "assigned P (Comparison cmp l r) = assigned P l @ assigned P r"

text \<open>
  \<^verbatim>\<open>ClassInstance::Call\<close> on the instance at \<open>this\<close> of class \<open>c\<close>. The argument
  \<open>ex\<close> executes a statement (the virtual \<^verbatim>\<open>Execute\<close>). The local \<^verbatim>\<open>closure\<close> holds
  the arguments that \<^verbatim>\<open>emplace\<close> has inserted, and \<^verbatim>\<open>self\<close>, whose holder is made by
  \<^verbatim>\<open>Share\<close>. It is destroyed, with all that the body has assigned in it, when \<^verbatim>\<open>Call\<close>
  returns or is left by a \<^verbatim>\<open>throw\<close>.
\<close>

definition Call ::
  "exec \<Rightarrow> program \<Rightarrow> address \<Rightarrow> class_ref \<Rightarrow> string \<Rightarrow> ObjectHolder list \<Rightarrow> world
     \<Rightarrow> (ObjectHolder, world) result" where
  "Call ex P this c method actual_args w =
     (case class_at P c of
        None \<Rightarrow> Some (Error undefined_behaviour, w)
      | Some cls \<Rightarrow>
          if HasMethod cls method (length actual_args) then
            (case GetMethod cls method of
               None \<Rightarrow> Some (Error undefined_behaviour, w)
             | Some m \<Rightarrow>
                 (let closure = emplace ''self'' (Holder this (ClassInstance c))
                                  (emplace_params (formal_params m) actual_args Map.empty);
                      keys = formal_params m @ assigned P (body m)
                  in case ex (body m) (closure, retain_vars (formal_params m) closure w) of
                       None \<Rightarrow> None
                     | Some (r, (closure1, w1)) \<Rightarrow> Some (r, release_vars keys closure1 w1)))
          else Some (Error (runtime_error (''No method '' @ method)), w))"

text \<open>\<^verbatim>\<open>os << value_\<close> for an \<^verbatim>\<open>int\<close>: decimal digits.\<close>

function show_nat :: "nat \<Rightarrow> string" where
  "show_nat n = (if n < 10 then [''0123456789'' ! n] else show_nat (n div 10) @ [''0123456789'' ! (n mod 10)])"
  by pat_completeness auto
termination
  by (relation "measure id") auto

declare show_nat.simps [simp del]

definition show_int :: "int \<Rightarrow> string" where
  "show_int i = (if i < 0 then ''-'' @ show_nat (nat (- i)) else show_nat (nat i))"

text \<open>The virtual \<^verbatim>\<open>Print\<close> of the five classes of objects, as the text it writes
  to \<^verbatim>\<open>os\<close>. \<^verbatim>\<open>ClassInstance::Print\<close> writes nothing before its \<^verbatim>\<open>Call\<close> returns.\<close>

definition Print_object :: "exec \<Rightarrow> printer \<Rightarrow> program \<Rightarrow> printer" where
  "Print_object ex pr P this obj w =
     (case obj of
        Number n \<Rightarrow> Some (Normal (show_int (sint n)), w)
      | String s \<Rightarrow> Some (Normal s, w)
      | Bool b \<Rightarrow> Some (Normal (if b then ''True'' else ''False''), w)
      | ClassObject c \<Rightarrow>
          (case class_at P c of
             None \<Rightarrow> Some (Error undefined_behaviour, w)
           | Some cls \<Rightarrow> Some (Normal (''Class '' @ GetName cls), w))
      | ClassInstance c \<Rightarrow>
          (case class_at P c of
             None \<Rightarrow> Some (Error undefined_behaviour, w)
           | Some cls \<Rightarrow>
               if HasMethod cls ''__str__'' 0 then
                 after (Call ex P this c ''__str__'' [] w)
                   (\<lambda>r w1. case r of
                        Empty \<Rightarrow> Some (Error undefined_behaviour, w1)
                      | Holder a obj1 \<Rightarrow> pr a obj1 w1)
               else Some (Normal (ptr_text P this), w)))"

text \<open>\<^verbatim>\<open>operator<\<close> of \<^verbatim>\<open>std::string\<close> compares bytes as unsigned.\<close>

fun str_less :: "string \<Rightarrow> string \<Rightarrow> bool" where
  "str_less [] [] = False"
| "str_less [] (y # ys) = True"
| "str_less (x # xs) [] = False"
| "str_less (x # xs) (y # ys) =
     (if (of_char x :: nat) < of_char y then True
      else if (of_char y :: nat) < of_char x then False
      else str_less xs ys)"

text \<open>The macros \<^verbatim>\<open>COMPARE\<close> and \<^verbatim>\<open>COMPARE_FUNC\<close>; \<open>otherwise\<close> is the code after
  the macro. In \<^verbatim>\<open>Less\<close> the first \<^verbatim>\<open>if\<close> builds a \<^verbatim>\<open>runtime_error\<close> and drops
  it.\<close>

definition COMPARE_FUNC ::
  "exec \<Rightarrow> program \<Rightarrow> ObjectHolder \<Rightarrow> ObjectHolder \<Rightarrow> string \<Rightarrow> world
     \<Rightarrow> (bool, world) result \<Rightarrow> (bool, world) result" where
  "COMPARE_FUNC ex P lhs rhs func w otherwise =
     (case lhs of
        Holder a (ClassInstance c) \<Rightarrow>
          (case class_at P c of
             None \<Rightarrow> Some (Error undefined_behaviour, w)
           | Some cls \<Rightarrow>
               if HasMethod cls func 1 then
                 after (Call ex P a c func [rhs] w) (\<lambda>r w1. Some (Normal (IsTrue r), w1))
               else otherwise)
      | _ \<Rightarrow> otherwise)"

definition Equal :: "exec \<Rightarrow> program \<Rightarrow> ObjectHolder \<Rightarrow> ObjectHolder \<Rightarrow> world \<Rightarrow> (bool, world) result" where
  "Equal ex P lhs rhs w =
     (if lhs = Empty \<and> rhs = Empty then Some (Normal True, w)
      else
        (case (lhs, rhs) of
           (Holder a (Number x), Holder b (Number y)) \<Rightarrow> Some (Normal (x = y), w)
         | (Holder a (String x), Holder b (String y)) \<Rightarrow> Some (Normal (x = y), w)
         | (Holder a (Bool x), Holder b (Bool y)) \<Rightarrow> Some (Normal (x = y), w)
         | _ \<Rightarrow>
             COMPARE_FUNC ex P lhs rhs ''__eq__'' w
               (Some (Error (runtime_error ''Cannot compare objects for equality''), w))))"

definition Less :: "exec \<Rightarrow> program \<Rightarrow> ObjectHolder \<Rightarrow> ObjectHolder \<Rightarrow> world \<Rightarrow> (bool, world) result" where
  "Less ex P lhs rhs w =
     (let discarded = (if lhs = Empty \<and> rhs = Empty
                       then Some (runtime_error ''Cannot compare objects for less'') else None)
      in case (lhs, rhs) of
           (Holder a (Number x), Holder b (Number y)) \<Rightarrow> Some (Normal (sint x < sint y), w)
         | (Holder a (String x), Holder b (String y)) \<Rightarrow> Some (Normal (str_less x y), w)
         | (Holder a (Bool x), Holder b (Bool y)) \<Rightarrow> Some (Normal (\<not> x \<and> y), w)
         | _ \<Rightarrow>
             COMPARE_FUNC ex P lhs rhs ''__lt__'' w
               (Some (Error (runtime_error ''Cannot compare objects for less''), w)))"

definition NotEqual :: "exec \<Rightarrow> program \<Rightarrow> ObjectHolder \<Rightarrow> ObjectHolder \<Rightarrow> world \<Rightarrow> (bool, world) result" where
  "NotEqual ex P lhs rhs w = after (Equal ex P lhs rhs w) (\<lambda>b w1. Some (Normal (\<not> b), w1))"

definition LessOrEqual :: "exec \<Rightarrow> program \<Rightarrow> ObjectHolder \<Rightarrow> ObjectHolder \<Rightarrow> world \<Rightarrow> (bool, world) result" where
  "LessOrEqual ex P lhs rhs w =
     after (Less ex P lhs rhs w)
       (\<lambda>b w1. if b then Some (Normal True, w1) else Equal ex P lhs rhs w1)"

definition Greater :: "exec \<Rightarrow> program \<Rightarrow> ObjectHolder \<Rightarrow> ObjectHolder \<Rightarrow> world \<Rightarrow> (bool, world) result" where
  "Greater ex P lhs rhs w = after (LessOrEqual ex P lhs rhs w) (\<lambda>b w1. Some (Normal (\<not> b), w1))"

definition GreaterOrEqual :: "exec \<Rightarrow> program \<Rightarrow> ObjectHolder \<Rightarrow> ObjectHolder \<Rightarrow> world \<Rightarrow> (bool, world) result" where
  "GreaterOrEqual ex P lhs rhs w = after (Less ex P lhs rhs w) (\<lambda>b w1. Some (Normal (\<not> b), w1))"

fun comparator :: "Comparator \<Rightarrow> exec \<Rightarrow> program \<Rightarrow> ObjectHolder \<Rightarrow> ObjectHolder \<Rightarrow> world \<Rightarrow> (bool, world) result" where
  "comparator cmp_Equal = Equal"
| "comparator cmp_Less = Less"
| "comparator cmp_NotEqual = NotEqual"
| "comparator cmp_Greater = Greater"
| "comparator cmp_LessOrEqual = LessOrEqual"
| "comparator cmp_GreaterOrEqual = GreaterOrEqual"

section \<open>Syntax tree (statement.h, statement.cpp)\<close>

text \<open>Arithmetic on \<^verbatim>\<open>int\<close>: a result outside the range is undefined behaviour;
  \<^verbatim>\<open>/\<close> truncates toward zero (\<open>sdiv\<close>).\<close>

definition int_range :: "int \<Rightarrow> bool" where
  "int_range i = (- 2147483648 \<le> i \<and> i \<le> 2147483647)"

definition Own_int :: "int \<Rightarrow> Closure \<times> world \<Rightarrow> (ObjectHolder, Closure \<times> world) result" where
  "Own_int i st =
     (if int_range i then Own (Number (word_of_int i)) st else Some (Error undefined_behaviour, st))"

text \<open>The loop of \<^verbatim>\<open>VariableValue::Execute\<close> over \<^verbatim>\<open>dotted_ids_\<close> on a copy of the
  closure.\<close>

fun VariableValue_loop :: "world \<Rightarrow> string list \<Rightarrow> Closure \<Rightarrow> ObjectHolder outcome" where
  "VariableValue_loop w [] copy = Normal Empty"
| "VariableValue_loop w (field_name # rest) copy =
     (case copy field_name of
        None \<Rightarrow> Error (runtime_error (''Not field'' @ field_name))
      | Some v \<Rightarrow>
          if rest = [] then Normal v
          else
            (case v of
               Holder a (ClassInstance c) \<Rightarrow> VariableValue_loop w rest (Fields w a)
             | _ \<Rightarrow> Error (runtime_error ''This isn't object'')))"

text \<open>
  The loops that execute a vector of statements: the arguments of a call, the
  arguments of \<^verbatim>\<open>Print\<close>, the statements of \<^verbatim>\<open>Compound\<close>. \<^verbatim>\<open>Print\<close> takes the
  pointer \<^verbatim>\<open>Get()\<close> of the holder that the argument returns; that temporary goes at
  the end of the declaration of \<^verbatim>\<open>ptr_obj\<close>, before \<^verbatim>\<open>ptr_obj->Print\<close> is called.
\<close>

fun ExecuteArgs :: "exec \<Rightarrow> Statement list \<Rightarrow> Closure \<times> world \<Rightarrow> (ObjectHolder list, Closure \<times> world) result" where
  "ExecuteArgs ex [] st = Some (Normal [], st)"
| "ExecuteArgs ex (a # as) st =
     after (ex a st) (\<lambda>v st1. after (ExecuteArgs ex as st1) (\<lambda>vs st2. Some (Normal (v # vs), st2)))"

definition os_write :: "string \<Rightarrow> world \<Rightarrow> world" where
  "os_write txt w = w\<lparr>out_text := out_text w @ txt\<rparr>"

fun Print_loop :: "exec \<Rightarrow> printer \<Rightarrow> Statement list \<Rightarrow> Closure \<times> world \<Rightarrow> (unit, Closure \<times> world) result" where
  "Print_loop ex pr [] st = Some (Normal (), st)"
| "Print_loop ex pr (a # as) st =
     after (ex a st)
       (\<lambda>v st1. case st1 of (cl1, w1) \<Rightarrow>
          after (case v of
                   Empty \<Rightarrow> Some (Normal ''None'', (cl1, w1))
                 | Holder p obj \<Rightarrow>
                     if dangling w1 p then Some (Error undefined_behaviour, (cl1, w1))
                     else with_closure cl1 (pr p obj w1))
            (\<lambda>txt st2. case st2 of (cl2, w2) \<Rightarrow>
               Print_loop ex pr as
                 (cl2, if as \<noteq> [] then os_write '' '' (os_write txt w2) else os_write txt w2)))"

fun Compound_loop :: "exec \<Rightarrow> Statement list \<Rightarrow> Closure \<times> world \<Rightarrow> (ObjectHolder, Closure \<times> world) result" where
  "Compound_loop ex [] st = Some (Normal Empty, st)"
| "Compound_loop ex (a # as) st = after (ex a st) (\<lambda>v st1. Compound_loop ex as st1)"

text \<open>
  \<^verbatim>\<open>Execute\<close> of every class of node; \<open>ex\<close> and \<open>pr\<close> are the virtual calls
  \<^verbatim>\<open>Execute\<close> and \<^verbatim>\<open>Print\<close> it makes. In \<^verbatim>\<open>closure[var_] = rv_->Execute(...)\<close> the
  right-hand side is evaluated first (C++17). \<^verbatim>\<open>Stringify\<close> takes the pointer of a
  temporary holder as \<^verbatim>\<open>Print\<close> does.
\<close>

fun Execute_node :: "exec \<Rightarrow> printer \<Rightarrow> program \<Rightarrow> Statement \<Rightarrow> Closure \<times> world \<Rightarrow> (ObjectHolder, Closure \<times> world) result" where
  "Execute_node ex pr P (ValueStatement a obj) st = Some (Normal (Holder (Member a) obj), st)"
| "Execute_node ex pr P (VariableValue dotted_ids) st =
     (case st of (closure, w) \<Rightarrow> Some (VariableValue_loop w dotted_ids closure, st))"
| "Execute_node ex pr P (Assignment var rv) st =
     after (ex rv st)
       (\<lambda>v st1. case st1 of (closure, w) \<Rightarrow>
          Some (Normal v, (closure(var \<mapsto> v), store (closure var) v w)))"
| "Execute_node ex pr P (FieldAssignment object field_name rv) st =
     (case st of (closure, w) \<Rightarrow>
        (case VariableValue_loop w object closure of
           Normal (Holder a (ClassInstance c)) \<Rightarrow>
             after (ex rv st)
               (\<lambda>v st1. case st1 of (closure1, w1) \<Rightarrow>
                  Some (Normal v,
                        (closure1,
                         store (Fields w1 a field_name) v
                           (w1\<lparr>Fields := (Fields w1)(a := (Fields w1 a)(field_name \<mapsto> v))\<rparr>))))
         | Normal other \<Rightarrow> Some (Normal Empty, st)
         | Unwind u \<Rightarrow> Some (Unwind u, st)
         | Error e \<Rightarrow> Some (Error e, st)))"
| "Execute_node ex pr P None_stmt st = Some (Normal Empty, st)"
| "Execute_node ex pr P (Print args) st =
     after (Print_loop ex pr args st)
       (\<lambda>u st1. case st1 of (closure, w) \<Rightarrow> Some (Normal Empty, (closure, os_write [CHR 0x0A] w)))"
| "Execute_node ex pr P (MethodCall object method args) st =
     after (ex object st)
       (\<lambda>obj st1. case obj of
            Holder a (ClassInstance c) \<Rightarrow>
              after (ExecuteArgs ex args st1)
                (\<lambda>params st2. case st2 of (closure, w) \<Rightarrow>
                   with_closure closure (Call ex P a c method params w))
          | _ \<Rightarrow> Some (Normal Empty, st1))"
| "Execute_node ex pr P (NewInstance a c args) st =
     (case class_at P c of
        None \<Rightarrow> Some (Error undefined_behaviour, st)
      | Some cls \<Rightarrow>
          if HasMethod cls ''__init__'' (length args) then
            after (ExecuteArgs ex args st)
              (\<lambda>params st1. case st1 of (closure, w) \<Rightarrow>
                 after (with_closure closure (Call ex P (Member a) c ''__init__'' params w))
                   (\<lambda>r st2. Some (Normal (Holder (Member a) (ClassInstance c)), st2)))
          else Some (Normal (Holder (Member a) (ClassInstance c)), st))"
| "Execute_node ex pr P (Stringify argument) st =
     after (ex argument st)
       (\<lambda>v st1. case v of
            Empty \<Rightarrow> Own (String ''None'') st1
          | Holder p obj \<Rightarrow>
              (case st1 of (closure, w) \<Rightarrow>
                 if dangling w p then Some (Error undefined_behaviour, st1)
                 else after (with_closure closure (pr p obj w)) (\<lambda>txt st2. Own (String txt) st2)))"
| "Execute_node ex pr P (Add l r) st =
     after (ex l st)
       (\<lambda>lhs st1. after (ex r st1)
          (\<lambda>rhs st2. case (lhs, rhs) of
               (Holder a (Number x), Holder b (Number y)) \<Rightarrow> Own_int (sint x + sint y) st2
             | (Holder a (String x), Holder b (String y)) \<Rightarrow> Own (String (x @ y)) st2
             | (Holder a (ClassInstance c), _) \<Rightarrow>
                 (case st2 of (closure, w) \<Rightarrow>
                    with_closure closure (Call ex P a c ''__add__'' [rhs] w))
             | _ \<Rightarrow> Some (Error (runtime_error ''The operator is not overloaded +''), st2)))"
| "Execute_node ex pr P (Sub l r) st =
     after (ex l st)
       (\<lambda>lhs st1. after (ex r st1)
          (\<lambda>rhs st2. case (lhs, rhs) of
               (Holder a (Number x), Holder b (Number y)) \<Rightarrow> Own_int (sint x - sint y) st2
             | _ \<Rightarrow> Some (Error (runtime_error ''The operator is not overloaded -''), st2)))"
| "Execute_node ex pr P (Mult l r) st =
     after (ex l st)
       (\<lambda>lhs st1. after (ex r st1)
          (\<lambda>rhs st2. case (lhs, rhs) of
               (Holder a (Number x), Holder b (Number y)) \<Rightarrow> Own_int (sint x * sint y) st2
             | _ \<Rightarrow> Some (Error (runtime_error ''The operator is not overloaded *''), st2)))"
| "Execute_node ex pr P (Div l r) st =
     after (ex l st)
       (\<lambda>lhs st1. after (ex r st1)
          (\<lambda>rhs st2. case (lhs, rhs) of
               (Holder a (Number x), Holder b (Number y)) \<Rightarrow>
                 if y \<noteq> 0 then Own_int (sint x sdiv sint y) st2
                 else Some (Error (runtime_error ''The denominator is zero''), st2)
             | _ \<Rightarrow> Some (Error (runtime_error ''The operator is not overloaded /''), st2)))"
| "Execute_node ex pr P (Or l r) st =
     after (ex l st)
       (\<lambda>lhs st1. if \<not> IsTrue lhs
          then after (ex r st1) (\<lambda>rhs st2. Own (Bool (IsTrue rhs)) st2)
          else Own (Bool True) st1)"
| "Execute_node ex pr P (And l r) st =
     after (ex l st)
       (\<lambda>lhs st1. if IsTrue lhs
          then after (ex r st1) (\<lambda>rhs st2. Own (Bool (IsTrue rhs)) st2)
          else Own (Bool False) st1)"
| "Execute_node ex pr P (Not_stmt argument) st =
     after (ex argument st) (\<lambda>v st1. Own (Bool (\<not> IsTrue v)) st1)"
| "Execute_node ex pr P (Compound args) st = Compound_loop ex args st"
| "Execute_node ex pr P (MethodBody b) st =
     (case ex b st of
        None \<Rightarrow> None
      | Some (Normal v, st1) \<Rightarrow> Some (Normal Empty, st1)
      | Some (Unwind result, st1) \<Rightarrow> Some (Normal result, st1)
      | Some (Error e, st1) \<Rightarrow> Some (Error e, st1))"
| "Execute_node ex pr P (Return statement) st =
     after (ex statement st) (\<lambda>v st1. Some (Unwind v, st1))"
| "Execute_node ex pr P (ClassDefinition cls) st =
     (case cls of
        Holder a (ClassObject c) \<Rightarrow>
          (case class_at P c of
             None \<Rightarrow> Some (Error undefined_behaviour, st)
           | Some cl \<Rightarrow>
               (case st of (closure, w) \<Rightarrow>
                  Some (Normal cls,
                        (closure(GetName cl \<mapsto> cls), store (closure (GetName cl)) cls w))))
      | _ \<Rightarrow> Some (Error undefined_behaviour, st))"
| "Execute_node ex pr P (IfElse condition if_body else_body) st =
     after (ex condition st)
       (\<lambda>v st1. if IsTrue v then ex if_body st1
          else (case else_body of
                  Some e \<Rightarrow> ex e st1
                | None \<Rightarrow> Some (Normal Empty, st1)))"
| "Execute_node ex pr P (Comparison cmp l r) st =
     after (ex l st)
       (\<lambda>lhs st1. after (ex r st1)
          (\<lambda>rhs st2. case st2 of (closure, w) \<Rightarrow>
             after (with_closure closure (comparator cmp ex P lhs rhs w))
               (\<lambda>b st3. Own (Bool b) st3)))"

text \<open>
  Methods may call each other without bound, so the two virtual calls take fuel: the
  depth of nested calls still allowed. With fuel 0 there is no result.
\<close>

fun Execute :: "nat \<Rightarrow> program \<Rightarrow> exec"
  and Print_virtual :: "nat \<Rightarrow> program \<Rightarrow> printer" where
  "Execute 0 P s st = None"
| "Execute (Suc n) P s st =
     Execute_node (\<lambda>s1 st1. Execute n P s1 st1) (\<lambda>a obj w. Print_virtual n P a obj w) P s st"
| "Print_virtual 0 P this obj w = None"
| "Print_virtual (Suc n) P this obj w =
     Print_object (\<lambda>s1 st1. Execute n P s1 st1) (\<lambda>a obj1 w1. Print_virtual n P a obj1 w1) P this obj w"

section \<open>Notions used in the statements\<close>

text \<open>Two \<^verbatim>\<open>Newline\<close> tokens side by side somewhere in a list.\<close>

fun adjacent_newlines :: "Token list \<Rightarrow> bool" where
  "adjacent_newlines (a # b # ts) = ((a = Newline \<and> b = Newline) \<or> adjacent_newlines (b # ts))"
| "adjacent_newlines ts = False"

text \<open>The tokens \<^verbatim>\<open>LoadTokens\<close> can push: all but the four structural ones.\<close>

definition plain :: "Token \<Rightarrow> bool" where
  "plain t = (t \<noteq> Newline \<and> t \<noteq> Indent \<and> t \<noteq> Dedent \<and> t \<noteq> Eof)"

definition appends_plain :: "Lexer \<Rightarrow> Lexer \<Rightarrow> bool" where
  "appends_plain lx lx' =
     (\<exists>ts. tokens lx' = tokens lx @ ts \<and> list_all plain ts \<and> indent_size lx' = indent_size lx
        \<and> current_token lx' = current_token lx \<and> current_index lx' = current_index lx)"

text \<open>The invariant of the loop of \<^verbatim>\<open>ParseTextOnTokens\<close>.\<close>

definition lexer_inv :: "Lexer \<Rightarrow> bool" where
  "lexer_inv lx =
     (\<not> adjacent_newlines (tokens lx) \<and> Eof \<notin> set (tokens lx) \<and>
      2 * count_list (tokens lx) Indent = indent_size lx + 2 * count_list (tokens lx) Dedent)"

definition line_end :: "Lexer \<Rightarrow> bool" where
  "line_end lx = (tokens lx = [] \<or> last (tokens lx) = Newline)"

text \<open>The lexer after one more call of \<^verbatim>\<open>NextToken\<close>, and the relation between the
  cursor and the current token that every such call keeps.\<close>

definition advance :: "Lexer \<Rightarrow> Lexer" where
  "advance lx = snd (NextToken lx)"

definition cursor_ok :: "Lexer \<Rightarrow> bool" where
  "cursor_ok lx =
     (1 \<le> current_index lx \<and> current_index lx \<le> length (tokens lx) \<and>
      current_token lx = tokens lx ! (current_index lx - 1))"

text \<open>\<^verbatim>\<open>TryAs<ClassInstance>()\<close> and \<^verbatim>\<open>TryAs<Number>()\<close> of a holder.\<close>

fun TryAs_ClassInstance :: "ObjectHolder \<Rightarrow> (address \<times> class_ref) option" where
  "TryAs_ClassInstance (Holder a (ClassInstance c)) = Some (a, c)"
| "TryAs_ClassInstance h = None"

fun TryAs_Number :: "ObjectHolder \<Rightarrow> cint option" where
  "TryAs_Number (Holder a (Number x)) = Some x"
| "TryAs_Number h = None"

text \<open>Method resolution as the specification words it: the methods of the class in
  declaration order, then those of its parent, and the first of that name.\<close>

fun chain_methods :: "Class \<Rightarrow> Method list" where
  "chain_methods (Class cname ms par) =
     ms @ (case par of None \<Rightarrow> [] | Some p \<Rightarrow> chain_methods p)"

definition first_on_chain :: "Class \<Rightarrow> string \<Rightarrow> Method option" where
  "first_on_chain cls nm = find (\<lambda>m. name m = nm) (chain_methods cls)"

text \<open>A world in which nothing has happened yet, and small programs for the examples.\<close>

definition world0 :: world where
  "world0 = \<lparr>Fields = (\<lambda>a. Map.empty), out_text = [], owned = 0, retained = (\<lambda>k. 0)\<rparr>"

definition no_classes :: program where
  "no_classes = \<lparr>class_at = (\<lambda>c. None), ptr_text = (\<lambda>a. [])\<rparr>"

definition one_class :: program where
  "one_class =
     \<lparr>class_at = (\<lambda>c. if c = 0 then Some (Class ''C'' [] None) else None),
      ptr_text = (\<lambda>a. [])\<rparr>"

text \<open>A class \<open>A\<close> with a method \<open>m\<close> of one parameter and a method \<open>only_a\<close>, and a
  class \<open>B\<close> that inherits from it and declares \<open>m\<close> with two parameters.\<close>

definition class_A :: Class where
  "class_A = Class ''A''
     [\<lparr>name = ''m'', formal_params = [''x''], body = MethodBody (Return (VariableValue [''x'']))\<rparr>,
      \<lparr>name = ''only_a'', formal_params = [], body = MethodBody None_stmt\<rparr>] None"

definition class_B :: Class where
  "class_B = Class ''B''
     [\<lparr>name = ''m'', formal_params = [''x'', ''y''], body = MethodBody None_stmt\<rparr>]
     (Some class_A)"

text \<open>A class \<open>R\<close> whose methods have for body a \<^verbatim>\<open>Return\<close> node that no
  \<^verbatim>\<open>MethodBody\<close> encloses.\<close>

definition class_R :: Class where
  "class_R = Class ''R''
     [\<lparr>name = ''__init__'', formal_params = [''x''], body = Return (VariableValue [''x''])\<rparr>,
      \<lparr>name = ''leave'', formal_params = [], body = Return (NumericConst 1 5)\<rparr>,
      \<lparr>name = ''__str__'', formal_params = [], body = Return (StringConst 2 ''s'')\<rparr>,
      \<lparr>name = ''__add__'', formal_params = [''y''], body = Return (VariableValue [''y''])\<rparr>,
      \<lparr>name = ''__eq__'', formal_params = [''y''], body = Return (VariableValue [''y''])\<rparr>] None"

definition prog_R :: program where
  "prog_R = \<lparr>class_at = (\<lambda>c. if c = 0 then Some class_R else None), ptr_text = (\<lambda>a. [])\<rparr>"

text \<open>A class \<open>G\<close> with a method \<open>g\<close>: \<^verbatim>\<open>y = 1 + 2\<close> followed by \<^verbatim>\<open>return y\<close>.\<close>

definition class_G :: Class where
  "class_G = Class ''G''
     [\<lparr>name = ''g'', formal_params = [],
       body = MethodBody (Compound
         [Assignment ''y'' (Add (NumericConst 1 1) (NumericConst 2 2)),
          Return (VariableValue [''y''])])\<rparr>] None"

definition prog_G :: program where
  "prog_G = \<lparr>class_at = (\<lambda>c. if c = 0 then Some class_G else None), ptr_text = (\<lambda>a. [])\<rparr>"

text \<open>The method body of the fifth scenario of the specification:
  \<^verbatim>\<open>if n: return n\<close> followed by \<^verbatim>\<open>return 42\<close>.\<close>

definition body_f :: Statement where
  "body_f = MethodBody (Compound
     [IfElse (VariableValue [''n'']) (Return (VariableValue [''n''])) None,
      Return (NumericConst 1 42)])"

subsection \<open>Where the holders of a state point\<close>

text \<open>
  \<^verbatim>\<open>ObjectHolder::Own\<close> is the only allocation of the evaluator, and the model numbers its
  objects in the order of allocation: the world counts them in \<open>owned\<close>, and the next one
  gets the address \<open>Owned (owned w)\<close>. The predicates below say that every holder that
  is reachable (from the closure, from the fields of an object, from a
  \<^verbatim>\<open>ClassDefinition\<close> node of the tree or of a method body) points to a member of a node
  or to an object that has been allocated already.
\<close>

fun addr_below :: "nat \<Rightarrow> ObjectHolder \<Rightarrow> bool" where
  "addr_below k (Holder (Owned j) obj) = (j < k)"
| "addr_below k h = True"

definition closure_below :: "nat \<Rightarrow> Closure \<Rightarrow> bool" where
  "closure_below k cl = (\<forall>x h. cl x = Some h \<longrightarrow> addr_below k h)"

definition world_below :: "world \<Rightarrow> bool" where
  "world_below w = (\<forall>a. closure_below (owned w) (Fields w a))"

fun stmt_below :: "nat \<Rightarrow> Statement \<Rightarrow> bool" where
  "stmt_below k (ValueStatement a obj) = True"
| "stmt_below k (VariableValue ids) = True"
| "stmt_below k (Assignment var rv) = stmt_below k rv"
| "stmt_below k (FieldAssignment object field_name rv) = stmt_below k rv"
| "stmt_below k None_stmt = True"
| "stmt_below k (Print args) = (\<forall>s \<in> set args. stmt_below k s)"
| "stmt_below k (MethodCall object method args) =
     (stmt_below k object \<and> (\<forall>s \<in> set args. stmt_below k s))"
| "stmt_below k (NewInstance a c args) = (\<forall>s \<in> set args. stmt_below k s)"
| "stmt_below k (Stringify s) = stmt_below k s"
| "stmt_below k (Add l r) = (stmt_below k l \<and> stmt_below k r)"
| "stmt_below k (Sub l r) = (stmt_below k l \<and> stmt_below k r)"
| "stmt_below k (Mult l r) = (stmt_below k l \<and> stmt_below k r)"
| "stmt_below k (Div l r) = (stmt_below k l \<and> stmt_below k r)"
| "stmt_below k (Or l r) = (stmt_below k l \<and> stmt_below k r)"
| "stmt_below k (And l r) = (stmt_below k l \<and> stmt_below k r)"
| "stmt_below k (Not_stmt s) = stmt_below k s"
| "stmt_below k (Compound args) = (\<forall>s \<in> set args. stmt_below k s)"
| "stmt_below k (MethodBody b) = stmt_below k b"
| "stmt_below k (Return s) = stmt_below k s"
| "stmt_below k (ClassDefinition cls) = addr_below k cls"
| "stmt_below k (IfElse c t e) =
     (stmt_below k c \<and> stmt_below k t \<and> (case e of None \<Rightarrow> True | Some s \<Rightarrow> stmt_below k s))"
| "stmt_below k (Comparison cmp l r) = (stmt_below k l \<and> stmt_below k r)"

fun class_below :: "nat \<Rightarrow> Class \<Rightarrow> bool" where
  "class_below k (Class cname ms par) =
     ((\<forall>m \<in> set ms. stmt_below k (body m)) \<and>
      (case par of None \<Rightarrow> True | Some p \<Rightarrow> class_below k p))"

definition prog_below :: "nat \<Rightarrow> program \<Rightarrow> bool" where
  "prog_below k P = (\<forall>c cls. class_at P c = Some cls \<longrightarrow> class_below k cls)"

definition sane :: "program \<Rightarrow> Closure \<times> world \<Rightarrow> bool" where
  "sane P st =
     (closure_below (owned (snd st)) (fst st) \<and> world_below (snd st) \<and> prog_below (owned (snd st)) P)"

definition sane_world :: "program \<Rightarrow> world \<Rightarrow> bool" where
  "sane_world P w = (world_below w \<and> prog_below (owned w) P)"

fun outcome_below :: "(nat \<Rightarrow> 'a \<Rightarrow> bool) \<Rightarrow> nat \<Rightarrow> 'a outcome \<Rightarrow> bool" where
  "outcome_below V k (Normal v) = V k v"
| "outcome_below V k (Unwind h) = addr_below k h"
| "outcome_below V k (Error e) = True"

definition keeps :: "program \<Rightarrow> (nat \<Rightarrow> 'a \<Rightarrow> bool) \<Rightarrow> Closure \<times> world \<Rightarrow> ('a, Closure \<times> world) result \<Rightarrow> bool" where
  "keeps P V st r =
     (\<forall>out st'. r = Some (out, st') \<longrightarrow>
        owned (snd st) \<le> owned (snd st') \<and> sane P st' \<and> outcome_below V (owned (snd st')) out)"

definition keeps_world :: "program \<Rightarrow> (nat \<Rightarrow> 'a \<Rightarrow> bool) \<Rightarrow> world \<Rightarrow> ('a, world) result \<Rightarrow> bool" where
  "keeps_world P V w r =
     (\<forall>out w'. r = Some (out, w') \<longrightarrow>
        owned w \<le> owned w' \<and> sane_world P w' \<and> outcome_below V (owned w') out)"

definition exec_keeps :: "program \<Rightarrow> exec \<Rightarrow> bool" where
  "exec_keeps P ex =
     (\<forall>s st. sane P st \<longrightarrow> stmt_below (owned (snd st)) s \<longrightarrow> keeps P addr_below st (ex s st))"

definition printer_keeps :: "program \<Rightarrow> printer \<Rightarrow> bool" where
  "printer_keeps P pr =
     (\<forall>a obj w. sane_world P w \<longrightarrow> addr_below (owned w) (Holder a obj) \<longrightarrow>
        keeps_world P (\<lambda>k txt. True) w (pr a obj w))"

abbreviation any_value :: "nat \<Rightarrow> 'a \<Rightarrow> bool" where
  "any_value \<equiv> (\<lambda>k v. True)"

abbreviation all_below :: "nat \<Rightarrow> ObjectHolder list \<Rightarrow> bool" where
  "all_below \<equiv> (\<lambda>k vs. \<forall>v \<in> set vs. addr_below k v)"

section \<open>The token stream of the lexer\<close>

subsection \<open>What \<^verbatim>\<open>LoadTokens\<close> pushes\<close>

lemma appends_plain_refl: "appends_plain lx lx"
  by (simp add: appends_plain_def)

lemma appends_plain_trans: "appends_plain a b \<Longrightarrow> appends_plain b c \<Longrightarrow> appends_plain a c"
  by (auto simp: appends_plain_def)

lemma appends_plain_push: "plain t \<Longrightarrow> appends_plain lx (push_back t lx)"
  by (simp add: appends_plain_def push_back_def)

lemma key_words_plain: "key_words_token w = Some t \<Longrightarrow> plain t"
  by (auto simp: key_words_token_def plain_def split: if_splits)

lemma special_operators_plain: "special_operators_token w = Some t \<Longrightarrow> plain t"
  by (auto simp: special_operators_token_def plain_def split: if_splits)

lemma LoadNumber_plain: "LoadNumber lx s = Some (Inr (lx', s')) \<Longrightarrow> appends_plain lx lx'"
  by (auto simp: LoadNumber_def plain_def split: option.splits sum.splits prod.splits
      intro!: appends_plain_push)

lemma LoadString_plain: "LoadString lx s = Some (Inr (lx', s')) \<Longrightarrow> appends_plain lx lx'"
  by (auto simp: LoadString_def plain_def Let_def split: option.splits sum.splits prod.splits
      intro!: appends_plain_push)

lemma LoadWord_plain: "LoadWord lx s = Some (Inr (lx', s')) \<Longrightarrow> appends_plain lx lx'"
  by (auto simp: LoadWord_def plain_def split: option.splits sum.splits prod.splits
      dest!: key_words_plain intro!: appends_plain_push)

lemma LoadSign_plain: "LoadSign lx s = Some (Inr (lx', s')) \<Longrightarrow> appends_plain lx lx'"
  by (auto simp: LoadSign_def LoadChar_def Let_def plain_def
      split: option.splits sum.splits prod.splits if_splits
      dest!: special_operators_plain intro!: appends_plain_push)

lemma number_step_plain: "number_step (lx, s) = Some (Inr (lx', s')) \<Longrightarrow> appends_plain lx lx'"
  by (auto simp: number_step_def Let_def split: prod.splits if_splits
      intro: LoadNumber_plain appends_plain_refl)

lemma string_step_plain: "string_step (lx, s) = Some (Inr (lx', s')) \<Longrightarrow> appends_plain lx lx'"
  by (auto simp: string_step_def Let_def split: prod.splits if_splits
      intro: LoadString_plain appends_plain_refl)

lemma word_step_plain: "word_step (lx, s) = Some (Inr (lx', s')) \<Longrightarrow> appends_plain lx lx'"
  by (auto simp: word_step_def Let_def split: prod.splits if_splits
      intro: LoadWord_plain appends_plain_refl)

lemma char_step_plain: "char_step (lx, s) = Some (Inr (lx', s')) \<Longrightarrow> appends_plain lx lx'"
  by (auto simp: char_step_def Let_def LoadChar_def plain_def split: prod.splits if_splits
      intro: LoadSign_plain appends_plain_refl intro!: appends_plain_push)

lemma and_then_Inr:
  "and_then r f = Some (Inr y) \<Longrightarrow> \<exists>x. r = Some (Inr x) \<and> f x = Some (Inr y)"
  by (auto simp: and_then_def split: option.splits sum.splits)

lemma LoadTokens_body_plain:
  assumes "LoadTokens_body (lx, s) = Some (Inr (lx', s'))"
  shows "appends_plain lx lx'"
proof -
  from assms obtain a b c where
    1: "number_step (lx, s) = Some (Inr a)" and 2: "string_step a = Some (Inr b)"
    and 3: "word_step b = Some (Inr c)" and 4: "char_step c = Some (Inr (lx', s'))"
    unfolding LoadTokens_body_def by (blast dest: and_then_Inr)
  obtain la sa lb sb lc sc where [simp]: "a = (la, sa)" "b = (lb, sb)" "c = (lc, sc)"
    by (cases a, cases b, cases c) auto
  from 1 2 3 4 show ?thesis
    by (auto intro: appends_plain_trans dest!: number_step_plain string_step_plain word_step_plain char_step_plain)
qed


lemma LoadTokens_plain_aux:
  assumes "LoadTokens lx s = Some r"
  shows "\<forall>lx' s'. r = Inr (lx', s') \<longrightarrow> appends_plain lx lx'"
proof (rule LoadTokens.raw_induct
    [where P = "\<lambda>lx s r. \<forall>lx' s'. r = Inr (lx', s') \<longrightarrow> appends_plain lx lx'", OF _ assms],
    goal_cases)
  case (1 LoadTokens' lx s r)
  show ?case
  proof (intro allI impI)
    fix lx' s' assume r: "r = Inr (lx', s')"
    show "appends_plain lx lx'"
    proof (cases "eof s")
      case True
      with 1(2) r show ?thesis by (simp add: appends_plain_refl)
    next
      case False
      obtain brk s2 where ac: "at_comment (skip_space s) = (brk, s2)" by force
      show ?thesis
      proof (cases brk)
        case True
        with 1(2) r False ac show ?thesis by (simp add: appends_plain_refl)
      next
        case nb: False
        with 1(2) r False ac obtain lx1 s3 where
          b: "LoadTokens_body (lx, s2) = Some (Inr (lx1, s3))" and rec: "LoadTokens' lx1 s3 = Some r"
          by (auto split: option.splits sum.splits)
        from 1(1)[OF rec] r have "appends_plain lx1 lx'" by blast
        with LoadTokens_body_plain[OF b] show ?thesis by (rule appends_plain_trans)
      qed
    qed
  qed
qed

lemma LoadTokens_plain: "LoadTokens lx s = Some (Inr (lx', s')) \<Longrightarrow> appends_plain lx lx'"
  using LoadTokens_plain_aux by blast

subsection \<open>The invariant of the loop over the lines\<close>

lemma adjacent_newlines_snoc:
  "adjacent_newlines (xs @ [t]) = (adjacent_newlines xs \<or> (xs \<noteq> [] \<and> last xs = Newline \<and> t = Newline))"
  by (induction xs rule: adjacent_newlines.induct) auto

lemma adjacent_newlines_append:
  "Newline \<notin> set ts \<Longrightarrow> adjacent_newlines (xs @ ts) = adjacent_newlines xs"
proof (induction ts rule: rev_induct)
  case Nil
  then show ?case by simp
next
  case (snoc t ts)
  have "adjacent_newlines (xs @ ts @ [t]) = adjacent_newlines ((xs @ ts) @ [t])" by simp
  also have "\<dots> = adjacent_newlines (xs @ ts)"
    using snoc.prems by (subst adjacent_newlines_snoc) auto
  finally show ?case using snoc by simp
qed

lemma adjacent_newlines_nth:
  "adjacent_newlines ts \<longleftrightarrow> (\<exists>i. Suc i < length ts \<and> ts ! i = Newline \<and> ts ! Suc i = Newline)"
proof (induction ts rule: adjacent_newlines.induct)
  case (1 a b ts)
  show ?case
  proof
    assume "adjacent_newlines (a # b # ts)"
    then consider "a = Newline \<and> b = Newline" | "adjacent_newlines (b # ts)" by auto
    then show "\<exists>i. Suc i < length (a # b # ts) \<and> (a # b # ts) ! i = Newline \<and> (a # b # ts) ! Suc i = Newline"
    proof cases
      case 1
      then show ?thesis by (intro exI[of _ 0]) simp
    next
      case 2
      with "1.IH" obtain i where "Suc i < length (b # ts)" "(b # ts) ! i = Newline" "(b # ts) ! Suc i = Newline"
        by blast
      then show ?thesis by (intro exI[of _ "Suc i"]) simp
    qed
  next
    assume "\<exists>i. Suc i < length (a # b # ts) \<and> (a # b # ts) ! i = Newline \<and> (a # b # ts) ! Suc i = Newline"
    then obtain i where i: "Suc i < length (a # b # ts)" "(a # b # ts) ! i = Newline" "(a # b # ts) ! Suc i = Newline"
      by blast
    show "adjacent_newlines (a # b # ts)"
    proof (cases i)
      case 0
      with i show ?thesis by simp
    next
      case (Suc j)
      with i have "Suc j < length (b # ts)" "(b # ts) ! j = Newline" "(b # ts) ! Suc j = Newline" by auto
      with "1.IH" have "adjacent_newlines (b # ts)" by blast
      then show ?thesis by simp
    qed
  qed
qed auto

lemma count_list_replicate: "count_list (replicate k x) y = (if x = y then k else 0)"
  by (induction k) auto

lemma plain_counts:
  "list_all plain ts \<Longrightarrow>
     count_list ts Indent = 0 \<and> count_list ts Dedent = 0 \<and> Newline \<notin> set ts \<and> Eof \<notin> set ts"
  by (induction ts) (auto simp: plain_def)

lemma appends_plain_inv: "lexer_inv lx \<Longrightarrow> appends_plain lx lx' \<Longrightarrow> lexer_inv lx'"
  by (auto simp: lexer_inv_def appends_plain_def adjacent_newlines_append dest!: plain_counts)

lemma push_Indent_inv:
  "lexer_inv lx \<Longrightarrow> lexer_inv (push_back Indent (lx\<lparr>indent_size := indent_size lx + 2\<rparr>))"
  by (simp add: lexer_inv_def push_back_def adjacent_newlines_snoc)

lemma push_Dedent_inv:
  "lexer_inv lx \<Longrightarrow> indent_size lx > i \<Longrightarrow>
     lexer_inv (push_back Dedent (lx\<lparr>indent_size := indent_size lx - 2\<rparr>))"
  by (auto simp: lexer_inv_def push_back_def adjacent_newlines_snoc) presburger

lemma LoadIndent_inv: "lexer_inv lx \<Longrightarrow> lexer_inv (LoadIndent lx i)"
proof (induction lx i rule: LoadIndent.induct)
  case (1 lx i)
  show ?case
  proof (cases "indent_size lx < i")
    case True
    have "lexer_inv (LoadIndent (push_back Indent (lx\<lparr>indent_size := indent_size lx + 2\<rparr>)) i)"
      using True "1.prems" by (intro "1.IH" push_Indent_inv)
    then show ?thesis by (subst LoadIndent.simps) (simp only: True if_True)
  next
    case False
    with 1 show ?thesis by (subst LoadIndent.simps) simp
  qed
qed

lemma LoadDedent_inv: "lexer_inv lx \<Longrightarrow> lexer_inv (LoadDedent lx i)"
proof (induction lx i rule: LoadDedent.induct)
  case (1 lx i)
  show ?case
  proof (cases "indent_size lx > i")
    case True
    have "lexer_inv (LoadDedent (push_back Dedent (lx\<lparr>indent_size := indent_size lx - 2\<rparr>)) i)"
      using True "1.prems" by (intro "1.IH" push_Dedent_inv)
    then show ?thesis by (subst LoadDedent.simps) (simp only: True if_True)
  next
    case False
    with 1 show ?thesis by (subst LoadDedent.simps) simp
  qed
qed

lemma LoadDedent_le: "indent_size (LoadDedent lx i) \<le> i"
proof (induction lx i rule: LoadDedent.induct)
  case (1 lx i)
  then show ?case by (subst LoadDedent.simps) simp
qed

lemma LoadDedent_tokens:
  "\<exists>k. tokens (LoadDedent lx i) = tokens lx @ replicate k Dedent"
proof (induction lx i rule: LoadDedent.induct)
  case (1 lx i)
  show ?case
  proof (cases "indent_size lx > i")
    case True
    with 1 obtain k where
      "tokens (LoadDedent (push_back Dedent (lx\<lparr>indent_size := indent_size lx - 2\<rparr>)) i)
         = tokens (push_back Dedent (lx\<lparr>indent_size := indent_size lx - 2\<rparr>)) @ replicate k Dedent"
      by blast
    with True have "tokens (LoadDedent lx i) = tokens lx @ replicate (Suc k) Dedent"
      by (subst LoadDedent.simps) (simp add: push_back_def replicate_app_Cons_same)
    then show ?thesis by blast
  next
    case False
    then have "tokens (LoadDedent lx i) = tokens lx @ replicate 0 Dedent"
      by (subst LoadDedent.simps) simp
    then show ?thesis by blast
  qed
qed

lemma LoadDedent_index: "current_index (LoadDedent lx i) = current_index lx"
proof (induction lx i rule: LoadDedent.induct)
  case (1 lx i)
  then show ?case by (subst LoadDedent.simps) (simp add: push_back_def)
qed

lemma LoadIndent_index: "current_index (LoadIndent lx i) = current_index lx"
proof (induction lx i rule: LoadIndent.induct)
  case (1 lx i)
  then show ?case by (subst LoadIndent.simps) (simp add: push_back_def)
qed

lemma LoadTab_inv: "lexer_inv lx \<Longrightarrow> LoadTab lx s = (lx', s') \<Longrightarrow> lexer_inv lx'"
  by (auto simp: LoadTab_def Let_def LoadIndent_inv LoadDedent_inv split: prod.splits if_splits)

lemma LoadTab_index: "LoadTab lx s = (lx', s') \<Longrightarrow> current_index lx' = current_index lx"
  by (auto simp: LoadTab_def Let_def LoadIndent_index LoadDedent_index split: prod.splits if_splits)

lemma ParseString_inv:
  "lexer_inv lx \<Longrightarrow> ParseString lx s = Some (Inr (lx', s')) \<Longrightarrow> lexer_inv lx'"
  by (auto simp: ParseString_def Let_def split: prod.splits
      dest!: LoadTokens_plain intro: appends_plain_inv LoadTab_inv)

lemma ParseString_index:
  "ParseString lx s = Some (Inr (lx', s')) \<Longrightarrow> current_index lx' = current_index lx"
  by (auto simp: ParseString_def Let_def appends_plain_def split: prod.splits
      dest!: LoadTokens_plain LoadTab_index)

lemma LoadEndl_inv: "lexer_inv lx \<Longrightarrow> lexer_inv (LoadEndl lx)"
  by (auto simp: LoadEndl_def lexer_inv_def push_back_def adjacent_newlines_snoc)

lemma LoadEndl_line_end: "line_end (LoadEndl lx)"
  by (auto simp: LoadEndl_def line_end_def push_back_def)

lemma LoadEndl_index: "current_index (LoadEndl lx) = current_index lx"
  by (auto simp: LoadEndl_def push_back_def)

lemma ParseLines_inv:
  "lexer_inv lx \<Longrightarrow> line_end lx \<Longrightarrow> ParseLines lx ls = Some (Inr lx') \<Longrightarrow>
     lexer_inv lx' \<and> line_end lx' \<and> current_index lx' = current_index lx"
proof (induction ls arbitrary: lx)
  case Nil
  then show ?case by simp
next
  case (Cons l ls)
  show ?case
  proof (cases "StringIsEmpty l")
    case True
    with Cons show ?thesis by simp
  next
    case False
    with Cons.prems obtain lx1 s1 where
      ps: "ParseString lx (stringstream l) = Some (Inr (lx1, s1))"
      and rest: "ParseLines (LoadEndl lx1) ls = Some (Inr lx')"
      by (auto split: option.splits sum.splits)
    from ps Cons.prems(1) have "lexer_inv (LoadEndl lx1)"
      by (blast intro: LoadEndl_inv ParseString_inv)
    from Cons.IH[OF this LoadEndl_line_end rest] ParseString_index[OF ps]
    show ?thesis by (simp add: LoadEndl_index)
  qed
qed

lemma Lexer_new_decomp:
  assumes "Lexer_new src = Some (Inr lx)"
  shows "\<exists>lx1. ParseLines Lexer_init (getlines [] src) = Some (Inr lx1) \<and>
           lx = snd (NextToken (LoadEof (LoadDedent lx1 0)))"
  using assms
  by (auto simp: Lexer_new_def ParseTextOnTokens_def split: option.splits sum.splits)

lemma ParseLines_final:
  assumes "ParseLines Lexer_init ls = Some (Inr lx1)"
  shows "lexer_inv lx1 \<and> line_end lx1 \<and> current_index lx1 = 0"
proof -
  have "lexer_inv Lexer_init" "line_end Lexer_init"
    by (simp_all add: lexer_inv_def line_end_def Lexer_init_def)
  from ParseLines_inv[OF this assms] show ?thesis by (simp add: Lexer_init_def)
qed

text \<open>The shape of the stream the constructor materialises.\<close>

lemma Lexer_new_shape:
  assumes "Lexer_new src = Some (Inr lx)"
  shows "\<exists>body k. tokens lx = body @ replicate k Dedent @ [Eof] \<and>
           \<not> adjacent_newlines body \<and> Eof \<notin> set body \<and> (body = [] \<or> last body = Newline) \<and>
           count_list body Indent = k + count_list body Dedent \<and>
           indent_size lx = 0 \<and> current_index lx = 1 \<and> current_token lx = tokens lx ! 0"
proof -
  from Lexer_new_decomp[OF assms] obtain lx1 where
    pl: "ParseLines Lexer_init (getlines [] src) = Some (Inr lx1)"
    and lx: "lx = snd (NextToken (LoadEof (LoadDedent lx1 0)))"
    by blast
  from ParseLines_final[OF pl]
  have inv1: "lexer_inv lx1" and le1: "line_end lx1" and ix1: "current_index lx1 = 0" by simp_all
  obtain k where k: "tokens (LoadDedent lx1 0) = tokens lx1 @ replicate k Dedent"
    using LoadDedent_tokens by blast
  have z: "indent_size (LoadDedent lx1 0) = 0" using LoadDedent_le[of lx1 0] by simp
  have inv2: "lexer_inv (LoadDedent lx1 0)" using inv1 by (rule LoadDedent_inv)
  have ix2: "current_index (LoadDedent lx1 0) = 0" using ix1 by (simp add: LoadDedent_index)
  have tk: "tokens lx = tokens lx1 @ replicate k Dedent @ [Eof]"
    using lx k by (simp add: NextToken_def LoadEof_def push_back_def Let_def)
  have cnt: "count_list (tokens lx1) Indent = k + count_list (tokens lx1) Dedent"
    using inv2 z k by (simp add: lexer_inv_def count_list_replicate)
  have "indent_size lx = 0" "current_index lx = 1" "current_token lx = tokens lx ! 0"
    using lx z ix2 by (simp_all add: NextToken_def LoadEof_def push_back_def Let_def)
  with tk cnt inv1 le1 show ?thesis
    by (auto simp: lexer_inv_def line_end_def)
qed

subsection \<open>Evaluation of the lexer on a text\<close>

lemmas lexer_eval = Lexer_new_def Lexer_init_def ParseTextOnTokens_def ParseString_def LoadTab_def LoadTokens.simps
     LoadTokens_body_def and_then_def number_step_def string_step_def word_step_def char_step_def
     skip_space_def at_comment_def peek_def get_def ignore_def extract_char_def putback_def good_def eof_def
     stringstream_def LoadWord_def LoadNumber_def LoadString_def LoadSign_def LoadChar_def
     ReadString_def ReadString_loop.simps to_char_def isdigit_def isalpha_def isalnum_def IsChar_def
     special_operators_def special_symbols_def key_words_token_def special_operators_token_def
     push_back_def LoadEndl_def LoadEof_def NextToken_def stoi_def digit_value_def Let_def
     LoadDedent.simps LoadIndent.simps LoadTab_loop.simps

lemma Lexer_new_x:
  "Lexer_new ''x'' = Some (Inr \<lparr>current_token = Id_tok ''x'', tokens = [Id_tok ''x'', Newline, Eof],
      current_index = 1, indent_size = 0\<rparr>)"
  by (simp add: lexer_eval)

lemma Lexer_new_block:
  "Lexer_new (''if x:'' @ [CHR 0x0A] @ ''  y'') = Some (Inr \<lparr>current_token = If_tok,
      tokens = [If_tok, Id_tok ''x'', Char_tok CHR '':'', Newline, Indent, Id_tok ''y'', Newline, Dedent, Eof],
      current_index = 1, indent_size = 0\<rparr>)"
  by (simp add: lexer_eval)

subsection \<open>The end of the stream\<close>

text \<open>
  \<^bold>\<open>Claim C1\<close>, as amended. For every text on which the constructor of the lexer returns,
  the token stream ends with exactly one \<^verbatim>\<open>Eof\<close>: it is the last token and occurs once.
  No two \<^verbatim>\<open>Newline\<close> tokens are adjacent. The token before \<^verbatim>\<open>Eof\<close>, when there is
  one, is a \<^verbatim>\<open>Newline\<close> or a \<^verbatim>\<open>Dedent\<close>.

  The claim as stated has \<^verbatim>\<open>Eof\<close> never preceded by \<^verbatim>\<open>Newline\<close>. \<^verbatim>\<open>LoadEndl\<close> pushes a
  \<^verbatim>\<open>Newline\<close> after every line that is not empty, and only \<^verbatim>\<open>Dedent\<close> tokens come
  between the last line and \<^verbatim>\<open>Eof\<close>: the text \<^verbatim>\<open>x\<close> gives \<^verbatim>\<open>Id{x}\<close>, \<^verbatim>\<open>Newline\<close>,
  \<^verbatim>\<open>Eof\<close> (the counterexample below).
\<close>

theorem Lexer_stream_ends_with_Eof:
  assumes "Lexer_new src = Some (Inr lx)"
  shows "tokens lx \<noteq> [] \<and> last (tokens lx) = Eof \<and> count_list (tokens lx) Eof = 1 \<and>
         (\<forall>i. Suc i < length (tokens lx) \<longrightarrow>
              \<not> (tokens lx ! i = Newline \<and> tokens lx ! Suc i = Newline)) \<and>
         (2 \<le> length (tokens lx) \<longrightarrow>
              tokens lx ! (length (tokens lx) - 2) = Newline \<or>
              tokens lx ! (length (tokens lx) - 2) = Dedent)"
proof -
  from Lexer_new_shape[OF assms] obtain body k where
    tk: "tokens lx = body @ replicate k Dedent @ [Eof]"
    and nn: "\<not> adjacent_newlines body" and ne: "Eof \<notin> set body"
    and le: "body = [] \<or> last body = Newline"
    by blast
  have c: "count_list (tokens lx) Eof = 1"
    using ne by (simp add: tk count_list_replicate count_list_0_iff)
  have "\<not> adjacent_newlines (tokens lx)"
    unfolding tk using nn by (subst adjacent_newlines_append) auto
  then have a: "\<forall>i. Suc i < length (tokens lx) \<longrightarrow>
      \<not> (tokens lx ! i = Newline \<and> tokens lx ! Suc i = Newline)"
    by (auto simp: adjacent_newlines_nth)
  have p: "tokens lx ! (length (tokens lx) - 2) = Newline \<or>
      tokens lx ! (length (tokens lx) - 2) = Dedent" if "2 \<le> length (tokens lx)"
  proof (cases k)
    case 0
    with that tk have b: "body \<noteq> []" by auto
    with le have "last body = Newline" by simp
    moreover have "tokens lx ! (length (tokens lx) - 2) = last body"
      using b 0 by (simp add: tk nth_append last_conv_nth)
    ultimately show ?thesis by simp
  next
    case (Suc j)
    have "tokens lx = (body @ replicate j Dedent) @ [Dedent, Eof]"
      by (simp add: tk Suc replicate_append_same)
    then have "tokens lx ! (length (tokens lx) - 2) = Dedent"
      by (simp add: nth_append)
    then show ?thesis by simp
  qed
  from tk c a p show ?thesis by simp
qed

theorem Lexer_stream_ends_with_Eof_witness:
  "Lexer_new ''x'' = Some (Inr \<lparr>current_token = Id_tok ''x'', tokens = [Id_tok ''x'', Newline, Eof],
      current_index = 1, indent_size = 0\<rparr>) \<and>
   last [Id_tok ''x'', Newline, Eof] = Eof \<and> count_list [Id_tok ''x'', Newline, Eof] Eof = 1 \<and>
   \<not> ([Id_tok ''x'', Newline, Eof] ! 1 = Newline \<and> [Id_tok ''x'', Newline, Eof] ! 2 = Newline) \<and>
   [Id_tok ''x'', Newline, Eof] ! 1 = Newline"
  using Lexer_stream_ends_with_Eof [OF Lexer_new_x] Lexer_new_x by simp

theorem Newline_before_Eof_counterexample:
  "Lexer_new ''x'' = Some (Inr \<lparr>current_token = Id_tok ''x'', tokens = [Id_tok ''x'', Newline, Eof],
      current_index = 1, indent_size = 0\<rparr>)"
  by (simp add: lexer_eval)

subsection \<open>Indentation\<close>

text \<open>
  \<^bold>\<open>Claim C4\<close>. For every text on which the constructor of the lexer returns, the stream
  holds as many \<^verbatim>\<open>Indent\<close> as \<^verbatim>\<open>Dedent\<close> tokens, and \<^verbatim>\<open>indent_size_\<close> is 0 in the
  state \<^verbatim>\<open>LoadEof\<close> is applied to (the one \<^verbatim>\<open>LoadDedent()\<close> leaves after the last line)
  and in the lexer the constructor returns.
\<close>

theorem Indent_Dedent_balanced:
  assumes "Lexer_new src = Some (Inr lx)"
  shows "count_list (tokens lx) Indent = count_list (tokens lx) Dedent \<and> indent_size lx = 0 \<and>
         (\<exists>lx1. ParseLines Lexer_init (getlines [] src) = Some (Inr lx1) \<and>
                indent_size (LoadDedent lx1 0) = 0 \<and>
                lx = snd (NextToken (LoadEof (LoadDedent lx1 0))))"
proof -
  from Lexer_new_shape[OF assms] obtain body k where
    tk: "tokens lx = body @ replicate k Dedent @ [Eof]"
    and cnt: "count_list body Indent = k + count_list body Dedent"
    and z: "indent_size lx = 0"
    by blast
  have "count_list (tokens lx) Indent = count_list (tokens lx) Dedent"
    using cnt by (simp add: tk count_list_replicate)
  moreover from Lexer_new_decomp[OF assms] obtain lx1 where
    "ParseLines Lexer_init (getlines [] src) = Some (Inr lx1)"
    "lx = snd (NextToken (LoadEof (LoadDedent lx1 0)))" by blast
  moreover have "indent_size (LoadDedent lx1 0) = 0" using LoadDedent_le[of lx1 0] by simp
  ultimately show ?thesis using z by blast
qed

theorem Indent_Dedent_balanced_witness:
  "count_list [If_tok, Id_tok ''x'', Char_tok CHR '':'', Newline, Indent, Id_tok ''y'', Newline, Dedent, Eof] Indent = 1 \<and>
   count_list [If_tok, Id_tok ''x'', Char_tok CHR '':'', Newline, Indent, Id_tok ''y'', Newline, Dedent, Eof] Dedent = 1 \<and>
   Lexer_new (''if x:'' @ [CHR 0x0A] @ ''  y'') = Some (Inr \<lparr>current_token = If_tok,
      tokens = [If_tok, Id_tok ''x'', Char_tok CHR '':'', Newline, Indent, Id_tok ''y'', Newline, Dedent, Eof],
      current_index = 1, indent_size = 0\<rparr>)"
  using Indent_Dedent_balanced [OF Lexer_new_block] Lexer_new_block by simp

subsection \<open>The cursor at \<^verbatim>\<open>Eof\<close>\<close>

lemma advance_cursor_ok:
  "cursor_ok lx \<Longrightarrow> cursor_ok (advance lx) \<and> tokens (advance lx) = tokens lx"
  by (auto simp: cursor_ok_def advance_def NextToken_def Let_def)

lemma funpow_advance_cursor_ok:
  "cursor_ok lx \<Longrightarrow> cursor_ok ((advance ^^ n) lx) \<and> tokens ((advance ^^ n) lx) = tokens lx"
  by (induction n) (auto dest: advance_cursor_ok)

lemma NextToken_fixed:
  "current_index lx = length (tokens lx) \<Longrightarrow> NextToken lx = (current_token lx, lx)"
  by (simp add: NextToken_def)

lemma funpow_advance_fixed: "advance lx = lx \<Longrightarrow> (advance ^^ k) lx = lx"
  by (induction k) auto

text \<open>
  \<^bold>\<open>Claim C5\<close>. In every state the lexer reaches from its constructor by calls of
  \<^verbatim>\<open>NextToken\<close>: if the current token is \<^verbatim>\<open>Eof\<close>, then \<^verbatim>\<open>NextToken\<close> returns \<^verbatim>\<open>Eof\<close>
  and leaves the lexer as it is (the cursor does not move, \<^verbatim>\<open>Eof\<close> stays current), and
  the same holds after any number \<open>k\<close> of further calls.
\<close>

theorem NextToken_at_Eof_idempotent:
  assumes "Lexer_new src = Some (Inr lx0)" and "lx = (advance ^^ n) lx0"
    and "current_token lx = Eof"
  shows "NextToken lx = (Eof, lx) \<and> (advance ^^ k) lx = lx \<and>
         NextToken ((advance ^^ k) lx) = (Eof, (advance ^^ k) lx)"
proof -
  from Lexer_new_shape[OF assms(1)] obtain body j where
    tk: "tokens lx0 = body @ replicate j Dedent @ [Eof]" and ne: "Eof \<notin> set body"
    and ix: "current_index lx0 = 1" and ct: "current_token lx0 = tokens lx0 ! 0"
    by blast
  have "cursor_ok lx0" using tk ix ct by (simp add: cursor_ok_def)
  from funpow_advance_cursor_ok[OF this, of n] assms(2)
  have ok: "cursor_ok lx" and tl: "tokens lx = (body @ replicate j Dedent) @ [Eof]"
    by (simp_all add: tk)
  let ?pre = "body @ replicate j Dedent"
  have npre: "Eof \<notin> set ?pre" using ne by auto
  have "current_index lx = length (tokens lx)"
  proof (rule ccontr)
    assume "current_index lx \<noteq> length (tokens lx)"
    with ok have lt: "current_index lx - 1 < length ?pre"
      by (simp add: cursor_ok_def tl, linarith)
    then have "tokens lx ! (current_index lx - 1) = ?pre ! (current_index lx - 1)"
      unfolding tl by (simp only: nth_append if_True)
    moreover have "?pre ! (current_index lx - 1) \<in> set ?pre" using lt by (rule nth_mem)
    ultimately have "tokens lx ! (current_index lx - 1) \<noteq> Eof" using npre by metis
    with ok assms(3) show False by (simp add: cursor_ok_def)
  qed
  then have f: "NextToken lx = (Eof, lx)" using assms(3) by (simp add: NextToken_fixed)
  then have "advance lx = lx" by (simp add: advance_def)
  then have "(advance ^^ k) lx = lx" by (rule funpow_advance_fixed)
  with f show ?thesis by simp
qed

theorem NextToken_at_Eof_idempotent_witness:
  "Lexer_new ''x'' = Some (Inr \<lparr>current_token = Id_tok ''x'', tokens = [Id_tok ''x'', Newline, Eof],
      current_index = 1, indent_size = 0\<rparr>) \<and>
   (advance ^^ Suc (Suc 0)) \<lparr>current_token = Id_tok ''x'', tokens = [Id_tok ''x'', Newline, Eof],
      current_index = 1, indent_size = 0\<rparr> =
     \<lparr>current_token = Eof, tokens = [Id_tok ''x'', Newline, Eof], current_index = 3, indent_size = 0\<rparr> \<and>
   NextToken \<lparr>current_token = Eof, tokens = [Id_tok ''x'', Newline, Eof], current_index = 3, indent_size = 0\<rparr>
     = (Eof, \<lparr>current_token = Eof, tokens = [Id_tok ''x'', Newline, Eof], current_index = 3, indent_size = 0\<rparr>) \<and>
   (advance ^^ Suc (Suc (Suc 0))) \<lparr>current_token = Eof, tokens = [Id_tok ''x'', Newline, Eof], current_index = 3, indent_size = 0\<rparr>
     = \<lparr>current_token = Eof, tokens = [Id_tok ''x'', Newline, Eof], current_index = 3, indent_size = 0\<rparr>"
proof -
  let ?a = "\<lparr>current_token = Id_tok ''x'', tokens = [Id_tok ''x'', Newline, Eof],
      current_index = 1, indent_size = 0\<rparr>"
  let ?b = "\<lparr>current_token = Eof, tokens = [Id_tok ''x'', Newline, Eof], current_index = 3, indent_size = 0\<rparr>"
  have a: "?b = (advance ^^ Suc (Suc 0)) ?a"
    by (simp add: advance_def NextToken_def)
  have b: "current_token ?b = Eof" by simp
  from NextToken_at_Eof_idempotent [OF Lexer_new_x a b, of "Suc (Suc (Suc 0))"] Lexer_new_x a
  show ?thesis by simp
qed

section \<open>The evaluator\<close>

subsection \<open>Evaluation with a numeral for fuel\<close>

lemma Execute_numeral:
  "Execute (numeral k) P s st =
     Execute_node (\<lambda>s1 st1. Execute (pred_numeral k) P s1 st1)
       (\<lambda>a obj w. Print_virtual (pred_numeral k) P a obj w) P s st"
  by (simp add: numeral_eq_Suc)

lemma Print_virtual_numeral:
  "Print_virtual (numeral k) P this obj w =
     Print_object (\<lambda>s1 st1. Execute (pred_numeral k) P s1 st1)
       (\<lambda>a obj1 w1. Print_virtual (pred_numeral k) P a obj1 w1) P this obj w"
  by (simp add: numeral_eq_Suc)

lemmas exec_eval = Execute_numeral Print_virtual_numeral after_def with_closure_def Own_def Own_int_def
  int_range_def Call_def HasMethod_def emplace_def Print_object_def COMPARE_FUNC_def Equal_def Less_def
  NotEqual_def LessOrEqual_def Greater_def GreaterOrEqual_def os_write_def show_int_def show_nat.simps
  Let_def retain_def release_def store_def retain_vars_def release_vars_def dangling_def

subsection \<open>Division of 32-bit integers\<close>

lemma abs_div_lt: "1 < \<bar>l\<bar> \<Longrightarrow> k \<noteq> 0 \<Longrightarrow> \<bar>k\<bar> div \<bar>l\<bar> < \<bar>k :: int\<bar>"
  using int_div_less_self by force

lemma sdiv_range:
  fixes k l :: int
  assumes "int_range k" "l \<noteq> 0" "\<not> (k = - 2147483648 \<and> l = - 1)"
  shows "int_range (k sdiv l)"
proof (cases "\<bar>l\<bar> = 1")
  case True
  then have "l = 1 \<or> l = -1" by auto
  with assms show ?thesis by (auto simp: int_range_def signed_divide_int_def sgn_if)
next
  case False
  with assms(2) have l: "1 < \<bar>l\<bar>" by auto
  show ?thesis
  proof (cases "k = 0")
    case True
    then show ?thesis by (simp add: int_range_def)
  next
    case False
    from abs_div_lt[OF l False] have "\<bar>k\<bar> div \<bar>l\<bar> < \<bar>k\<bar>" .
    moreover have "0 \<le> \<bar>k\<bar> div \<bar>l\<bar>" by (simp add: div_int_pos_iff)
    moreover have "\<bar>k\<bar> \<le> 2147483648" using assms(1) by (auto simp: int_range_def)
    ultimately show ?thesis
      by (auto simp: int_range_def signed_divide_int_def sgn_if)
  qed
qed

lemma sint_range: "int_range (sint (x :: cint))"
  using sint_ge[of x] sint_lt[of x] by (simp add: int_range_def)

lemma sint_word_of_int_range: "int_range i \<Longrightarrow> sint (word_of_int i :: cint) = i"
  by (simp add: sint_sbintrunc' signed_take_bit_int_eq_self int_range_def)

subsection \<open>Allocation\<close>

text \<open>
  Every node keeps the invariant \<open>sane\<close>: the counter of allocations never decreases,
  and after the execution the closure, the fields, and the value returned or thrown
  hold only addresses below the counter. So the object that the next
  \<^verbatim>\<open>ObjectHolder::Own\<close> allocates is one that no holder of the state points to.
\<close>

text \<open>Counting holders changes neither the fields nor the counter of allocations.\<close>

lemma retain_sel [simp]:
  "Fields (retain h w) = Fields w" "owned (retain h w) = owned w" "out_text (retain h w) = out_text w"
  by (simp_all add: retain_def split: ObjectHolder.splits address.splits)

lemma release_sel [simp]:
  "Fields (release h w) = Fields w" "owned (release h w) = owned w" "out_text (release h w) = out_text w"
  by (simp_all add: release_def split: ObjectHolder.splits address.splits)

lemma store_sel [simp]:
  "Fields (store old h w) = Fields w" "owned (store old h w) = owned w"
  "out_text (store old h w) = out_text w"
  by (simp_all add: store_def split: option.splits)

lemma retain_vars_sel [simp]:
  "Fields (retain_vars keys cl w) = Fields w" "owned (retain_vars keys cl w) = owned w"
  "out_text (retain_vars keys cl w) = out_text w"
proof -
  have "Fields (fold (\<lambda>k w1. case cl k of None \<Rightarrow> w1 | Some h \<Rightarrow> retain h w1) ks w) = Fields w \<and>
        owned (fold (\<lambda>k w1. case cl k of None \<Rightarrow> w1 | Some h \<Rightarrow> retain h w1) ks w) = owned w \<and>
        out_text (fold (\<lambda>k w1. case cl k of None \<Rightarrow> w1 | Some h \<Rightarrow> retain h w1) ks w) = out_text w"
    for ks
    by (induction ks arbitrary: w) (auto split: option.splits)
  then show "Fields (retain_vars keys cl w) = Fields w" "owned (retain_vars keys cl w) = owned w"
    "out_text (retain_vars keys cl w) = out_text w"
    by (simp_all add: retain_vars_def)
qed

lemma release_vars_sel [simp]:
  "Fields (release_vars keys cl w) = Fields w" "owned (release_vars keys cl w) = owned w"
  "out_text (release_vars keys cl w) = out_text w"
proof -
  have "Fields (fold (\<lambda>k w1. case cl k of None \<Rightarrow> w1 | Some h \<Rightarrow> release h w1) ks w) = Fields w \<and>
        owned (fold (\<lambda>k w1. case cl k of None \<Rightarrow> w1 | Some h \<Rightarrow> release h w1) ks w) = owned w \<and>
        out_text (fold (\<lambda>k w1. case cl k of None \<Rightarrow> w1 | Some h \<Rightarrow> release h w1) ks w) = out_text w"
    for ks
    by (induction ks arbitrary: w) (auto split: option.splits)
  then show "Fields (release_vars keys cl w) = Fields w" "owned (release_vars keys cl w) = owned w"
    "out_text (release_vars keys cl w) = out_text w"
    by (simp_all add: release_vars_def)
qed

lemma addr_below_mono: "addr_below k h \<Longrightarrow> k \<le> k' \<Longrightarrow> addr_below k' h"
  by (cases "(k, h)" rule: addr_below.cases) auto

lemma closure_below_mono: "closure_below k cl \<Longrightarrow> k \<le> k' \<Longrightarrow> closure_below k' cl"
  by (auto simp: closure_below_def intro: addr_below_mono)

lemma stmt_below_mono: "stmt_below k s \<Longrightarrow> k \<le> k' \<Longrightarrow> stmt_below k' s"
  by (induction k s rule: stmt_below.induct) (auto intro: addr_below_mono split: option.splits)

lemma class_below_mono: "class_below k c \<Longrightarrow> k \<le> k' \<Longrightarrow> class_below k' c"
  by (induction k c rule: class_below.induct) (auto intro: stmt_below_mono split: option.splits)

lemma prog_below_mono: "prog_below k P \<Longrightarrow> k \<le> k' \<Longrightarrow> prog_below k' P"
  by (auto simp: prog_below_def intro: class_below_mono)

lemma outcome_below_addr_mono:
  "outcome_below addr_below k out \<Longrightarrow> k \<le> k' \<Longrightarrow> outcome_below addr_below k' out"
  by (cases out) (auto intro: addr_below_mono)

text \<open>The combinators of the evaluator keep the invariant.\<close>

lemma keeps_None [simp]: "keeps P V st None"
  by (simp add: keeps_def)

lemma keeps_after:
  assumes "keeps P V st r"
    and "\<And>v st1. r = Some (Normal v, st1) \<Longrightarrow> sane P st1 \<Longrightarrow> owned (snd st) \<le> owned (snd st1) \<Longrightarrow>
           V (owned (snd st1)) v \<Longrightarrow> keeps P V' st1 (f v st1)"
  shows "keeps P V' st (after r f)"
proof (cases r)
  case None
  then show ?thesis by (simp add: after_def)
next
  case (Some p)
  obtain out st1 where p: "p = (out, st1)" by (cases p)
  from assms(1) Some p have k: "owned (snd st) \<le> owned (snd st1)" "sane P st1"
    "outcome_below V (owned (snd st1)) out"
    unfolding keeps_def by blast+
  show ?thesis
  proof (cases out)
    case (Normal v)
    with k have "keeps P V' st1 (f v st1)" using assms(2) Some p by simp
    with k(1) show ?thesis using Some p Normal
      unfolding keeps_def after_def by (auto simp del: split_paired_All)
  next
    case (Unwind h)
    with k show ?thesis using Some p
      unfolding keeps_def after_def by (auto simp del: split_paired_All)
  next
    case (Error e)
    with k show ?thesis using Some p
      unfolding keeps_def after_def by (auto simp del: split_paired_All)
  qed
qed

lemma keeps_world_after:
  assumes "keeps_world P V w r"
    and "\<And>v w1. r = Some (Normal v, w1) \<Longrightarrow> sane_world P w1 \<Longrightarrow> owned w \<le> owned w1 \<Longrightarrow>
           V (owned w1) v \<Longrightarrow> keeps_world P V' w1 (f v w1)"
  shows "keeps_world P V' w (after r f)"
proof (cases r)
  case None
  then show ?thesis by (simp add: after_def keeps_world_def)
next
  case (Some p)
  obtain out w1 where p: "p = (out, w1)" by (cases p)
  from assms(1) Some p have k: "owned w \<le> owned w1" "sane_world P w1"
    "outcome_below V (owned w1) out"
    by (auto simp: keeps_world_def)
  show ?thesis
  proof (cases out)
    case (Normal v)
    with k have "keeps_world P V' w1 (f v w1)" using assms(2) Some p by simp
    with k(1) show ?thesis using Some p Normal
      by (auto simp: after_def keeps_world_def)
  next
    case (Unwind h)
    with k show ?thesis using Some p by (auto simp: after_def keeps_world_def)
  next
    case (Error e)
    with k show ?thesis using Some p by (auto simp: after_def keeps_world_def)
  qed
qed

lemma keeps_with_closure:
  assumes "keeps_world P V w r" and "closure_below (owned w) cl"
  shows "keeps P V (cl, w) (with_closure cl r)"
  using assms
  by (auto simp: keeps_def keeps_world_def with_closure_def sane_def sane_world_def
      intro: closure_below_mono split: option.splits)

lemma keeps_return:
  "sane P st \<Longrightarrow> outcome_below V (owned (snd st)) out \<Longrightarrow> keeps P V st (Some (out, st))"
  unfolding keeps_def by (simp del: split_paired_All)

lemma keeps_world_return:
  "sane_world P w \<Longrightarrow> outcome_below V (owned w) out \<Longrightarrow> keeps_world P V w (Some (out, w))"
  by (simp add: keeps_world_def)

lemma keeps_Own: "sane P st \<Longrightarrow> keeps P addr_below st (Own obj st)"
  by (cases st)
     (auto simp: keeps_def Own_def sane_def world_below_def
        intro: closure_below_mono prog_below_mono)

lemma keeps_Own_int: "sane P st \<Longrightarrow> keeps P addr_below st (Own_int i st)"
  by (simp add: Own_int_def keeps_Own keeps_return)

lemma sane_fst: "sane P (cl, w) \<Longrightarrow> closure_below (owned w) cl"
  by (simp add: sane_def)

lemma sane_world_of: "sane P (cl, w) \<Longrightarrow> sane_world P w"
  by (simp add: sane_def sane_world_def)

lemma sane_intro: "sane_world P w \<Longrightarrow> closure_below (owned w) cl \<Longrightarrow> sane P (cl, w)"
  by (simp add: sane_def sane_world_def)

lemma sane_world_counts [simp]:
  "sane_world P (retain h w) = sane_world P w"
  "sane_world P (release h w) = sane_world P w"
  "sane_world P (store old h w) = sane_world P w"
  "sane_world P (retain_vars keys cl w) = sane_world P w"
  "sane_world P (release_vars keys cl w) = sane_world P w"
  by (simp_all add: sane_world_def world_below_def)

lemma sane_counts [simp]:
  "sane P (cl1, retain h w) = sane P (cl1, w)"
  "sane P (cl1, release h w) = sane P (cl1, w)"
  "sane P (cl1, store old h w) = sane P (cl1, w)"
  "sane P (cl1, retain_vars keys cl w) = sane P (cl1, w)"
  "sane P (cl1, release_vars keys cl w) = sane P (cl1, w)"
  by (simp_all add: sane_def world_below_def)

lemma closure_below_upd:
  "closure_below k cl \<Longrightarrow> addr_below k h \<Longrightarrow> closure_below k (cl(x \<mapsto> h))"
  by (simp add: closure_below_def)

lemma closure_below_empty [simp]: "closure_below k Map.empty"
  by (simp add: closure_below_def)

lemma closure_below_emplace:
  "closure_below k cl \<Longrightarrow> addr_below k h \<Longrightarrow> closure_below k (emplace x h cl)"
  by (simp add: emplace_def closure_below_upd)

lemma closure_below_emplace_params:
  "closure_below k cl \<Longrightarrow> \<forall>v \<in> set vs. addr_below k v \<Longrightarrow>
     closure_below k (emplace_params ps vs cl)"
  by (induction ps vs cl rule: emplace_params.induct) (auto intro: closure_below_emplace)

text \<open>The loops and the calls of methods.\<close>

lemma VariableValue_loop_below:
  "world_below w \<Longrightarrow> closure_below (owned w) cl \<Longrightarrow>
     outcome_below addr_below (owned w) (VariableValue_loop w ids cl)"
proof (induction ids arbitrary: cl)
  case Nil
  then show ?case by simp
next
  case (Cons x ids)
  show ?case
  proof (cases "cl x")
    case None
    then show ?thesis by simp
  next
    case (Some v)
    with Cons.prems have v: "addr_below (owned w) v" by (auto simp: closure_below_def)
    show ?thesis
    proof (cases "ids = []")
      case True
      with Some v show ?thesis by simp
    next
      case False
      show ?thesis
      proof (cases "TryAs_ClassInstance v")
        case None
        with Some False show ?thesis
          by (cases v rule: TryAs_ClassInstance.cases) simp_all
      next
        case (Some ac)
        then obtain a c where "v = Holder a (ClassInstance c)"
          by (cases v rule: TryAs_ClassInstance.cases) auto
        moreover have "closure_below (owned w) (Fields w a)"
          using Cons.prems(1) by (simp add: world_below_def)
        ultimately show ?thesis using \<open>cl x = Some v\<close> False Cons.IH Cons.prems(1) by simp
      qed
    qed
  qed
qed

lemma GetMethod_scan_mem: "GetMethod_scan ms nm = Some m \<Longrightarrow> m \<in> set ms"
  by (induction ms) (auto split: if_splits)

lemma GetMethod_below:
  "class_below k cls \<Longrightarrow> GetMethod cls nm = Some m \<Longrightarrow> stmt_below k (body m)"
proof (induction cls nm rule: GetMethod.induct)
  case (1 cname ms par nm)
  show ?case
  proof (cases "GetMethod_scan ms nm")
    case None
    with 1 show ?thesis by (cases par) auto
  next
    case (Some x)
    with 1 show ?thesis by (auto dest: GetMethod_scan_mem)
  qed
qed

lemma exec_keepsD:
  "exec_keeps P ex \<Longrightarrow> sane P st \<Longrightarrow> stmt_below (owned (snd st)) s \<Longrightarrow>
     keeps P addr_below st (ex s st)"
  unfolding exec_keeps_def by blast

lemma printer_keepsD:
  "printer_keeps P pr \<Longrightarrow> sane_world P w \<Longrightarrow> addr_below (owned w) (Holder a obj) \<Longrightarrow>
     keeps_world P any_value w (pr a obj w)"
  unfolding printer_keeps_def by blast

lemma addr_below_Holder: "addr_below k (Holder a obj) = addr_below k (Holder a obj')"
  by (cases a) simp_all

lemma ExecuteArgs_keeps:
  assumes ex: "exec_keeps P ex"
  shows "sane P st \<Longrightarrow> \<forall>s \<in> set args. stmt_below (owned (snd st)) s \<Longrightarrow>
           keeps P all_below st (ExecuteArgs ex args st)"
proof (induction args arbitrary: st)
  case Nil
  then show ?case by (simp add: keeps_return)
next
  case (Cons a args)
  have "keeps P addr_below st (ex a st)" using ex Cons.prems by (simp add: exec_keepsD)
  then show ?case
    unfolding ExecuteArgs.simps
  proof (rule keeps_after)
    fix v st1
    assume s1: "sane P st1" and le: "owned (snd st) \<le> owned (snd st1)"
      and v: "addr_below (owned (snd st1)) v"
    have "\<forall>s \<in> set args. stmt_below (owned (snd st1)) s"
      using Cons.prems(2) le by (auto intro: stmt_below_mono)
    from Cons.IH[OF s1 this]
    show "keeps P all_below st1
        (after (ExecuteArgs ex args st1) (\<lambda>vs st2. Some (Normal (v # vs), st2)))"
    proof (rule keeps_after)
      fix vs st2
      assume "sane P st2" "owned (snd st1) \<le> owned (snd st2)"
        "\<forall>x \<in> set vs. addr_below (owned (snd st2)) x"
      with v show "keeps P all_below st2 (Some (Normal (v # vs), st2))"
        by (auto intro!: keeps_return intro: addr_below_mono)
    qed
  qed
qed

lemma Compound_loop_keeps:
  assumes ex: "exec_keeps P ex"
  shows "sane P st \<Longrightarrow> \<forall>s \<in> set args. stmt_below (owned (snd st)) s \<Longrightarrow>
           keeps P addr_below st (Compound_loop ex args st)"
proof (induction args arbitrary: st)
  case Nil
  then show ?case by (simp add: keeps_return)
next
  case (Cons a args)
  have "keeps P addr_below st (ex a st)" using ex Cons.prems by (simp add: exec_keepsD)
  then show ?case
    unfolding Compound_loop.simps
  proof (rule keeps_after)
    fix v st1
    assume s1: "sane P st1" and le: "owned (snd st) \<le> owned (snd st1)"
    have "\<forall>s \<in> set args. stmt_below (owned (snd st1)) s"
      using Cons.prems(2) le by (auto intro: stmt_below_mono)
    from Cons.IH[OF s1 this] show "keeps P addr_below st1 (Compound_loop ex args st1)" .
  qed
qed

lemma sane_os_write: "sane P (cl, w) \<Longrightarrow> sane P (cl, os_write txt w)"
  by (simp add: sane_def os_write_def world_below_def)

lemma Print_loop_keeps:
  assumes ex: "exec_keeps P ex" and pr: "printer_keeps P pr"
  shows "sane P st \<Longrightarrow> \<forall>s \<in> set args. stmt_below (owned (snd st)) s \<Longrightarrow>
           keeps P any_value st (Print_loop ex pr args st)"
proof (induction args arbitrary: st)
  case Nil
  then show ?case by (simp add: keeps_return)
next
  case (Cons a args)
  have "keeps P addr_below st (ex a st)" using ex Cons.prems by (simp add: exec_keepsD)
  then show ?case
    unfolding Print_loop.simps
  proof (rule keeps_after)
    fix v st1
    assume s1: "sane P st1" and le: "owned (snd st) \<le> owned (snd st1)"
      and v: "addr_below (owned (snd st1)) v"
    obtain cl1 w1 where st1: "st1 = (cl1, w1)" by (cases st1)
    have rest: "\<forall>s \<in> set args. stmt_below (owned w1) s"
      using Cons.prems(2) le st1 by (auto intro: stmt_below_mono)
    have tx: "keeps P any_value (cl1, w1)
        (case v of Empty \<Rightarrow> Some (Normal ''None'', (cl1, w1))
         | Holder p obj \<Rightarrow>
             if dangling w1 p then Some (Error undefined_behaviour, (cl1, w1))
             else with_closure cl1 (pr p obj w1))"
    proof (cases v)
      case Empty
      with s1 st1 show ?thesis by (simp add: keeps_return)
    next
      case (Holder p obj)
      with v s1 st1 pr show ?thesis
        by (auto intro!: keeps_with_closure printer_keepsD sane_world_of sane_fst keeps_return)
    qed
    show "keeps P any_value st1
        (case st1 of (cl1, w1) \<Rightarrow>
           after (case v of Empty \<Rightarrow> Some (Normal ''None'', (cl1, w1))
                  | Holder p obj \<Rightarrow>
                      if dangling w1 p then Some (Error undefined_behaviour, (cl1, w1))
                      else with_closure cl1 (pr p obj w1))
             (\<lambda>txt st2. case st2 of (cl2, w2) \<Rightarrow>
                Print_loop ex pr args
                  (cl2, if args \<noteq> [] then os_write '' '' (os_write txt w2) else os_write txt w2)))"
      unfolding st1 prod.case
      using tx
    proof (rule keeps_after)
      fix t st2
      assume s2: "sane P st2" and le2: "owned (snd (cl1, w1)) \<le> owned (snd st2)"
      obtain cl2 w2 where st2: "st2 = (cl2, w2)" by (cases st2)
      let ?w = "if args \<noteq> [] then os_write '' '' (os_write t w2) else os_write t w2"
      have o: "owned ?w = owned w2" by (simp add: os_write_def)
      have "sane P (cl2, ?w)" using s2 st2 by (auto intro: sane_os_write)
      moreover have "\<forall>s \<in> set args. stmt_below (owned ?w) s"
        using rest le2 st2 o by (auto intro: stmt_below_mono)
      ultimately have "keeps P any_value (cl2, ?w) (Print_loop ex pr args (cl2, ?w))"
        using Cons.IH[of "(cl2, ?w)"] by simp
      then show "keeps P any_value st2
          (case st2 of (cl2, w2) \<Rightarrow> Print_loop ex pr args
             (cl2, if args \<noteq> [] then os_write '' '' (os_write t w2) else os_write t w2))"
        unfolding st2 prod.case keeps_def using o by (auto simp del: split_paired_All)
    qed
  qed
qed

lemma Call_keeps:
  assumes ex: "exec_keeps P ex" and w: "sane_world P w"
    and self: "addr_below (owned w) (Holder this (ClassInstance c))"
    and args: "\<forall>v \<in> set actual_args. addr_below (owned w) v"
  shows "keeps_world P addr_below w (Call ex P this c method actual_args w)"
proof (cases "class_at P c")
  case None
  with w show ?thesis by (simp add: Call_def keeps_world_return)
next
  case (Some cls)
  from w Some have cb: "class_below (owned w) cls" by (auto simp: sane_world_def prog_below_def)
  show ?thesis
  proof (cases "HasMethod cls method (length actual_args)")
    case False
    with Some w show ?thesis by (simp add: Call_def keeps_world_return)
  next
    case True
    then obtain m where m: "GetMethod cls method = Some m"
      by (auto simp: HasMethod_def split: option.splits)
    let ?cl = "emplace ''self'' (Holder this (ClassInstance c))
                 (emplace_params (formal_params m) actual_args Map.empty)"
    have "closure_below (owned w) ?cl"
      using self args by (intro closure_below_emplace closure_below_emplace_params) simp_all
    with w have s: "sane P (?cl, retain_vars (formal_params m) ?cl w)"
      by (simp add: sane_intro)
    have "stmt_below (owned w) (body m)" using cb m by (rule GetMethod_below)
    with ex s have "keeps P addr_below (?cl, retain_vars (formal_params m) ?cl w)
        (ex (body m) (?cl, retain_vars (formal_params m) ?cl w))"
      by (simp add: exec_keepsD)
    then show ?thesis
      using Some True m
      unfolding Call_def keeps_def keeps_world_def
      by (auto simp: Let_def sane_world_of simp del: split_paired_All
          split: option.splits prod.splits)
  qed
qed

lemma Print_object_keeps:
  assumes ex: "exec_keeps P ex" and pr: "printer_keeps P pr"
  shows "printer_keeps P (Print_object ex pr P)"
  unfolding printer_keeps_def
proof (intro allI impI)
  fix a obj w
  assume w: "sane_world P w" and a: "addr_below (owned w) (Holder a obj)"
  show "keeps_world P any_value w (Print_object ex pr P a obj w)"
  proof (cases obj)
    case (ClassInstance c)
    show ?thesis
    proof (cases "class_at P c")
      case None
      with ClassInstance w show ?thesis by (simp add: Print_object_def keeps_world_return)
    next
      case (Some cls)
      show ?thesis
      proof (cases "HasMethod cls ''__str__'' 0")
        case False
        with Some ClassInstance w show ?thesis by (simp add: Print_object_def keeps_world_return)
      next
        case True
        have "keeps_world P addr_below w (Call ex P a c ''__str__'' [] w)"
          using ex w a ClassInstance by (intro Call_keeps) simp_all
        then have "keeps_world P any_value w
            (after (Call ex P a c ''__str__'' [] w)
               (\<lambda>r w1. case r of Empty \<Rightarrow> Some (Error undefined_behaviour, w1)
                  | Holder a obj1 \<Rightarrow> pr a obj1 w1))"
        proof (rule keeps_world_after)
          fix v w1
          assume "sane_world P w1" "addr_below (owned w1) v"
          then show "keeps_world P any_value w1
              (case v of Empty \<Rightarrow> Some (Error undefined_behaviour, w1)
               | Holder a obj1 \<Rightarrow> pr a obj1 w1)"
            using pr by (cases v) (auto intro: keeps_world_return printer_keepsD)
        qed
        with Some True ClassInstance show ?thesis by (simp add: Print_object_def)
      qed
    qed
  qed (use w in \<open>auto simp: Print_object_def intro!: keeps_world_return split: option.splits\<close>)
qed

lemma COMPARE_FUNC_keeps:
  assumes ex: "exec_keeps P ex" and w: "sane_world P w"
    and l: "addr_below (owned w) lhs" and r: "addr_below (owned w) rhs"
    and other: "keeps_world P any_value w otherwise"
  shows "keeps_world P any_value w (COMPARE_FUNC ex P lhs rhs func w otherwise)"
proof (cases "TryAs_ClassInstance lhs")
  case None
  with other show ?thesis
    by (cases lhs rule: TryAs_ClassInstance.cases) (simp_all add: COMPARE_FUNC_def)
next
  case (Some ac)
  then obtain a c where lhs: "lhs = Holder a (ClassInstance c)"
    by (cases lhs rule: TryAs_ClassInstance.cases) auto
  show ?thesis
  proof (cases "class_at P c")
    case None
    with lhs w show ?thesis by (simp add: COMPARE_FUNC_def keeps_world_return)
  next
    case (Some cls)
    show ?thesis
    proof (cases "HasMethod cls func 1")
      case False
      with Some lhs other show ?thesis by (simp add: COMPARE_FUNC_def)
    next
      case True
      have "keeps_world P addr_below w (Call ex P a c func [rhs] w)"
        using ex w l r lhs by (intro Call_keeps) simp_all
      then have "keeps_world P any_value w
          (after (Call ex P a c func [rhs] w) (\<lambda>r w1. Some (Normal (IsTrue r), w1)))"
        by (rule keeps_world_after) (simp add: keeps_world_return)
      with Some True lhs show ?thesis by (simp add: COMPARE_FUNC_def)
    qed
  qed
qed

lemma keeps_world_error:
  "sane_world P w \<Longrightarrow> keeps_world P V w (Some (Error e, w))"
  by (simp add: keeps_world_return)

lemma Equal_keeps:
  assumes "exec_keeps P ex" "sane_world P w" "addr_below (owned w) lhs" "addr_below (owned w) rhs"
  shows "keeps_world P any_value w (Equal ex P lhs rhs w)"
  using assms
  unfolding Equal_def
  by (auto intro!: COMPARE_FUNC_keeps keeps_world_return
      split: ObjectHolder.splits Object.splits)

lemma Less_keeps:
  assumes "exec_keeps P ex" "sane_world P w" "addr_below (owned w) lhs" "addr_below (owned w) rhs"
  shows "keeps_world P any_value w (Less ex P lhs rhs w)"
  using assms
  unfolding Less_def Let_def
  by (auto intro!: COMPARE_FUNC_keeps keeps_world_return
      split: ObjectHolder.splits Object.splits)

lemma keeps_world_negate:
  "keeps_world P any_value w r \<Longrightarrow>
     keeps_world P any_value w (after r (\<lambda>b w1. Some (Normal (\<not> b), w1)))"
  by (rule keeps_world_after) (simp_all add: keeps_world_return)

lemma LessOrEqual_keeps:
  assumes ex: "exec_keeps P ex" and w: "sane_world P w"
    and l: "addr_below (owned w) lhs" and r: "addr_below (owned w) rhs"
  shows "keeps_world P any_value w (LessOrEqual ex P lhs rhs w)"
  unfolding LessOrEqual_def
proof (rule keeps_world_after[OF Less_keeps[OF ex w l r]])
  fix b w1
  assume "sane_world P w1" "owned w \<le> owned w1"
  then show "keeps_world P any_value w1
      (if b then Some (Normal True, w1) else Equal ex P lhs rhs w1)"
    using ex l r by (auto intro!: Equal_keeps keeps_world_return intro: addr_below_mono)
qed

lemma comparator_keeps:
  assumes "exec_keeps P ex" "sane_world P w" "addr_below (owned w) lhs" "addr_below (owned w) rhs"
  shows "keeps_world P any_value w (comparator cmp ex P lhs rhs w)"
  using assms
  by (cases cmp)
     (simp_all add: Equal_keeps Less_keeps LessOrEqual_keeps NotEqual_def Greater_def
        GreaterOrEqual_def keeps_world_negate)

lemma keeps_error: "sane P st \<Longrightarrow> keeps P V st (Some (Error e, st))"
  by (simp add: keeps_return)

lemma keeps_unary:
  assumes ex: "exec_keeps P ex" and st: "sane P st" and s: "stmt_below (owned (snd st)) s"
    and g: "\<And>v st1. sane P st1 \<Longrightarrow> owned (snd st) \<le> owned (snd st1) \<Longrightarrow>
              addr_below (owned (snd st1)) v \<Longrightarrow> keeps P V st1 (g v st1)"
  shows "keeps P V st (after (ex s st) g)"
  by (rule keeps_after[OF exec_keepsD[OF ex st s]]) (rule g)

lemma keeps_binary:
  assumes ex: "exec_keeps P ex" and st: "sane P st"
    and l: "stmt_below (owned (snd st)) l" and r: "stmt_below (owned (snd st)) r"
    and g: "\<And>lhs rhs st2. sane P st2 \<Longrightarrow> addr_below (owned (snd st2)) lhs \<Longrightarrow>
              addr_below (owned (snd st2)) rhs \<Longrightarrow> keeps P V st2 (g lhs rhs st2)"
  shows "keeps P V st (after (ex l st) (\<lambda>lhs st1. after (ex r st1) (\<lambda>rhs st2. g lhs rhs st2)))"
proof (rule keeps_unary[OF ex st l])
  fix lhs st1
  assume s1: "sane P st1" and le: "owned (snd st) \<le> owned (snd st1)"
    and lv: "addr_below (owned (snd st1)) lhs"
  from r le have r1: "stmt_below (owned (snd st1)) r" by (rule stmt_below_mono)
  show "keeps P V st1 (after (ex r st1) (\<lambda>rhs st2. g lhs rhs st2))"
  proof (rule keeps_unary[OF ex s1 r1])
    fix rhs st2
    assume "sane P st2" "owned (snd st1) \<le> owned (snd st2)" "addr_below (owned (snd st2)) rhs"
    with lv show "keeps P V st2 (g lhs rhs st2)" by (auto intro: g addr_below_mono)
  qed
qed

lemma keeps_Call_closure:
  assumes "exec_keeps P ex" "sane P (cl, w)" "addr_below (owned w) (Holder a (ClassInstance c))"
    "\<forall>v \<in> set args. addr_below (owned w) v"
  shows "keeps P addr_below (cl, w) (with_closure cl (Call ex P a c method args w))"
  using assms by (intro keeps_with_closure Call_keeps sane_world_of sane_fst)

lemma os_write_owned: "owned (os_write t w) = owned w"
  by (simp add: os_write_def)

lemma sane_assign:
  "sane P (cl, w) \<Longrightarrow> addr_below (owned w) v \<Longrightarrow> sane P (cl(x \<mapsto> v), w)"
  by (simp add: sane_def closure_below_upd)

lemma sane_field:
  "sane P (cl, w) \<Longrightarrow> addr_below (owned w) v \<Longrightarrow>
     sane P (cl, w\<lparr>Fields := (Fields w)(a := (Fields w a)(x \<mapsto> v))\<rparr>)"
  by (auto simp: sane_def world_below_def closure_below_upd)

text \<open>One step of the evaluator keeps the invariant when the recursive calls do; so
  every execution does, by induction on the fuel.\<close>

lemma Execute_node_keeps:
  assumes ex: "exec_keeps P ex" and pr: "printer_keeps P pr"
  shows "exec_keeps P (Execute_node ex pr P)"
  unfolding exec_keeps_def
proof (intro allI impI)
  fix s st
  assume st: "sane P st" and s: "stmt_below (owned (snd st)) s"
  obtain cl w where stp: "st = (cl, w)" by (cases st)
  note bin = keeps_binary[OF ex st]
  note un = keeps_unary[OF ex st]
  show "keeps P addr_below st (Execute_node ex pr P s st)"
  proof (cases s)
    case (ValueStatement a obj)
    with st show ?thesis by (simp add: keeps_return)
  next
    case (VariableValue ids)
    have "outcome_below addr_below (owned w) (VariableValue_loop w ids cl)"
      using st stp by (intro VariableValue_loop_below) (simp_all add: sane_def)
    with st stp VariableValue show ?thesis by (simp add: keeps_return)
  next
    case (Assignment var rv)
    have "keeps P addr_below st
        (after (ex rv st)
           (\<lambda>v st1. case st1 of (closure, w) \<Rightarrow>
              Some (Normal v, (closure(var \<mapsto> v), store (closure var) v w))))"
    proof (rule un)
      show "stmt_below (owned (snd st)) rv" using s Assignment by simp
    next
      fix v st1
      assume "sane P st1" "addr_below (owned (snd st1)) v"
      then show "keeps P addr_below st1
          (case st1 of (closure, w) \<Rightarrow>
             Some (Normal v, (closure(var \<mapsto> v), store (closure var) v w)))"
        by (cases st1) (auto intro!: keeps_return sane_assign simp: keeps_def simp del: split_paired_All)
    qed
    with Assignment show ?thesis by simp
  next
    case (FieldAssignment object field_name rv)
    have vb: "outcome_below addr_below (owned w) (VariableValue_loop w object cl)"
      using st stp by (intro VariableValue_loop_below) (simp_all add: sane_def)
    show ?thesis
    proof (cases "VariableValue_loop w object cl")
      case (Normal v)
      show ?thesis
      proof (cases "TryAs_ClassInstance v")
        case None
        with Normal FieldAssignment stp st show ?thesis
          by (cases v rule: TryAs_ClassInstance.cases) (simp_all add: keeps_return)
      next
        case (Some ac)
        then obtain a c where v: "v = Holder a (ClassInstance c)"
          by (cases v rule: TryAs_ClassInstance.cases) auto
        have "keeps P addr_below st
            (after (ex rv st)
               (\<lambda>v st1. case st1 of (closure1, w1) \<Rightarrow>
                  Some (Normal v,
                        (closure1,
                         store (Fields w1 a field_name) v
                           (w1\<lparr>Fields := (Fields w1)(a := (Fields w1 a)(field_name \<mapsto> v))\<rparr>)))))"
        proof (rule un)
          show "stmt_below (owned (snd st)) rv" using s FieldAssignment by simp
        next
          fix x st1
          assume "sane P st1" "addr_below (owned (snd st1)) x"
          then show "keeps P addr_below st1
              (case st1 of (closure1, w1) \<Rightarrow>
                  Some (Normal x,
                        (closure1,
                         store (Fields w1 a field_name) x
                           (w1\<lparr>Fields := (Fields w1)(a := (Fields w1 a)(field_name \<mapsto> x))\<rparr>))))"
            by (cases st1)
               (auto intro!: sane_field simp: keeps_def simp del: split_paired_All)
        qed
        with Normal v FieldAssignment stp show ?thesis by simp
      qed
    next
      case (Unwind u)
      with vb FieldAssignment stp st show ?thesis by (simp add: keeps_return)
    next
      case (Error e)
      with FieldAssignment stp st show ?thesis by (simp add: keeps_return)
    qed
  next
    case None_stmt
    with st show ?thesis by (simp add: keeps_return)
  next
    case (Print args)
    have "keeps P any_value st (Print_loop ex pr args st)"
      using ex pr st s Print by (intro Print_loop_keeps) simp_all
    then have "keeps P addr_below st
        (after (Print_loop ex pr args st)
           (\<lambda>u st1. case st1 of (closure, w) \<Rightarrow> Some (Normal Empty, (closure, os_write [CHR 0x0A] w))))"
    proof (rule keeps_after)
      fix u st1
      assume "sane P st1"
      then show "keeps P addr_below st1
          (case st1 of (closure, w) \<Rightarrow> Some (Normal Empty, (closure, os_write [CHR 0x0A] w)))"
        by (cases st1) (simp add: keeps_def sane_os_write os_write_owned del: split_paired_All)
    qed
    with Print show ?thesis by simp
  next
    case (MethodCall object mname args)
    have "keeps P addr_below st
        (after (ex object st)
           (\<lambda>obj st1. case obj of
                Holder a (ClassInstance c) \<Rightarrow>
                  after (ExecuteArgs ex args st1)
                    (\<lambda>params st2. case st2 of (closure, w) \<Rightarrow>
                       with_closure closure (Call ex P a c mname params w))
              | _ \<Rightarrow> Some (Normal Empty, st1)))"
    proof (rule un)
      show "stmt_below (owned (snd st)) object" using s MethodCall by simp
    next
      fix obj st1
      assume s1: "sane P st1" and le: "owned (snd st) \<le> owned (snd st1)"
        and ob: "addr_below (owned (snd st1)) obj"
      have args1: "\<forall>x \<in> set args. stmt_below (owned (snd st1)) x"
        using s MethodCall le by (auto intro: stmt_below_mono)
      show "keeps P addr_below st1
          (case obj of
                Holder a (ClassInstance c) \<Rightarrow>
                  after (ExecuteArgs ex args st1)
                    (\<lambda>params st2. case st2 of (closure, w) \<Rightarrow>
                       with_closure closure (Call ex P a c mname params w))
              | _ \<Rightarrow> Some (Normal Empty, st1))"
      proof (cases "TryAs_ClassInstance obj")
        case None
        with s1 show ?thesis
          by (cases obj rule: TryAs_ClassInstance.cases) (simp_all add: keeps_return)
      next
        case (Some ac)
        then obtain a c where o: "obj = Holder a (ClassInstance c)"
          by (cases obj rule: TryAs_ClassInstance.cases) auto
        have "keeps P addr_below st1
            (after (ExecuteArgs ex args st1)
               (\<lambda>params st2. case st2 of (closure, w) \<Rightarrow>
                  with_closure closure (Call ex P a c mname params w)))"
        proof (rule keeps_after[OF ExecuteArgs_keeps[OF ex s1 args1]])
          fix params st2
          assume "sane P st2" "owned (snd st1) \<le> owned (snd st2)"
            "\<forall>v \<in> set params. addr_below (owned (snd st2)) v"
          with ob o show "keeps P addr_below st2
              (case st2 of (closure, w) \<Rightarrow> with_closure closure (Call ex P a c mname params w))"
            by (cases st2) (auto intro!: keeps_Call_closure[OF ex] intro: addr_below_mono)
        qed
        with o show ?thesis by simp
      qed
    qed
    with MethodCall show ?thesis by simp
  next
    case (NewInstance a c args)
    show ?thesis
    proof (cases "class_at P c")
      case None
      with NewInstance st show ?thesis by (simp add: keeps_return)
    next
      case (Some cls)
      show ?thesis
      proof (cases "HasMethod cls ''__init__'' (length args)")
        case False
        with Some NewInstance st show ?thesis by (simp add: keeps_return)
      next
        case True
        have args0: "\<forall>x \<in> set args. stmt_below (owned (snd st)) x"
          using s NewInstance by simp
        have "keeps P addr_below st
            (after (ExecuteArgs ex args st)
              (\<lambda>params st1. case st1 of (closure, w) \<Rightarrow>
                 after (with_closure closure (Call ex P (Member a) c ''__init__'' params w))
                   (\<lambda>r st2. Some (Normal (Holder (Member a) (ClassInstance c)), st2))))"
        proof (rule keeps_after[OF ExecuteArgs_keeps[OF ex st args0]])
          fix params st1
          assume s1: "sane P st1" and ps: "\<forall>v \<in> set params. addr_below (owned (snd st1)) v"
          obtain cl1 w1 where st1: "st1 = (cl1, w1)" by (cases st1)
          have "keeps P addr_below (cl1, w1)
              (with_closure cl1 (Call ex P (Member a) c ''__init__'' params w1))"
            using s1 ps st1 by (intro keeps_Call_closure[OF ex]) simp_all
          then have "keeps P addr_below (cl1, w1)
              (after (with_closure cl1 (Call ex P (Member a) c ''__init__'' params w1))
                 (\<lambda>r st2. Some (Normal (Holder (Member a) (ClassInstance c)), st2)))"
            by (rule keeps_after) (simp add: keeps_return)
          then show "keeps P addr_below st1
              (case st1 of (closure, w) \<Rightarrow>
                 after (with_closure closure (Call ex P (Member a) c ''__init__'' params w))
                   (\<lambda>r st2. Some (Normal (Holder (Member a) (ClassInstance c)), st2)))"
            by (simp add: st1)
        qed
        with Some True NewInstance show ?thesis by simp
      qed
    qed
  next
    case (Stringify argument)
    have "keeps P addr_below st
        (after (ex argument st)
           (\<lambda>v st1. case v of
                Empty \<Rightarrow> Own (String ''None'') st1
              | Holder p obj \<Rightarrow>
                  (case st1 of (closure, w) \<Rightarrow>
                     if dangling w p then Some (Error undefined_behaviour, st1)
                     else after (with_closure closure (pr p obj w))
                            (\<lambda>txt st2. Own (String txt) st2))))"
    proof (rule un)
      show "stmt_below (owned (snd st)) argument" using s Stringify by simp
    next
      fix v st1
      assume s1: "sane P st1" and vb: "addr_below (owned (snd st1)) v"
      show "keeps P addr_below st1
          (case v of
                Empty \<Rightarrow> Own (String ''None'') st1
              | Holder p obj \<Rightarrow>
                  (case st1 of (closure, w) \<Rightarrow>
                     if dangling w p then Some (Error undefined_behaviour, st1)
                     else after (with_closure closure (pr p obj w))
                            (\<lambda>txt st2. Own (String txt) st2)))"
      proof (cases v)
        case Empty
        with s1 show ?thesis by (simp add: keeps_Own)
      next
        case (Holder p obj)
        obtain cl1 w1 where st1: "st1 = (cl1, w1)" by (cases st1)
        have "keeps P any_value (cl1, w1) (with_closure cl1 (pr p obj w1))"
          using s1 vb Holder st1 pr
          by (auto intro!: keeps_with_closure printer_keepsD sane_world_of sane_fst)
        then have "keeps P addr_below (cl1, w1)
            (after (with_closure cl1 (pr p obj w1)) (\<lambda>txt st2. Own (String txt) st2))"
          by (rule keeps_after) (simp add: keeps_Own)
        with Holder st1 s1 show ?thesis by (simp add: keeps_return)
      qed
    qed
    with Stringify show ?thesis by simp
  next
    case (Add l r)
    have "keeps P addr_below st
        (after (ex l st) (\<lambda>lhs st1. after (ex r st1)
          (\<lambda>rhs st2. case (lhs, rhs) of
               (Holder a (Number x), Holder b (Number y)) \<Rightarrow> Own_int (sint x + sint y) st2
             | (Holder a (String x), Holder b (String y)) \<Rightarrow> Own (String (x @ y)) st2
             | (Holder a (ClassInstance c), _) \<Rightarrow>
                 (case st2 of (closure, w) \<Rightarrow>
                    with_closure closure (Call ex P a c ''__add__'' [rhs] w))
             | _ \<Rightarrow> Some (Error (runtime_error ''The operator is not overloaded +''), st2))))"
    proof (rule bin)
      show "stmt_below (owned (snd st)) l" "stmt_below (owned (snd st)) r" using s Add by simp_all
    next
      fix lhs rhs st2
      assume "sane P st2" "addr_below (owned (snd st2)) lhs" "addr_below (owned (snd st2)) rhs"
      then show "keeps P addr_below st2
          (case (lhs, rhs) of
               (Holder a (Number x), Holder b (Number y)) \<Rightarrow> Own_int (sint x + sint y) st2
             | (Holder a (String x), Holder b (String y)) \<Rightarrow> Own (String (x @ y)) st2
             | (Holder a (ClassInstance c), _) \<Rightarrow>
                 (case st2 of (closure, w) \<Rightarrow>
                    with_closure closure (Call ex P a c ''__add__'' [rhs] w))
             | _ \<Rightarrow> Some (Error (runtime_error ''The operator is not overloaded +''), st2))"
        by (cases st2)
           (auto intro!: keeps_Own keeps_Own_int keeps_error keeps_Call_closure[OF ex]
              split: ObjectHolder.splits Object.splits)
    qed
    with Add show ?thesis by simp
  next
    case (Sub l r)
    have "keeps P addr_below st
        (after (ex l st) (\<lambda>lhs st1. after (ex r st1)
          (\<lambda>rhs st2. case (lhs, rhs) of
               (Holder a (Number x), Holder b (Number y)) \<Rightarrow> Own_int (sint x - sint y) st2
             | _ \<Rightarrow> Some (Error (runtime_error ''The operator is not overloaded -''), st2))))"
    proof (rule bin)
      show "stmt_below (owned (snd st)) l" "stmt_below (owned (snd st)) r" using s Sub by simp_all
    qed (auto intro!: keeps_Own_int keeps_error split: ObjectHolder.splits Object.splits)
    with Sub show ?thesis by simp
  next
    case (Mult l r)
    have "keeps P addr_below st
        (after (ex l st) (\<lambda>lhs st1. after (ex r st1)
          (\<lambda>rhs st2. case (lhs, rhs) of
               (Holder a (Number x), Holder b (Number y)) \<Rightarrow> Own_int (sint x * sint y) st2
             | _ \<Rightarrow> Some (Error (runtime_error ''The operator is not overloaded *''), st2))))"
    proof (rule bin)
      show "stmt_below (owned (snd st)) l" "stmt_below (owned (snd st)) r" using s Mult by simp_all
    qed (auto intro!: keeps_Own_int keeps_error split: ObjectHolder.splits Object.splits)
    with Mult show ?thesis by simp
  next
    case (Div l r)
    have "keeps P addr_below st
        (after (ex l st) (\<lambda>lhs st1. after (ex r st1)
          (\<lambda>rhs st2. case (lhs, rhs) of
               (Holder a (Number x), Holder b (Number y)) \<Rightarrow>
                 if y \<noteq> 0 then Own_int (sint x sdiv sint y) st2
                 else Some (Error (runtime_error ''The denominator is zero''), st2)
             | _ \<Rightarrow> Some (Error (runtime_error ''The operator is not overloaded /''), st2))))"
    proof (rule bin)
      show "stmt_below (owned (snd st)) l" "stmt_below (owned (snd st)) r" using s Div by simp_all
    qed (auto intro!: keeps_Own_int keeps_error split: ObjectHolder.splits Object.splits)
    with Div show ?thesis by simp
  next
    case (Or l r)
    have "keeps P addr_below st
        (after (ex l st)
           (\<lambda>lhs st1. if \<not> IsTrue lhs
              then after (ex r st1) (\<lambda>rhs st2. Own (Bool (IsTrue rhs)) st2)
              else Own (Bool True) st1))"
    proof (rule un)
      show "stmt_below (owned (snd st)) l" using s Or by simp
    next
      fix lhs st1
      assume s1: "sane P st1" and le: "owned (snd st) \<le> owned (snd st1)"
      have "stmt_below (owned (snd st1)) r" using s Or le by (auto intro: stmt_below_mono)
      then have "keeps P addr_below st1 (after (ex r st1) (\<lambda>rhs st2. Own (Bool (IsTrue rhs)) st2))"
        by (intro keeps_unary[OF ex s1]) (simp_all add: keeps_Own)
      with s1 show "keeps P addr_below st1
          (if \<not> IsTrue lhs
              then after (ex r st1) (\<lambda>rhs st2. Own (Bool (IsTrue rhs)) st2)
              else Own (Bool True) st1)"
        by (simp add: keeps_Own)
    qed
    with Or show ?thesis by simp
  next
    case (And l r)
    have "keeps P addr_below st
        (after (ex l st)
           (\<lambda>lhs st1. if IsTrue lhs
              then after (ex r st1) (\<lambda>rhs st2. Own (Bool (IsTrue rhs)) st2)
              else Own (Bool False) st1))"
    proof (rule un)
      show "stmt_below (owned (snd st)) l" using s And by simp
    next
      fix lhs st1
      assume s1: "sane P st1" and le: "owned (snd st) \<le> owned (snd st1)"
      have "stmt_below (owned (snd st1)) r" using s And le by (auto intro: stmt_below_mono)
      then have "keeps P addr_below st1 (after (ex r st1) (\<lambda>rhs st2. Own (Bool (IsTrue rhs)) st2))"
        by (intro keeps_unary[OF ex s1]) (simp_all add: keeps_Own)
      with s1 show "keeps P addr_below st1
          (if IsTrue lhs
              then after (ex r st1) (\<lambda>rhs st2. Own (Bool (IsTrue rhs)) st2)
              else Own (Bool False) st1)"
        by (simp add: keeps_Own)
    qed
    with And show ?thesis by simp
  next
    case (Not_stmt argument)
    have "keeps P addr_below st (after (ex argument st) (\<lambda>v st1. Own (Bool (\<not> IsTrue v)) st1))"
      using s Not_stmt by (intro un) (simp_all add: keeps_Own)
    with Not_stmt show ?thesis by simp
  next
    case (Compound args)
    with ex st s show ?thesis by (simp add: Compound_loop_keeps)
  next
    case (MethodBody b)
    have "keeps P addr_below st (ex b st)" using ex st s MethodBody by (simp add: exec_keepsD)
    then show ?thesis
      unfolding MethodBody keeps_def
      by (auto simp del: split_paired_All split: option.splits outcome.splits prod.splits)
  next
    case (Return statement)
    have "keeps P addr_below st (after (ex statement st) (\<lambda>v st1. Some (Unwind v, st1)))"
      using s Return by (intro un) (simp_all add: keeps_return)
    with Return show ?thesis by simp
  next
    case (ClassDefinition cls)
    with st s stp show ?thesis
      by (auto simp: keeps_def sane_assign keeps_return simp del: split_paired_All
          split: ObjectHolder.splits Object.splits option.splits)
  next
    case (IfElse condition if_body else_body)
    have "keeps P addr_below st
        (after (ex condition st)
           (\<lambda>v st1. if IsTrue v then ex if_body st1
              else (case else_body of
                      Some e \<Rightarrow> ex e st1
                    | None \<Rightarrow> Some (Normal Empty, st1))))"
    proof (rule un)
      show "stmt_below (owned (snd st)) condition" using s IfElse by simp
    next
      fix v st1
      assume s1: "sane P st1" and le: "owned (snd st) \<le> owned (snd st1)"
      have "stmt_below (owned (snd st1)) if_body"
        and "\<And>e. else_body = Some e \<Longrightarrow> stmt_below (owned (snd st1)) e"
        using s IfElse le by (auto intro: stmt_below_mono)
      with s1 show "keeps P addr_below st1
          (if IsTrue v then ex if_body st1
              else (case else_body of
                      Some e \<Rightarrow> ex e st1
                    | None \<Rightarrow> Some (Normal Empty, st1)))"
        by (auto intro!: exec_keepsD[OF ex] keeps_return split: option.splits)
    qed
    with IfElse show ?thesis by simp
  next
    case (Comparison cmp l r)
    have "keeps P addr_below st
        (after (ex l st) (\<lambda>lhs st1. after (ex r st1)
          (\<lambda>rhs st2. case st2 of (closure, w) \<Rightarrow>
             after (with_closure closure (comparator cmp ex P lhs rhs w))
               (\<lambda>b st3. Own (Bool b) st3))))"
    proof (rule bin)
      show "stmt_below (owned (snd st)) l" "stmt_below (owned (snd st)) r"
        using s Comparison by simp_all
    next
      fix lhs rhs st2
      assume s2: "sane P st2" and lb: "addr_below (owned (snd st2)) lhs"
        and rb: "addr_below (owned (snd st2)) rhs"
      obtain cl2 w2 where st2: "st2 = (cl2, w2)" by (cases st2)
      have "keeps P any_value (cl2, w2) (with_closure cl2 (comparator cmp ex P lhs rhs w2))"
        using s2 lb rb st2
        by (auto intro!: keeps_with_closure comparator_keeps[OF ex] sane_world_of sane_fst)
      then have "keeps P addr_below (cl2, w2)
          (after (with_closure cl2 (comparator cmp ex P lhs rhs w2)) (\<lambda>b st3. Own (Bool b) st3))"
        by (rule keeps_after) (simp add: keeps_Own)
      then show "keeps P addr_below st2
          (case st2 of (closure, w) \<Rightarrow>
             after (with_closure closure (comparator cmp ex P lhs rhs w))
               (\<lambda>b st3. Own (Bool b) st3))"
        by (simp add: st2)
    qed
    with Comparison show ?thesis by simp
  qed
qed

lemma Execute_keeps:
  "exec_keeps P (\<lambda>s st. Execute n P s st) \<and> printer_keeps P (\<lambda>a obj w. Print_virtual n P a obj w)"
proof (induction n)
  case 0
  show ?case by (simp add: exec_keeps_def printer_keeps_def keeps_def keeps_world_def)
next
  case (Suc n)
  then have ex: "exec_keeps P (\<lambda>s st. Execute n P s st)"
    and pr: "printer_keeps P (\<lambda>a obj w. Print_virtual n P a obj w)" by simp_all
  show ?case
    using Execute_node_keeps[OF ex pr] Print_object_keeps[OF ex pr] by simp
qed

text \<open>What the invariant says of the object that \<^verbatim>\<open>ObjectHolder::Own\<close> allocates next.\<close>

lemma Execute_sane:
  assumes "sane P st" and "stmt_below (owned (snd st)) s"
    and "Execute n P s st = Some (out, (cl', w'))"
  shows "owned (snd st) \<le> owned w' \<and> sane P (cl', w') \<and> outcome_below addr_below (owned w') out"
  using exec_keepsD[OF Execute_keeps[THEN conjunct1] assms(1,2), of n] assms(3)
  unfolding keeps_def by (auto simp del: split_paired_All)

lemma addr_below_unused: "addr_below k h \<Longrightarrow> h \<noteq> Holder (Owned k) obj"
  by (induction k h rule: addr_below.induct) auto

lemma sane_unused:
  assumes "sane P (cl, w)"
  shows "cl x \<noteq> Some (Holder (Owned (owned w)) obj)"
    and "Fields w a x \<noteq> Some (Holder (Owned (owned w)) obj)"
proof -
  from assms have c: "closure_below (owned w) cl" and f: "closure_below (owned w) (Fields w a)"
    by (simp_all add: sane_def world_below_def)
  have n: "\<not> addr_below (owned w) (Holder (Owned (owned w)) obj)" by simp
  from c n show "cl x \<noteq> Some (Holder (Owned (owned w)) obj)"
    unfolding closure_below_def by blast
  from f n show "Fields w a x \<noteq> Some (Holder (Owned (owned w)) obj)"
    unfolding closure_below_def by blast
qed

lemma operand_unused:
  assumes st: "sane P st" and lb: "stmt_below (owned (snd st)) lhs"
    and l: "Execute n P lhs st = Some (Normal l, (closure1, w1))"
  shows "l \<noteq> Holder (Owned (owned w1)) b \<and>
         closure1 x \<noteq> Some (Holder (Owned (owned w1)) b) \<and>
         Fields w1 a x \<noteq> Some (Holder (Owned (owned w1)) b)"
  using Execute_sane[OF st lb l]
  by (auto simp: addr_below_unused dest: sane_unused)

lemma operands_unused:
  assumes st: "sane P st" and lb: "stmt_below (owned (snd st)) lhs"
    and rb: "stmt_below (owned (snd st)) rhs"
    and l: "Execute n P lhs st = Some (Normal l, st1)"
    and r: "Execute n P rhs st1 = Some (Normal r, (closure2, w2))"
  shows "l \<noteq> Holder (Owned (owned w2)) b \<and>
         r \<noteq> Holder (Owned (owned w2)) b \<and>
         closure2 x \<noteq> Some (Holder (Owned (owned w2)) b) \<and>
         Fields w2 a x \<noteq> Some (Holder (Owned (owned w2)) b)"
proof -
  obtain closure1 w1 where st1: "st1 = (closure1, w1)" by (cases st1)
  from Execute_sane[OF st lb l[unfolded st1]]
  have le: "owned (snd st) \<le> owned w1" and s1: "sane P (closure1, w1)"
    and l1: "addr_below (owned w1) l" by simp_all
  from rb le have "stmt_below (owned (snd (closure1, w1))) rhs"
    by (simp add: stmt_below_mono)
  from Execute_sane[OF s1 this r[unfolded st1]]
  have le2: "owned w1 \<le> owned w2" and s2: "sane P (closure2, w2)"
    and r2: "addr_below (owned w2) r" by simp_all
  from l1 le2 have "addr_below (owned w2) l" by (rule addr_below_mono)
  with s2 r2 show ?thesis by (auto simp: addr_below_unused dest: sane_unused)
qed

subsection \<open>The pointer of a temporary holder\<close>

text \<open>
  \<^verbatim>\<open>print 1 + 2\<close>: the sum is owned by the holder that \<^verbatim>\<open>Add\<close> returns alone, and
  is destroyed with it before \<^verbatim>\<open>Print\<close> uses the pointer. After \<^verbatim>\<open>x = 1 + 2\<close> the
  variable owns the sum as well, and \<^verbatim>\<open>print x\<close> prints it. \<^verbatim>\<open>Stringify\<close> does as
  \<^verbatim>\<open>Print\<close> does.
\<close>

lemma Print_of_a_temporary:
  "Execute 3 no_classes (Print [Add (NumericConst 1 1) (NumericConst 2 2)]) (Map.empty, world0) =
     Some (Error undefined_behaviour, (Map.empty, world0\<lparr>owned := 1\<rparr>))"
  by (simp add: exec_eval world0_def)

lemma Stringify_of_a_temporary:
  "Execute 3 no_classes (Stringify (Add (NumericConst 1 1) (NumericConst 2 2))) (Map.empty, world0) =
     Some (Error undefined_behaviour, (Map.empty, world0\<lparr>owned := 1\<rparr>))"
  by (simp add: exec_eval world0_def)

lemma Print_of_a_variable:
  "Execute 4 no_classes
       (Compound [Assignment ''x'' (Add (NumericConst 1 1) (NumericConst 2 2)),
                  Print [VariableValue [''x'']]])
       (Map.empty, world0) =
     Some (Normal Empty,
           ([''x'' \<mapsto> Holder (Owned 0) (Number 3)],
            world0\<lparr>out_text := ''3'' @ [CHR 0x0A], owned := 1, retained := (\<lambda>k. 0)(0 := 1)\<rparr>))"
  by (simp add: exec_eval world0_def)

text \<open>
  The closure of a call is destroyed when the call returns: the object that the variable
  \<open>y\<close> of the method \<open>g\<close> owned is then owned by the result of the call alone. It
  lives on when the result is assigned, and is destroyed before it is printed when the
  call is the argument of \<^verbatim>\<open>Print\<close>.
\<close>

lemma Print_of_a_result:
  "Execute 8 prog_G
       (Compound [Assignment ''o'' (NewInstance 7 0 []),
                  Print [MethodCall (VariableValue [''o'']) ''g'' []]])
       (Map.empty, world0) =
     Some (Error undefined_behaviour,
           ([''o'' \<mapsto> Holder (Member 7) (ClassInstance 0)], world0\<lparr>owned := 1\<rparr>))"
  by (simp add: exec_eval world0_def prog_G_def class_G_def)

lemma Print_of_an_assigned_result:
  "Execute 8 prog_G
       (Compound [Assignment ''o'' (NewInstance 7 0 []),
                  Assignment ''x'' (MethodCall (VariableValue [''o'']) ''g'' []),
                  Print [VariableValue [''x'']]])
       (Map.empty, world0) =
     Some (Normal Empty,
           ([''o'' \<mapsto> Holder (Member 7) (ClassInstance 0), ''x'' \<mapsto> Holder (Owned 0) (Number 3)],
            world0\<lparr>out_text := ''3'' @ [CHR 0x0A], owned := 1, retained := (\<lambda>k. 0)(0 := 1)\<rparr>))"
  by (simp add: exec_eval world0_def prog_G_def class_G_def)

subsection \<open>Comparison of two empty references\<close>

text \<open>
  \<^bold>\<open>Claim C3\<close>. \<^verbatim>\<open>Less\<close> on two empty references ends with the \<^verbatim>\<open>runtime_error\<close>
  "Cannot compare objects for less" and never returns a \<^verbatim>\<open>bool\<close>, whatever the methods
  of the program do: the first \<^verbatim>\<open>if\<close> builds the error without throwing it, none of the
  macros applies to an empty reference, and the \<^verbatim>\<open>throw\<close> that ends the function is
  reached.
\<close>

theorem Less_of_two_empty_references_fails:
  "Less ex P Empty Empty w = Some (Error (runtime_error ''Cannot compare objects for less''), w)"
  by (simp add: Less_def COMPARE_FUNC_def)

theorem Less_of_two_empty_references_fails_witness:
  "Less (\<lambda>s st. None) no_classes Empty Empty world0
     = Some (Error (runtime_error ''Cannot compare objects for less''), world0)"
  using Less_of_two_empty_references_fails [of "\<lambda>s st. None" no_classes world0] by simp

subsection \<open>\<^verbatim>\<open>And\<close> and \<^verbatim>\<open>Or\<close>\<close>

text \<open>
  \<^bold>\<open>Claim C6\<close>. Let the left operand return \<open>l\<close> and leave the closure \<open>closure1\<close> and
  the world \<open>w1\<close>. If \<open>l\<close> is falsy, \<^verbatim>\<open>And\<close> returns the \<^verbatim>\<open>Bool(false)\<close> that
  \<^verbatim>\<open>ObjectHolder::Own\<close> allocates in \<open>w1\<close>, and closure, fields and output are those of
  \<open>closure1\<close> and \<open>w1\<close>, whatever the right operand is: it is not executed. If \<open>l\<close> is
  truthy, the same holds of \<^verbatim>\<open>Or\<close> with \<^verbatim>\<open>Bool(true)\<close>. Otherwise, when the right operand
  returns \<open>r\<close>, the result is the \<^verbatim>\<open>Bool(IsTrue(r))\<close> allocated in the world it leaves.

  The result is fresh: when the node is executed in a state whose holders point to
  members of nodes or to objects allocated before (\<open>sane\<close>), the object allocated is
  none of the operands' results, and no variable of the closure and no field of any
  object points to it.
\<close>

theorem And_Or_short_circuit:
  assumes "Execute n P lhs st = Some (Normal l, (closure1, w1))"
  shows "(\<not> IsTrue l \<longrightarrow>
            Execute (Suc n) P (And lhs rhs) st =
              Some (Normal (Holder (Owned (owned w1)) (Bool False)),
                    (closure1, w1\<lparr>owned := owned w1 + 1\<rparr>))) \<and>
         (IsTrue l \<longrightarrow>
            Execute (Suc n) P (Or lhs rhs) st =
              Some (Normal (Holder (Owned (owned w1)) (Bool True)),
                    (closure1, w1\<lparr>owned := owned w1 + 1\<rparr>))) \<and>
         (IsTrue l \<longrightarrow> Execute n P rhs (closure1, w1) = Some (Normal r, (closure2, w2)) \<longrightarrow>
            Execute (Suc n) P (And lhs rhs) st =
              Some (Normal (Holder (Owned (owned w2)) (Bool (IsTrue r))),
                    (closure2, w2\<lparr>owned := owned w2 + 1\<rparr>))) \<and>
         (\<not> IsTrue l \<longrightarrow> Execute n P rhs (closure1, w1) = Some (Normal r, (closure2, w2)) \<longrightarrow>
            Execute (Suc n) P (Or lhs rhs) st =
              Some (Normal (Holder (Owned (owned w2)) (Bool (IsTrue r))),
                    (closure2, w2\<lparr>owned := owned w2 + 1\<rparr>))) \<and>
         (sane P st \<longrightarrow> stmt_below (owned (snd st)) lhs \<longrightarrow>
            l \<noteq> Holder (Owned (owned w1)) b \<and>
            closure1 x \<noteq> Some (Holder (Owned (owned w1)) b) \<and>
            Fields w1 a x \<noteq> Some (Holder (Owned (owned w1)) b)) \<and>
         (sane P st \<longrightarrow> stmt_below (owned (snd st)) lhs \<longrightarrow> stmt_below (owned (snd st)) rhs \<longrightarrow>
          Execute n P rhs (closure1, w1) = Some (Normal r, (closure2, w2)) \<longrightarrow>
            l \<noteq> Holder (Owned (owned w2)) b \<and>
            r \<noteq> Holder (Owned (owned w2)) b \<and>
            closure2 x \<noteq> Some (Holder (Owned (owned w2)) b) \<and>
            Fields w2 a x \<noteq> Some (Holder (Owned (owned w2)) b))"
proof -
  have "(\<not> IsTrue l \<longrightarrow>
            Execute (Suc n) P (And lhs rhs) st =
              Some (Normal (Holder (Owned (owned w1)) (Bool False)),
                    (closure1, w1\<lparr>owned := owned w1 + 1\<rparr>))) \<and>
         (IsTrue l \<longrightarrow>
            Execute (Suc n) P (Or lhs rhs) st =
              Some (Normal (Holder (Owned (owned w1)) (Bool True)),
                    (closure1, w1\<lparr>owned := owned w1 + 1\<rparr>))) \<and>
         (IsTrue l \<longrightarrow> Execute n P rhs (closure1, w1) = Some (Normal r, (closure2, w2)) \<longrightarrow>
            Execute (Suc n) P (And lhs rhs) st =
              Some (Normal (Holder (Owned (owned w2)) (Bool (IsTrue r))),
                    (closure2, w2\<lparr>owned := owned w2 + 1\<rparr>))) \<and>
         (\<not> IsTrue l \<longrightarrow> Execute n P rhs (closure1, w1) = Some (Normal r, (closure2, w2)) \<longrightarrow>
            Execute (Suc n) P (Or lhs rhs) st =
              Some (Normal (Holder (Owned (owned w2)) (Bool (IsTrue r))),
                    (closure2, w2\<lparr>owned := owned w2 + 1\<rparr>)))"
    using assms by (simp add: after_def Own_def)
  moreover have "l \<noteq> Holder (Owned (owned w1)) b \<and>
            closure1 x \<noteq> Some (Holder (Owned (owned w1)) b) \<and>
            Fields w1 a x \<noteq> Some (Holder (Owned (owned w1)) b)"
    if "sane P st" "stmt_below (owned (snd st)) lhs"
    using that assms by (rule operand_unused)
  moreover have "l \<noteq> Holder (Owned (owned w2)) b \<and>
            r \<noteq> Holder (Owned (owned w2)) b \<and>
            closure2 x \<noteq> Some (Holder (Owned (owned w2)) b) \<and>
            Fields w2 a x \<noteq> Some (Holder (Owned (owned w2)) b)"
    if "sane P st" "stmt_below (owned (snd st)) lhs" "stmt_below (owned (snd st)) rhs"
      "Execute n P rhs (closure1, w1) = Some (Normal r, (closure2, w2))"
    using that(1-3) assms that(4) by (rule operands_unused)
  ultimately show ?thesis by blast
qed

theorem And_Or_short_circuit_witness:
  "Execute 1 no_classes (BoolConst 1 False) (Map.empty, world0) =
     Some (Normal (Holder (Member 1) (Bool False)), (Map.empty, world0)) \<and>
   Execute (Suc 1) no_classes (And (BoolConst 1 False) (Print [StringConst 2 ''rhs''])) (Map.empty, world0) =
     Some (Normal (Holder (Owned 0) (Bool False)), (Map.empty, world0\<lparr>owned := 1\<rparr>)) \<and>
   Execute (Suc 1) no_classes (Print [StringConst 2 ''rhs'']) (Map.empty, world0) =
     Some (Normal Empty, (Map.empty, world0\<lparr>out_text := ''rhs'' @ [CHR 0x0A]\<rparr>)) \<and>
   Execute (Suc 1) no_classes (Or (BoolConst 1 False) (NumericConst 3 7)) (Map.empty, world0) =
     Some (Normal (Holder (Owned 0) (Bool True)), (Map.empty, world0\<lparr>owned := 1\<rparr>)) \<and>
   Execute 1 no_classes (VariableValue [''x''])
       ([''x'' \<mapsto> Holder (Owned 0) (Bool True)], world0\<lparr>owned := 1, retained := (\<lambda>k. 0)(0 := 1)\<rparr>) =
     Some (Normal (Holder (Owned 0) (Bool True)),
           ([''x'' \<mapsto> Holder (Owned 0) (Bool True)], world0\<lparr>owned := 1, retained := (\<lambda>k. 0)(0 := 1)\<rparr>)) \<and>
   Execute (Suc 1) no_classes (Or (VariableValue [''x'']) (VariableValue [''x'']))
       ([''x'' \<mapsto> Holder (Owned 0) (Bool True)], world0\<lparr>owned := 1, retained := (\<lambda>k. 0)(0 := 1)\<rparr>) =
     Some (Normal (Holder (Owned 1) (Bool True)),
           ([''x'' \<mapsto> Holder (Owned 0) (Bool True)], world0\<lparr>owned := 2, retained := (\<lambda>k. 0)(0 := 1)\<rparr>)) \<and>
   Holder (Owned 0) (Bool True) \<noteq> Holder (Owned 1) (Bool True)"
proof -
  have h: "Execute 1 no_classes (BoolConst 1 False) (Map.empty, world0) =
      Some (Normal (Holder (Member 1) (Bool False)), (Map.empty, world0))"
    by (simp add: exec_eval)
  have r: "Execute 1 no_classes (NumericConst 3 7) (Map.empty, world0) =
      Some (Normal (Holder (Member 3) (Number 7)), (Map.empty, world0))"
    by (simp add: exec_eval)
  have p: "Execute (Suc 1) no_classes (Print [StringConst 2 ''rhs'']) (Map.empty, world0) =
     Some (Normal Empty, (Map.empty, world0\<lparr>out_text := ''rhs'' @ [CHR 0x0A]\<rparr>))"
    by (simp add: exec_eval world0_def)
  let ?cl = "[''x'' \<mapsto> Holder (Owned 0) (Bool True)]"
  have v: "Execute 1 no_classes (VariableValue [''x'']) (?cl, world0\<lparr>owned := 1, retained := (\<lambda>k. 0)(0 := 1)\<rparr>) =
     Some (Normal (Holder (Owned 0) (Bool True)), (?cl, world0\<lparr>owned := 1, retained := (\<lambda>k. 0)(0 := 1)\<rparr>))"
    by (simp add: exec_eval)
  have sn: "sane no_classes (?cl, world0\<lparr>owned := 1, retained := (\<lambda>k. 0)(0 := 1)\<rparr>)"
    by (simp add: sane_def closure_below_def world_below_def prog_below_def no_classes_def world0_def)
  from And_Or_short_circuit [OF h, of "Print [StringConst 2 ''rhs'']"]
    And_Or_short_circuit [OF h, of "NumericConst 3 7" "Holder (Member 3) (Number 7)" Map.empty world0]
    And_Or_short_circuit [OF v, of "VariableValue [''x'']" _ _ _  "Bool True"]
    h r p v sn
  show ?thesis by (simp add: exec_eval world0_def)
qed

subsection \<open>\<^verbatim>\<open>Div\<close>\<close>

text \<open>
  \<^bold>\<open>Claim C7\<close>, as amended. Let both operands return. If both results are Numbers
  \<open>x\<close> and \<open>y\<close>, \<open>y\<close> is not 0 and the division is not that of \<^verbatim>\<open>INT_MIN\<close> by -1, then
  \<^verbatim>\<open>Div\<close> returns a Number allocated by \<^verbatim>\<open>ObjectHolder::Own\<close> that holds the quotient
  truncated toward zero. If \<open>y\<close> is 0, \<^verbatim>\<open>Div\<close> ends with the \<^verbatim>\<open>runtime_error\<close>
  "The denominator is zero". If one of the results is not a Number, \<^verbatim>\<open>Div\<close> ends with
  the \<^verbatim>\<open>runtime_error\<close> "The operator is not overloaded /".

  The Number returned is fresh: when the node is executed in a state whose holders
  point to members of nodes or to objects allocated before (\<open>sane\<close>), the object that
  \<^verbatim>\<open>ObjectHolder::Own\<close> allocates for the quotient is none of the operands' results, and
  no variable of the closure and no field of any object points to it.

  The claim as stated covers every divisor other than 0. The quotient of \<^verbatim>\<open>INT_MIN\<close> by
  -1 is \<open>2^31\<close>, which no \<^verbatim>\<open>int\<close> holds: the division overflows and the behaviour of
  the code is undefined. The counterexample below is the tree of the expression
  \<^verbatim>\<open>(0 - 2147483647 - 1) / (0 - 1)\<close>.
\<close>

theorem Div_of_two_Numbers:
  assumes "Execute n P lhs st = Some (Normal l, st1)"
    and "Execute n P rhs st1 = Some (Normal r, (closure2, w2))"
  shows "(TryAs_Number l = Some x \<longrightarrow> TryAs_Number r = Some y \<longrightarrow> y \<noteq> 0 \<longrightarrow>
            \<not> (sint x = - 2147483648 \<and> sint y = - 1) \<longrightarrow>
            (\<exists>q. Execute (Suc n) P (Div lhs rhs) st =
                    Some (Normal (Holder (Owned (owned w2)) (Number q)),
                          (closure2, w2\<lparr>owned := owned w2 + 1\<rparr>)) \<and>
                 sint q = sgn (sint x) * sgn (sint y) * (\<bar>sint x\<bar> div \<bar>sint y\<bar>))) \<and>
         (TryAs_Number l = Some x \<longrightarrow> TryAs_Number r = Some 0 \<longrightarrow>
            Execute (Suc n) P (Div lhs rhs) st =
              Some (Error (runtime_error ''The denominator is zero''), (closure2, w2))) \<and>
         (TryAs_Number l = None \<or> TryAs_Number r = None \<longrightarrow>
            Execute (Suc n) P (Div lhs rhs) st =
              Some (Error (runtime_error ''The operator is not overloaded /''), (closure2, w2))) \<and>
         (sane P st \<longrightarrow> stmt_below (owned (snd st)) lhs \<longrightarrow> stmt_below (owned (snd st)) rhs \<longrightarrow>
            l \<noteq> Holder (Owned (owned w2)) b \<and>
            r \<noteq> Holder (Owned (owned w2)) b \<and>
            closure2 v \<noteq> Some (Holder (Owned (owned w2)) b) \<and>
            Fields w2 a v \<noteq> Some (Holder (Owned (owned w2)) b))"
proof -
  have unused: "l \<noteq> Holder (Owned (owned w2)) b \<and>
            r \<noteq> Holder (Owned (owned w2)) b \<and>
            closure2 v \<noteq> Some (Holder (Owned (owned w2)) b) \<and>
            Fields w2 a v \<noteq> Some (Holder (Owned (owned w2)) b)"
    if "sane P st" "stmt_below (owned (snd st)) lhs" "stmt_below (owned (snd st)) rhs"
    using that assms by (rule operands_unused)
  show ?thesis
  proof (intro conjI impI)
    assume l: "TryAs_Number l = Some x" and r: "TryAs_Number r = Some y" and y: "y \<noteq> 0"
      and nov: "\<not> (sint x = - 2147483648 \<and> sint y = - 1)"
    from l obtain a where l': "l = Holder a (Number x)"
      by (cases l rule: TryAs_Number.cases) auto
    from r obtain b where r': "r = Holder b (Number y)"
      by (cases r rule: TryAs_Number.cases) auto
    from y have "sint y \<noteq> 0" by (simp add: signed_eq_0_iff)
    with nov have rg: "int_range (sint x sdiv sint y)"
      by (intro sdiv_range sint_range) auto
    let ?q = "word_of_int (sint x sdiv sint y) :: cint"
    have "Execute (Suc n) P (Div lhs rhs) st =
            Some (Normal (Holder (Owned (owned w2)) (Number ?q)), (closure2, w2\<lparr>owned := owned w2 + 1\<rparr>))"
      using assms l' r' y rg by (simp add: after_def Own_int_def Own_def)
    moreover have "sint ?q = sint x sdiv sint y"
      using rg by (rule sint_word_of_int_range)
    then have "sint ?q = sgn (sint x) * sgn (sint y) * (\<bar>sint x\<bar> div \<bar>sint y\<bar>)"
      by (simp only: signed_divide_int_def)
    ultimately show "\<exists>q. Execute (Suc n) P (Div lhs rhs) st =
                      Some (Normal (Holder (Owned (owned w2)) (Number q)),
                            (closure2, w2\<lparr>owned := owned w2 + 1\<rparr>)) \<and>
                   sint q = sgn (sint x) * sgn (sint y) * (\<bar>sint x\<bar> div \<bar>sint y\<bar>)"
      by blast
  next
    assume l: "TryAs_Number l = Some x" and r: "TryAs_Number r = Some 0"
    from l obtain a where "l = Holder a (Number x)"
      by (cases l rule: TryAs_Number.cases) auto
    moreover from r obtain b where "r = Holder b (Number 0)"
      by (cases r rule: TryAs_Number.cases) auto
    ultimately show "Execute (Suc n) P (Div lhs rhs) st =
        Some (Error (runtime_error ''The denominator is zero''), (closure2, w2))"
      using assms by (simp add: after_def)
  next
    assume "TryAs_Number l = None \<or> TryAs_Number r = None"
    then show "Execute (Suc n) P (Div lhs rhs) st =
        Some (Error (runtime_error ''The operator is not overloaded /''), (closure2, w2))"
      using assms
      by (cases l rule: TryAs_Number.cases; cases r rule: TryAs_Number.cases)
         (auto simp: after_def)
  qed (use unused in blast)+
qed

theorem Div_of_two_Numbers_witness:
  "Execute (Suc 1) no_classes (Div (NumericConst 1 7) (NumericConst 2 2)) (Map.empty, world0) =
     Some (Normal (Holder (Owned 0) (Number 3)), (Map.empty, world0\<lparr>owned := 1\<rparr>)) \<and>
   Execute (Suc 1) no_classes (Div (NumericConst 1 (- 7)) (NumericConst 2 2)) (Map.empty, world0) =
     Some (Normal (Holder (Owned 0) (Number (- 3))), (Map.empty, world0\<lparr>owned := 1\<rparr>)) \<and>
   Execute (Suc 1) no_classes (Div (NumericConst 1 7) (NumericConst 2 0)) (Map.empty, world0) =
     Some (Error (runtime_error ''The denominator is zero''), (Map.empty, world0)) \<and>
   Execute (Suc 1) no_classes (Div (StringConst 1 ''a'') (NumericConst 2 2)) (Map.empty, world0) =
     Some (Error (runtime_error ''The operator is not overloaded /''), (Map.empty, world0)) \<and>
   Execute 1 no_classes (VariableValue [''x''])
       ([''x'' \<mapsto> Holder (Owned 0) (Number 7)], world0\<lparr>owned := 1, retained := (\<lambda>k. 0)(0 := 1)\<rparr>) =
     Some (Normal (Holder (Owned 0) (Number 7)),
           ([''x'' \<mapsto> Holder (Owned 0) (Number 7)], world0\<lparr>owned := 1, retained := (\<lambda>k. 0)(0 := 1)\<rparr>)) \<and>
   Execute (Suc 1) no_classes (Div (VariableValue [''x'']) (VariableValue [''x'']))
       ([''x'' \<mapsto> Holder (Owned 0) (Number 7)], world0\<lparr>owned := 1, retained := (\<lambda>k. 0)(0 := 1)\<rparr>) =
     Some (Normal (Holder (Owned 1) (Number 1)),
           ([''x'' \<mapsto> Holder (Owned 0) (Number 7)], world0\<lparr>owned := 2, retained := (\<lambda>k. 0)(0 := 1)\<rparr>)) \<and>
   Holder (Owned 0) (Number 7) \<noteq> Holder (Owned 1) (Number 7)"
proof -
  let ?cl = "[''x'' \<mapsto> Holder (Owned 0) (Number 7)]"
  have v: "Execute 1 no_classes (VariableValue [''x'']) (?cl, world0\<lparr>owned := 1, retained := (\<lambda>k. 0)(0 := 1)\<rparr>) =
     Some (Normal (Holder (Owned 0) (Number 7)), (?cl, world0\<lparr>owned := 1, retained := (\<lambda>k. 0)(0 := 1)\<rparr>))"
    by (simp add: exec_eval)
  have sn: "sane no_classes (?cl, world0\<lparr>owned := 1, retained := (\<lambda>k. 0)(0 := 1)\<rparr>)"
    by (simp add: sane_def closure_below_def world_below_def prog_below_def no_classes_def world0_def)
  have "Execute (Suc 1) no_classes (Div (VariableValue [''x'']) (VariableValue [''x'']))
       (?cl, world0\<lparr>owned := 1, retained := (\<lambda>k. 0)(0 := 1)\<rparr>) =
     Some (Normal (Holder (Owned 1) (Number 1)), (?cl, world0\<lparr>owned := 2, retained := (\<lambda>k. 0)(0 := 1)\<rparr>)) \<and>
     Holder (Owned 0) (Number 7) \<noteq> Holder (Owned 1) (Number 7)"
    using Div_of_two_Numbers [OF v v, of 7 7 "Number 7"] sn
    by (simp add: after_def Own_int_def Own_def int_range_def signed_divide_int_def world0_def)
  note fresh = this
  have a: "Execute 1 no_classes (NumericConst 1 7) (Map.empty, world0) =
      Some (Normal (Holder (Member 1) (Number 7)), (Map.empty, world0))"
    and b: "Execute 1 no_classes (NumericConst 2 2) (Map.empty, world0) =
      Some (Normal (Holder (Member 2) (Number 2)), (Map.empty, world0))"
    and c: "Execute 1 no_classes (NumericConst 1 (- 7)) (Map.empty, world0) =
      Some (Normal (Holder (Member 1) (Number (- 7))), (Map.empty, world0))"
    and d: "Execute 1 no_classes (NumericConst 2 0) (Map.empty, world0) =
      Some (Normal (Holder (Member 2) (Number 0)), (Map.empty, world0))"
    and e: "Execute 1 no_classes (StringConst 1 ''a'') (Map.empty, world0) =
      Some (Normal (Holder (Member 1) (String ''a'')), (Map.empty, world0))"
    by (simp_all add: exec_eval)
  have "Execute (Suc 1) no_classes (Div (NumericConst 1 7) (NumericConst 2 0)) (Map.empty, world0) =
     Some (Error (runtime_error ''The denominator is zero''), (Map.empty, world0))"
    using Div_of_two_Numbers [OF a d, of 7] by simp
  moreover
  have "Execute (Suc 1) no_classes (Div (StringConst 1 ''a'') (NumericConst 2 2)) (Map.empty, world0) =
     Some (Error (runtime_error ''The operator is not overloaded /''), (Map.empty, world0))"
    using Div_of_two_Numbers [OF e b] by simp
  moreover
  have "Execute (Suc 1) no_classes (Div (NumericConst 1 7) (NumericConst 2 2)) (Map.empty, world0) =
     Some (Normal (Holder (Owned 0) (Number 3)), (Map.empty, world0\<lparr>owned := 1\<rparr>))"
    using Div_of_two_Numbers [OF a b, of 7 2]
    by (simp add: after_def Own_int_def Own_def int_range_def signed_divide_int_def world0_def)
  moreover
  have "Execute (Suc 1) no_classes (Div (NumericConst 1 (- 7)) (NumericConst 2 2)) (Map.empty, world0) =
     Some (Normal (Holder (Owned 0) (Number (- 3))), (Map.empty, world0\<lparr>owned := 1\<rparr>))"
    using Div_of_two_Numbers [OF c b, of "- 7" 2]
    by (simp add: after_def Own_int_def Own_def int_range_def signed_divide_int_def world0_def)
  ultimately show ?thesis using v fresh by simp
qed

theorem Div_overflow_counterexample:
  "Execute 4 no_classes
       (Div (Sub (Sub (NumericConst 1 0) (NumericConst 2 2147483647)) (NumericConst 3 1))
            (Sub (NumericConst 4 0) (NumericConst 5 1)))
       (Map.empty, world0) =
     Some (Error undefined_behaviour, (Map.empty, world0\<lparr>owned := 3\<rparr>)) \<and>
   Execute 3 no_classes
       (Sub (Sub (NumericConst 1 0) (NumericConst 2 2147483647)) (NumericConst 3 1))
       (Map.empty, world0) =
     Some (Normal (Holder (Owned 1) (Number (- 2147483648))), (Map.empty, world0\<lparr>owned := 2\<rparr>)) \<and>
   Execute 3 no_classes (Sub (NumericConst 4 0) (NumericConst 5 1))
       (Map.empty, world0\<lparr>owned := 2\<rparr>) =
     Some (Normal (Holder (Owned 2) (Number (- 1))), (Map.empty, world0\<lparr>owned := 3\<rparr>))"
  by (simp add: exec_eval signed_divide_int_def world0_def)

subsection \<open>Method resolution\<close>

lemma GetMethod_scan_find: "GetMethod_scan ms nm = find (\<lambda>m. name m = nm) ms"
  by (induction ms) auto

lemma find_append_first:
  "find Q (xs @ ys) = (case find Q xs of Some x \<Rightarrow> Some x | None \<Rightarrow> find Q ys)"
  by (induction xs) auto

lemma GetMethod_first_on_chain: "GetMethod cls nm = first_on_chain cls nm"
proof (induction cls nm rule: GetMethod.induct)
  case (1 cname ms par nm)
  show ?case
  proof (cases "GetMethod_scan ms nm")
    case None
    with 1 show ?thesis
      by (cases par) (simp_all add: first_on_chain_def find_append_first GetMethod_scan_find)
  next
    case (Some m)
    then show ?thesis
      by (simp add: first_on_chain_def find_append_first GetMethod_scan_find)
  qed
qed

text \<open>
  \<^bold>\<open>Claim C8\<close>. \<^verbatim>\<open>GetMethod\<close> returns the first method of the given name in the list
  made of the methods of the class in declaration order followed by those of its
  ancestors, whatever the numbers of parameters. \<^verbatim>\<open>HasMethod\<close> with \<open>k\<close> arguments holds
  exactly when that first method has \<open>k\<close> formal parameters. For a class \<open>B\<close> with
  parent \<open>A\<close>: a method of that name declared in \<open>B\<close> is the one found, and
  \<^verbatim>\<open>HasMethod\<close> looks at its parameters only, even when \<open>A\<close> has a method of the same
  name with another number of parameters; if \<open>B\<close> declares none, the answer is that
  of \<open>A\<close>.
\<close>

theorem Method_resolution_first_match_by_name:
  "GetMethod cls nm = first_on_chain cls nm \<and>
   (HasMethod cls nm k \<longleftrightarrow>
      (\<exists>m. first_on_chain cls nm = Some m \<and> length (formal_params m) = k)) \<and>
   (find (\<lambda>m. name m = nm) ms_B = Some m_B \<longrightarrow>
      GetMethod (Class name_B ms_B (Some cls_A)) nm = Some m_B \<and>
      (HasMethod (Class name_B ms_B (Some cls_A)) nm k \<longleftrightarrow> length (formal_params m_B) = k)) \<and>
   (find (\<lambda>m. name m = nm) ms_B = None \<longrightarrow>
      GetMethod (Class name_B ms_B (Some cls_A)) nm = GetMethod cls_A nm \<and>
      (HasMethod (Class name_B ms_B (Some cls_A)) nm k \<longleftrightarrow> HasMethod cls_A nm k))"
proof (intro conjI impI)
  show "GetMethod cls nm = first_on_chain cls nm" by (rule GetMethod_first_on_chain)
  show "HasMethod cls nm k \<longleftrightarrow>
      (\<exists>m. first_on_chain cls nm = Some m \<and> length (formal_params m) = k)"
    by (auto simp: HasMethod_def GetMethod_first_on_chain split: option.splits)
next
  assume "find (\<lambda>m. name m = nm) ms_B = Some m_B"
  then show "GetMethod (Class name_B ms_B (Some cls_A)) nm = Some m_B"
    and "HasMethod (Class name_B ms_B (Some cls_A)) nm k \<longleftrightarrow> length (formal_params m_B) = k"
    by (simp_all add: HasMethod_def GetMethod_scan_find)
next
  assume "find (\<lambda>m. name m = nm) ms_B = None"
  then show "GetMethod (Class name_B ms_B (Some cls_A)) nm = GetMethod cls_A nm"
    and "HasMethod (Class name_B ms_B (Some cls_A)) nm k \<longleftrightarrow> HasMethod cls_A nm k"
    by (simp_all add: HasMethod_def GetMethod_scan_find)
qed

theorem Method_resolution_first_match_by_name_witness:
  "HasMethod class_B ''m'' 2 \<and> \<not> HasMethod class_B ''m'' 1 \<and> HasMethod class_A ''m'' 1 \<and>
   HasMethod class_B ''only_a'' 0 \<and>
   GetMethod class_B ''only_a'' = GetMethod class_A ''only_a'' \<and>
   GetMethod class_B ''m'' =
     Some \<lparr>name = ''m'', formal_params = [''x'', ''y''], body = MethodBody None_stmt\<rparr>"
  using Method_resolution_first_match_by_name
    [of class_B "''m''" 2
        "[\<lparr>name = ''m'', formal_params = [''x'', ''y''], body = MethodBody None_stmt\<rparr>]"
        "\<lparr>name = ''m'', formal_params = [''x'', ''y''], body = MethodBody None_stmt\<rparr>"
        "''B''" class_A]
    Method_resolution_first_match_by_name
    [of class_B "''only_a''" 0
        "[\<lparr>name = ''m'', formal_params = [''x'', ''y''], body = MethodBody None_stmt\<rparr>]"
        _ "''B''" class_A]
  by (simp add: class_B_def class_A_def HasMethod_def first_on_chain_def)

subsection \<open>\<^verbatim>\<open>Return\<close> and \<^verbatim>\<open>MethodBody\<close>\<close>

lemma Compound_loop_append:
  "Compound_loop ex pre st = Some (Normal u, st0) \<Longrightarrow>
     Compound_loop ex (pre @ rest) st = Compound_loop ex rest st0"
proof (induction pre arbitrary: st u)
  case Nil
  then show ?case by simp
next
  case (Cons a pre)
  from Cons.prems obtain v st1 where
    a: "ex a st = Some (Normal v, st1)" and rest: "Compound_loop ex pre st1 = Some (Normal u, st0)"
    by (auto simp: after_def split: option.splits outcome.splits prod.splits)
  from Cons.IH[OF rest] a show ?case by (simp add: after_def)
qed

lemma ExecuteArgs_unwind:
  "ExecuteArgs ex pre st = Some (Normal vs, st0) \<Longrightarrow> ex s st0 = Some (Unwind v, st1) \<Longrightarrow>
     ExecuteArgs ex (pre @ s # post) st = Some (Unwind v, st1)"
proof (induction pre arbitrary: st vs)
  case Nil
  then show ?case by (simp add: after_def)
next
  case (Cons a pre)
  from Cons.prems(1) obtain x st2 xs where
    a: "ex a st = Some (Normal x, st2)" and rest: "ExecuteArgs ex pre st2 = Some (Normal xs, st0)"
    by (auto simp: after_def split: option.splits outcome.splits prod.splits)
  from Cons.IH[OF rest Cons.prems(2)] a show ?case by (simp add: after_def)
qed

lemma Print_loop_append:
  "Print_loop ex pr pre st = Some (Normal u, (cl0, w0)) \<Longrightarrow> rest \<noteq> [] \<Longrightarrow>
     Print_loop ex pr (pre @ rest) st =
       Print_loop ex pr rest (cl0, if pre = [] then w0 else os_write '' '' w0)"
proof (induction pre arbitrary: st)
  case Nil
  then show ?case by simp
next
  case (Cons a pre)
  from Cons.prems(1) obtain x cl1 w1 where a: "ex a st = Some (Normal x, (cl1, w1))"
    by (auto simp: after_def split: option.splits outcome.splits prod.splits)
  let ?p = "case x of
              Empty \<Rightarrow> Some (Normal ''None'', (cl1, w1))
            | Holder p obj \<Rightarrow>
                if dangling w1 p then Some (Error undefined_behaviour, (cl1, w1))
                else with_closure cl1 (pr p obj w1)"
  from Cons.prems(1) a obtain t cl2 w2 where p: "?p = Some (Normal t, (cl2, w2))"
    by (auto simp: after_def split: option.splits outcome.splits prod.splits)
  from Cons.prems(1) a p have rest:
    "Print_loop ex pr pre (cl2, if pre \<noteq> [] then os_write '' '' (os_write t w2) else os_write t w2)
       = Some (Normal u, (cl0, w0))"
    by (simp add: after_def)
  show ?case
  proof (cases "pre = []")
    case True
    with rest have "cl0 = cl2" "w0 = os_write t w2" by simp_all
    with a p True Cons.prems(2) show ?thesis by (simp add: after_def)
  next
    case False
    with rest have "Print_loop ex pr pre (cl2, os_write '' '' (os_write t w2)) = Some (Normal u, (cl0, w0))"
      by simp
    from Cons.IH[OF this Cons.prems(2)] a p False show ?thesis by (simp add: after_def)
  qed
qed

text \<open>
  \<^bold>\<open>Claim C9\<close>. \<^verbatim>\<open>Return\<close> executes its statement and, when that returns \<open>v\<close>, throws
  \<open>v\<close>. \<^verbatim>\<open>MethodBody\<close> returns the thrown reference when its body throws one, and the
  empty reference when its body returns. Every other node passes a thrown reference on
  unchanged, with the world of the throw, from each execution that it starts:

  \<^item> \<^verbatim>\<open>Compound\<close>, from any of its statements, after the statements before it have
    returned (the statements after it are not executed);
  \<^item> \<^verbatim>\<open>IfElse\<close>, from its condition and from either branch;
  \<^item> \<^verbatim>\<open>Assignment\<close>, \<^verbatim>\<open>Return\<close>, \<^verbatim>\<open>Stringify\<close>, \<^verbatim>\<open>Not\<close> and
    \<^verbatim>\<open>FieldAssignment\<close>, from their statement; \<^verbatim>\<open>And\<close>, \<^verbatim>\<open>Or\<close>, \<^verbatim>\<open>Add\<close>, \<^verbatim>\<open>Sub\<close>,
    \<^verbatim>\<open>Mult\<close>, \<^verbatim>\<open>Div\<close> and \<^verbatim>\<open>Comparison\<close>, from either operand;
  \<^item> \<^verbatim>\<open>MethodCall\<close>, from its object and from any of its arguments; \<^verbatim>\<open>NewInstance\<close>
    and \<^verbatim>\<open>Print\<close>, from any of their arguments;
  \<^item> \<^verbatim>\<open>ClassInstance::Call\<close>, from the body of the method, when that body is not a
    \<^verbatim>\<open>MethodBody\<close>: the closure of the call is destroyed and the reference leaves the
    call; and from there \<^verbatim>\<open>MethodCall\<close>, \<^verbatim>\<open>NewInstance\<close> (\<^verbatim>\<open>__init__\<close>), \<^verbatim>\<open>Add\<close>
    (\<^verbatim>\<open>__add__\<close>), the six comparators and \<^verbatim>\<open>Comparison\<close> (\<^verbatim>\<open>__eq__\<close>,
    \<^verbatim>\<open>__lt__\<close>), and \<^verbatim>\<open>ClassInstance::Print\<close> (\<^verbatim>\<open>__str__\<close>) with \<^verbatim>\<open>Print\<close> and
    \<^verbatim>\<open>Stringify\<close> that call it.

  The nodes \<^verbatim>\<open>ValueStatement\<close>, \<^verbatim>\<open>VariableValue\<close>, \<^verbatim>\<open>None\<close> and \<^verbatim>\<open>ClassDefinition\<close>
  start no execution. So \<^verbatim>\<open>MethodBody\<close> is the only node that turns a thrown reference
  into a result.
\<close>

theorem Return_unwinds_to_MethodBody:
  "(Execute n P e st = Some (Normal v, st1) \<longrightarrow>
      Execute (Suc n) P (Return e) st = Some (Unwind v, st1)) \<and>
   (Execute n P b st = Some (Unwind v, st1) \<longrightarrow>
      Execute (Suc n) P (MethodBody b) st = Some (Normal v, st1)) \<and>
   (Execute n P b st = Some (Normal v, st1) \<longrightarrow>
      Execute (Suc n) P (MethodBody b) st = Some (Normal Empty, st1)) \<and>
   (Execute (Suc n) P (Compound pre) st = Some (Normal u, st0) \<longrightarrow>
    Execute n P s st0 = Some (Unwind v, st1) \<longrightarrow>
      Execute (Suc n) P (Compound (pre @ s # post)) st = Some (Unwind v, st1)) \<and>
   (Execute n P cond st = Some (Normal t, st0) \<longrightarrow> IsTrue t \<longrightarrow>
    Execute n P s st0 = Some (Unwind v, st1) \<longrightarrow>
      Execute (Suc n) P (IfElse cond s else_body) st = Some (Unwind v, st1)) \<and>
   (Execute n P cond st = Some (Normal t, st0) \<longrightarrow> \<not> IsTrue t \<longrightarrow>
    Execute n P s st0 = Some (Unwind v, st1) \<longrightarrow>
      Execute (Suc n) P (IfElse cond if_body (Some s)) st = Some (Unwind v, st1)) \<and>
   (Execute n P s st = Some (Unwind v, st1) \<longrightarrow>
      Execute (Suc n) P (IfElse s if_body else_body) st = Some (Unwind v, st1) \<and>
      Execute (Suc n) P (Assignment var s) st = Some (Unwind v, st1) \<and>
      Execute (Suc n) P (Return s) st = Some (Unwind v, st1) \<and>
      Execute (Suc n) P (Print (s # post)) st = Some (Unwind v, st1) \<and>
      Execute (Suc n) P (MethodCall s method post) st = Some (Unwind v, st1) \<and>
      Execute (Suc n) P (Stringify s) st = Some (Unwind v, st1) \<and>
      Execute (Suc n) P (Not_stmt s) st = Some (Unwind v, st1) \<and>
      Execute (Suc n) P (And s r) st = Some (Unwind v, st1) \<and>
      Execute (Suc n) P (Or s r) st = Some (Unwind v, st1) \<and>
      Execute (Suc n) P (Add s r) st = Some (Unwind v, st1) \<and>
      Execute (Suc n) P (Sub s r) st = Some (Unwind v, st1) \<and>
      Execute (Suc n) P (Mult s r) st = Some (Unwind v, st1) \<and>
      Execute (Suc n) P (Div s r) st = Some (Unwind v, st1) \<and>
      Execute (Suc n) P (Comparison cmp s r) st = Some (Unwind v, st1)) \<and>
   (Execute n P l st = Some (Normal t, st0) \<longrightarrow> Execute n P s st0 = Some (Unwind v, st1) \<longrightarrow>
      Execute (Suc n) P (Add l s) st = Some (Unwind v, st1) \<and>
      Execute (Suc n) P (Sub l s) st = Some (Unwind v, st1) \<and>
      Execute (Suc n) P (Mult l s) st = Some (Unwind v, st1) \<and>
      Execute (Suc n) P (Div l s) st = Some (Unwind v, st1) \<and>
      Execute (Suc n) P (Comparison cmp l s) st = Some (Unwind v, st1) \<and>
      (IsTrue t \<longrightarrow> Execute (Suc n) P (And l s) st = Some (Unwind v, st1)) \<and>
      (\<not> IsTrue t \<longrightarrow> Execute (Suc n) P (Or l s) st = Some (Unwind v, st1)) \<and>
      (TryAs_ClassInstance t \<noteq> None \<longrightarrow>
         Execute (Suc n) P (MethodCall l method (s # post)) st = Some (Unwind v, st1))) \<and>
   (Execute (Suc k) P (VariableValue object) st = Some (Normal t, st0) \<longrightarrow>
    TryAs_ClassInstance t \<noteq> None \<longrightarrow> Execute n P s st = Some (Unwind v, st1) \<longrightarrow>
      Execute (Suc n) P (FieldAssignment object field_name s) st = Some (Unwind v, st1)) \<and>
   (Execute n P l st = Some (Normal t, st0) \<longrightarrow> TryAs_ClassInstance t \<noteq> None \<longrightarrow>
    ExecuteArgs (Execute n P) pre st0 = Some (Normal vs, st2) \<longrightarrow>
    Execute n P s st2 = Some (Unwind v, st1) \<longrightarrow>
      Execute (Suc n) P (MethodCall l method (pre @ s # post)) st = Some (Unwind v, st1)) \<and>
   (class_at P c = Some cls \<longrightarrow> HasMethod cls ''__init__'' (length (pre @ s # post)) \<longrightarrow>
    ExecuteArgs (Execute n P) pre st = Some (Normal vs, st2) \<longrightarrow>
    Execute n P s st2 = Some (Unwind v, st1) \<longrightarrow>
      Execute (Suc n) P (NewInstance a c (pre @ s # post)) st = Some (Unwind v, st1)) \<and>
   (Print_loop (Execute n P) (Print_virtual n P) pre st = Some (Normal x, (closure0, w0)) \<longrightarrow>
    Execute n P s (closure0, if pre = [] then w0 else os_write '' '' w0) = Some (Unwind v, st1) \<longrightarrow>
      Execute (Suc n) P (Print (pre @ s # post)) st = Some (Unwind v, st1)) \<and>
   (Print_loop (Execute n P) (Print_virtual n P) pre st = Some (Normal x, (closure0, w0)) \<longrightarrow>
    Execute n P s (closure0, if pre = [] then w0 else os_write '' '' w0) =
      Some (Normal (Holder p obj), (closure1, w1)) \<longrightarrow>
    \<not> dangling w1 p \<longrightarrow> Print_virtual n P p obj w1 = Some (Unwind v, w2) \<longrightarrow>
      Execute (Suc n) P (Print (pre @ s # post)) st = Some (Unwind v, (closure1, w2))) \<and>
   (Execute n P s st = Some (Normal (Holder p obj), (closure1, w1)) \<longrightarrow>
    \<not> dangling w1 p \<longrightarrow> Print_virtual n P p obj w1 = Some (Unwind v, w2) \<longrightarrow>
      Execute (Suc n) P (Stringify s) st = Some (Unwind v, (closure1, w2))) \<and>
   (class_at P c = Some cls \<longrightarrow> HasMethod cls method (length actual_args) \<longrightarrow>
    GetMethod cls method = Some m \<longrightarrow>
    Execute n P (body m)
        (emplace ''self'' (Holder this (ClassInstance c))
           (emplace_params (formal_params m) actual_args Map.empty),
         retain_vars (formal_params m)
           (emplace ''self'' (Holder this (ClassInstance c))
              (emplace_params (formal_params m) actual_args Map.empty)) w) =
      Some (Unwind v, (closure1, w1)) \<longrightarrow>
      Call (Execute n P) P this c method actual_args w =
        Some (Unwind v, release_vars (formal_params m @ assigned P (body m)) closure1 w1)) \<and>
   (Execute n P l st = Some (Normal (Holder this (ClassInstance c)), st0) \<longrightarrow>
    ExecuteArgs (Execute n P) args st0 = Some (Normal params, (closure1, w1)) \<longrightarrow>
    Call (Execute n P) P this c method params w1 = Some (Unwind v, w2) \<longrightarrow>
      Execute (Suc n) P (MethodCall l method args) st = Some (Unwind v, (closure1, w2))) \<and>
   (class_at P c = Some cls \<longrightarrow> HasMethod cls ''__init__'' (length args) \<longrightarrow>
    ExecuteArgs (Execute n P) args st = Some (Normal params, (closure1, w1)) \<longrightarrow>
    Call (Execute n P) P (Member a) c ''__init__'' params w1 = Some (Unwind v, w2) \<longrightarrow>
      Execute (Suc n) P (NewInstance a c args) st = Some (Unwind v, (closure1, w2))) \<and>
   (Execute n P l st = Some (Normal (Holder this (ClassInstance c)), st0) \<longrightarrow>
    Execute n P r st0 = Some (Normal rhs, (closure1, w1)) \<longrightarrow>
    Call (Execute n P) P this c ''__add__'' [rhs] w1 = Some (Unwind v, w2) \<longrightarrow>
      Execute (Suc n) P (Add l r) st = Some (Unwind v, (closure1, w2))) \<and>
   (Execute n P l st = Some (Normal lhs, st0) \<longrightarrow>
    Execute n P r st0 = Some (Normal rhs, (closure1, w1)) \<longrightarrow>
    comparator cmp (Execute n P) P lhs rhs w1 = Some (Unwind v, w2) \<longrightarrow>
      Execute (Suc n) P (Comparison cmp l r) st = Some (Unwind v, (closure1, w2))) \<and>
   (class_at P c = Some cls \<longrightarrow> HasMethod cls ''__eq__'' 1 \<longrightarrow>
    Call (Execute n P) P this c ''__eq__'' [rhs] w = Some (Unwind v, w2) \<longrightarrow>
      comparator cmp_Equal (Execute n P) P (Holder this (ClassInstance c)) rhs w = Some (Unwind v, w2) \<and>
      comparator cmp_NotEqual (Execute n P) P (Holder this (ClassInstance c)) rhs w = Some (Unwind v, w2)) \<and>
   (class_at P c = Some cls \<longrightarrow> HasMethod cls ''__lt__'' 1 \<longrightarrow>
    Call (Execute n P) P this c ''__lt__'' [rhs] w = Some (Unwind v, w2) \<longrightarrow>
      comparator cmp_Less (Execute n P) P (Holder this (ClassInstance c)) rhs w = Some (Unwind v, w2) \<and>
      comparator cmp_GreaterOrEqual (Execute n P) P (Holder this (ClassInstance c)) rhs w =
        Some (Unwind v, w2) \<and>
      comparator cmp_LessOrEqual (Execute n P) P (Holder this (ClassInstance c)) rhs w =
        Some (Unwind v, w2) \<and>
      comparator cmp_Greater (Execute n P) P (Holder this (ClassInstance c)) rhs w = Some (Unwind v, w2)) \<and>
   (comparator cmp_Less (Execute n P) P lhs rhs w = Some (Normal False, w1) \<longrightarrow>
    comparator cmp_Equal (Execute n P) P lhs rhs w1 = Some (Unwind v, w2) \<longrightarrow>
      comparator cmp_LessOrEqual (Execute n P) P lhs rhs w = Some (Unwind v, w2) \<and>
      comparator cmp_Greater (Execute n P) P lhs rhs w = Some (Unwind v, w2)) \<and>
   (class_at P c = Some cls \<longrightarrow> HasMethod cls ''__str__'' 0 \<longrightarrow>
    Call (Execute n P) P this c ''__str__'' [] w = Some (Unwind v, w2) \<longrightarrow>
      Print_virtual (Suc n) P this (ClassInstance c) w = Some (Unwind v, w2)) \<and>
   (class_at P c = Some cls \<longrightarrow> HasMethod cls ''__str__'' 0 \<longrightarrow>
    Call (Execute n P) P this c ''__str__'' [] w = Some (Normal (Holder p obj), w1) \<longrightarrow>
    Print_virtual n P p obj w1 = Some (Unwind v, w2) \<longrightarrow>
      Print_virtual (Suc n) P this (ClassInstance c) w = Some (Unwind v, w2))"
proof -
  have c1: "(Execute n P e st = Some (Normal v, st1) \<longrightarrow>
        Execute (Suc n) P (Return e) st = Some (Unwind v, st1))"
    by (simp add: after_def)
  have c2: "(Execute n P b st = Some (Unwind v, st1) \<longrightarrow>
        Execute (Suc n) P (MethodBody b) st = Some (Normal v, st1))"
    by simp
  have c3: "(Execute n P b st = Some (Normal v, st1) \<longrightarrow>
        Execute (Suc n) P (MethodBody b) st = Some (Normal Empty, st1))"
    by simp
  have c4: "(Execute (Suc n) P (Compound pre) st = Some (Normal u, st0) \<longrightarrow>
      Execute n P s st0 = Some (Unwind v, st1) \<longrightarrow>
        Execute (Suc n) P (Compound (pre @ s # post)) st = Some (Unwind v, st1))"
    by (simp add: Compound_loop_append after_def)
  have c5: "(Execute n P cond st = Some (Normal t, st0) \<longrightarrow> IsTrue t \<longrightarrow>
      Execute n P s st0 = Some (Unwind v, st1) \<longrightarrow>
        Execute (Suc n) P (IfElse cond s else_body) st = Some (Unwind v, st1))"
    by (simp add: after_def)
  have c6: "(Execute n P cond st = Some (Normal t, st0) \<longrightarrow> \<not> IsTrue t \<longrightarrow>
      Execute n P s st0 = Some (Unwind v, st1) \<longrightarrow>
        Execute (Suc n) P (IfElse cond if_body (Some s)) st = Some (Unwind v, st1))"
    by (simp add: after_def)
  have c7: "(Execute n P s st = Some (Unwind v, st1) \<longrightarrow>
        Execute (Suc n) P (IfElse s if_body else_body) st = Some (Unwind v, st1) \<and>
        Execute (Suc n) P (Assignment var s) st = Some (Unwind v, st1) \<and>
        Execute (Suc n) P (Return s) st = Some (Unwind v, st1) \<and>
        Execute (Suc n) P (Print (s # post)) st = Some (Unwind v, st1) \<and>
        Execute (Suc n) P (MethodCall s method post) st = Some (Unwind v, st1) \<and>
        Execute (Suc n) P (Stringify s) st = Some (Unwind v, st1) \<and>
        Execute (Suc n) P (Not_stmt s) st = Some (Unwind v, st1) \<and>
        Execute (Suc n) P (And s r) st = Some (Unwind v, st1) \<and>
        Execute (Suc n) P (Or s r) st = Some (Unwind v, st1) \<and>
        Execute (Suc n) P (Add s r) st = Some (Unwind v, st1) \<and>
        Execute (Suc n) P (Sub s r) st = Some (Unwind v, st1) \<and>
        Execute (Suc n) P (Mult s r) st = Some (Unwind v, st1) \<and>
        Execute (Suc n) P (Div s r) st = Some (Unwind v, st1) \<and>
        Execute (Suc n) P (Comparison cmp s r) st = Some (Unwind v, st1))"
    by (simp add: after_def)
  have c8: "(Execute n P l st = Some (Normal t, st0) \<longrightarrow> Execute n P s st0 = Some (Unwind v, st1) \<longrightarrow>
        Execute (Suc n) P (Add l s) st = Some (Unwind v, st1) \<and>
        Execute (Suc n) P (Sub l s) st = Some (Unwind v, st1) \<and>
        Execute (Suc n) P (Mult l s) st = Some (Unwind v, st1) \<and>
        Execute (Suc n) P (Div l s) st = Some (Unwind v, st1) \<and>
        Execute (Suc n) P (Comparison cmp l s) st = Some (Unwind v, st1) \<and>
        (IsTrue t \<longrightarrow> Execute (Suc n) P (And l s) st = Some (Unwind v, st1)) \<and>
        (\<not> IsTrue t \<longrightarrow> Execute (Suc n) P (Or l s) st = Some (Unwind v, st1)) \<and>
        (TryAs_ClassInstance t \<noteq> None \<longrightarrow>
           Execute (Suc n) P (MethodCall l method (s # post)) st = Some (Unwind v, st1)))"
    by (cases t rule: TryAs_ClassInstance.cases) (simp_all add: after_def)
  have c9: "(Execute (Suc k) P (VariableValue object) st = Some (Normal t, st0) \<longrightarrow>
      TryAs_ClassInstance t \<noteq> None \<longrightarrow> Execute n P s st = Some (Unwind v, st1) \<longrightarrow>
        Execute (Suc n) P (FieldAssignment object field_name s) st = Some (Unwind v, st1))"
    by (cases t rule: TryAs_ClassInstance.cases; cases st) (auto simp: after_def)
  have c10: "(Execute n P l st = Some (Normal t, st0) \<longrightarrow> TryAs_ClassInstance t \<noteq> None \<longrightarrow>
      ExecuteArgs (Execute n P) pre st0 = Some (Normal vs, st2) \<longrightarrow>
      Execute n P s st2 = Some (Unwind v, st1) \<longrightarrow>
        Execute (Suc n) P (MethodCall l method (pre @ s # post)) st = Some (Unwind v, st1))"
    by (cases t rule: TryAs_ClassInstance.cases) (simp_all add: after_def ExecuteArgs_unwind)
  have c11: "(class_at P c = Some cls \<longrightarrow> HasMethod cls ''__init__'' (length (pre @ s # post)) \<longrightarrow>
      ExecuteArgs (Execute n P) pre st = Some (Normal vs, st2) \<longrightarrow>
      Execute n P s st2 = Some (Unwind v, st1) \<longrightarrow>
        Execute (Suc n) P (NewInstance a c (pre @ s # post)) st = Some (Unwind v, st1))"
    by (simp add: after_def ExecuteArgs_unwind)
  have c12: "(Print_loop (Execute n P) (Print_virtual n P) pre st = Some (Normal x, (closure0, w0)) \<longrightarrow>
      Execute n P s (closure0, if pre = [] then w0 else os_write '' '' w0) = Some (Unwind v, st1) \<longrightarrow>
        Execute (Suc n) P (Print (pre @ s # post)) st = Some (Unwind v, st1))"
    by (simp add: Print_loop_append after_def)
  have c13: "(Print_loop (Execute n P) (Print_virtual n P) pre st = Some (Normal x, (closure0, w0)) \<longrightarrow>
      Execute n P s (closure0, if pre = [] then w0 else os_write '' '' w0) =
        Some (Normal (Holder p obj), (closure1, w1)) \<longrightarrow>
      \<not> dangling w1 p \<longrightarrow> Print_virtual n P p obj w1 = Some (Unwind v, w2) \<longrightarrow>
        Execute (Suc n) P (Print (pre @ s # post)) st = Some (Unwind v, (closure1, w2)))"
    by (simp add: Print_loop_append after_def with_closure_def)
  have c14: "(Execute n P s st = Some (Normal (Holder p obj), (closure1, w1)) \<longrightarrow>
      \<not> dangling w1 p \<longrightarrow> Print_virtual n P p obj w1 = Some (Unwind v, w2) \<longrightarrow>
        Execute (Suc n) P (Stringify s) st = Some (Unwind v, (closure1, w2)))"
    by (simp add: after_def with_closure_def)
  have c15: "(class_at P c = Some cls \<longrightarrow> HasMethod cls method (length actual_args) \<longrightarrow>
      GetMethod cls method = Some m \<longrightarrow>
      Execute n P (body m)
          (emplace ''self'' (Holder this (ClassInstance c))
             (emplace_params (formal_params m) actual_args Map.empty),
           retain_vars (formal_params m)
             (emplace ''self'' (Holder this (ClassInstance c))
                (emplace_params (formal_params m) actual_args Map.empty)) w) =
        Some (Unwind v, (closure1, w1)) \<longrightarrow>
        Call (Execute n P) P this c method actual_args w =
          Some (Unwind v, release_vars (formal_params m @ assigned P (body m)) closure1 w1))"
    by (simp add: Call_def Let_def)
  have c16: "(Execute n P l st = Some (Normal (Holder this (ClassInstance c)), st0) \<longrightarrow>
      ExecuteArgs (Execute n P) args st0 = Some (Normal params, (closure1, w1)) \<longrightarrow>
      Call (Execute n P) P this c method params w1 = Some (Unwind v, w2) \<longrightarrow>
        Execute (Suc n) P (MethodCall l method args) st = Some (Unwind v, (closure1, w2)))"
    by (simp add: after_def with_closure_def)
  have c17: "(class_at P c = Some cls \<longrightarrow> HasMethod cls ''__init__'' (length args) \<longrightarrow>
      ExecuteArgs (Execute n P) args st = Some (Normal params, (closure1, w1)) \<longrightarrow>
      Call (Execute n P) P (Member a) c ''__init__'' params w1 = Some (Unwind v, w2) \<longrightarrow>
        Execute (Suc n) P (NewInstance a c args) st = Some (Unwind v, (closure1, w2)))"
    by (simp add: after_def with_closure_def)
  have c18: "(Execute n P l st = Some (Normal (Holder this (ClassInstance c)), st0) \<longrightarrow>
      Execute n P r st0 = Some (Normal rhs, (closure1, w1)) \<longrightarrow>
      Call (Execute n P) P this c ''__add__'' [rhs] w1 = Some (Unwind v, w2) \<longrightarrow>
        Execute (Suc n) P (Add l r) st = Some (Unwind v, (closure1, w2)))"
    by (simp add: after_def with_closure_def)
  have c19: "(Execute n P l st = Some (Normal lhs, st0) \<longrightarrow>
      Execute n P r st0 = Some (Normal rhs, (closure1, w1)) \<longrightarrow>
      comparator cmp (Execute n P) P lhs rhs w1 = Some (Unwind v, w2) \<longrightarrow>
        Execute (Suc n) P (Comparison cmp l r) st = Some (Unwind v, (closure1, w2)))"
    by (simp add: after_def with_closure_def)
  have c20: "(class_at P c = Some cls \<longrightarrow> HasMethod cls ''__eq__'' 1 \<longrightarrow>
      Call (Execute n P) P this c ''__eq__'' [rhs] w = Some (Unwind v, w2) \<longrightarrow>
        comparator cmp_Equal (Execute n P) P (Holder this (ClassInstance c)) rhs w = Some (Unwind v, w2) \<and>
        comparator cmp_NotEqual (Execute n P) P (Holder this (ClassInstance c)) rhs w = Some (Unwind v, w2))"
    by (cases rhs) (simp_all add: Equal_def NotEqual_def COMPARE_FUNC_def after_def)
  have c21: "(class_at P c = Some cls \<longrightarrow> HasMethod cls ''__lt__'' 1 \<longrightarrow>
      Call (Execute n P) P this c ''__lt__'' [rhs] w = Some (Unwind v, w2) \<longrightarrow>
        comparator cmp_Less (Execute n P) P (Holder this (ClassInstance c)) rhs w = Some (Unwind v, w2) \<and>
        comparator cmp_GreaterOrEqual (Execute n P) P (Holder this (ClassInstance c)) rhs w =
          Some (Unwind v, w2) \<and>
        comparator cmp_LessOrEqual (Execute n P) P (Holder this (ClassInstance c)) rhs w =
          Some (Unwind v, w2) \<and>
        comparator cmp_Greater (Execute n P) P (Holder this (ClassInstance c)) rhs w = Some (Unwind v, w2))"
    by (cases rhs)
       (simp_all add: Less_def GreaterOrEqual_def LessOrEqual_def Greater_def COMPARE_FUNC_def
          after_def)
  have c22: "(comparator cmp_Less (Execute n P) P lhs rhs w = Some (Normal False, w1) \<longrightarrow>
      comparator cmp_Equal (Execute n P) P lhs rhs w1 = Some (Unwind v, w2) \<longrightarrow>
        comparator cmp_LessOrEqual (Execute n P) P lhs rhs w = Some (Unwind v, w2) \<and>
        comparator cmp_Greater (Execute n P) P lhs rhs w = Some (Unwind v, w2))"
    by (simp add: LessOrEqual_def Greater_def after_def)
  have c23: "(class_at P c = Some cls \<longrightarrow> HasMethod cls ''__str__'' 0 \<longrightarrow>
      Call (Execute n P) P this c ''__str__'' [] w = Some (Unwind v, w2) \<longrightarrow>
        Print_virtual (Suc n) P this (ClassInstance c) w = Some (Unwind v, w2))"
    by (simp add: Print_object_def after_def)
  have c24: "(class_at P c = Some cls \<longrightarrow> HasMethod cls ''__str__'' 0 \<longrightarrow>
      Call (Execute n P) P this c ''__str__'' [] w = Some (Normal (Holder p obj), w1) \<longrightarrow>
      Print_virtual n P p obj w1 = Some (Unwind v, w2) \<longrightarrow>
        Print_virtual (Suc n) P this (ClassInstance c) w = Some (Unwind v, w2))"
    by (simp add: Print_object_def after_def)
  show ?thesis
    by (intro conjI c1 c2 c3 c4 c5 c6 c7 c8 c9 c10 c11 c12 c13 c14 c15 c16 c17 c18 c19 c20 c21 c22 c23 c24)
qed

theorem Return_unwinds_to_MethodBody_witness:
  "Execute (Suc 1) no_classes (Return (VariableValue [''n'']))
       ([''n'' \<mapsto> Holder (Member 9) (Number 5)], world0) =
     Some (Unwind (Holder (Member 9) (Number 5)),
           ([''n'' \<mapsto> Holder (Member 9) (Number 5)], world0)) \<and>
   Execute (Suc (Suc 1)) no_classes (MethodBody (Return (VariableValue [''n''])))
       ([''n'' \<mapsto> Holder (Member 9) (Number 5)], world0) =
     Some (Normal (Holder (Member 9) (Number 5)),
           ([''n'' \<mapsto> Holder (Member 9) (Number 5)], world0)) \<and>
   Execute 5 no_classes body_f ([''n'' \<mapsto> Holder (Member 9) (Number 5)], world0) =
     Some (Normal (Holder (Member 9) (Number 5)), ([''n'' \<mapsto> Holder (Member 9) (Number 5)], world0)) \<and>
   Execute 5 no_classes body_f ([''n'' \<mapsto> Holder (Member 9) (Number 0)], world0) =
     Some (Normal (Holder (Member 1) (Number 42)), ([''n'' \<mapsto> Holder (Member 9) (Number 0)], world0)) \<and>
   Execute 5 no_classes (MethodBody (Compound [Assignment ''x'' (NumericConst 1 42)]))
       (Map.empty, world0) =
     Some (Normal Empty, ([''x'' \<mapsto> Holder (Member 1) (Number 42)], world0)) \<and>
   Execute (Suc 2) prog_R (NewInstance 7 0 [Return (NumericConst 1 5)]) (Map.empty, world0) =
     Some (Unwind (Holder (Member 1) (Number 5)), (Map.empty, world0)) \<and>
   Call (Execute 2 prog_R) prog_R (Member 7) 0 ''leave'' [] world0 =
     Some (Unwind (Holder (Member 1) (Number 5)), world0) \<and>
   Execute (Suc 2) prog_R (MethodCall (VariableValue [''o'']) ''leave'' [])
       ([''o'' \<mapsto> Holder (Member 7) (ClassInstance 0)], world0) =
     Some (Unwind (Holder (Member 1) (Number 5)),
           ([''o'' \<mapsto> Holder (Member 7) (ClassInstance 0)], world0)) \<and>
   Execute (Suc 2) no_classes (Print [StringConst 2 ''a'', Return (NumericConst 1 5)])
       (Map.empty, world0) =
     Some (Unwind (Holder (Member 1) (Number 5)), (Map.empty, world0\<lparr>out_text := ''a ''\<rparr>)) \<and>
   Execute (Suc 2) prog_R (NewInstance 7 0 [NumericConst 1 5]) (Map.empty, world0) =
     Some (Unwind (Holder (Member 1) (Number 5)), (Map.empty, world0)) \<and>
   Execute (Suc 3) prog_R (Print [StringConst 2 ''a'', VariableValue [''o'']])
       ([''o'' \<mapsto> Holder (Member 7) (ClassInstance 0)], world0) =
     Some (Unwind (Holder (Member 2) (String ''s'')),
           ([''o'' \<mapsto> Holder (Member 7) (ClassInstance 0)], world0\<lparr>out_text := ''a ''\<rparr>)) \<and>
   Execute (Suc 3) prog_R (Stringify (VariableValue [''o'']))
       ([''o'' \<mapsto> Holder (Member 7) (ClassInstance 0)], world0) =
     Some (Unwind (Holder (Member 2) (String ''s'')),
           ([''o'' \<mapsto> Holder (Member 7) (ClassInstance 0)], world0)) \<and>
   Execute (Suc 2) prog_R (Add (VariableValue [''o'']) (NumericConst 1 5))
       ([''o'' \<mapsto> Holder (Member 7) (ClassInstance 0)], world0) =
     Some (Unwind (Holder (Member 1) (Number 5)),
           ([''o'' \<mapsto> Holder (Member 7) (ClassInstance 0)], world0)) \<and>
   Execute (Suc 2) prog_R (Comparison cmp_NotEqual (VariableValue [''o'']) (NumericConst 1 5))
       ([''o'' \<mapsto> Holder (Member 7) (ClassInstance 0)], world0) =
     Some (Unwind (Holder (Member 1) (Number 5)),
           ([''o'' \<mapsto> Holder (Member 7) (ClassInstance 0)], world0))"
proof -
  note c1 = Return_unwinds_to_MethodBody [THEN conjunct1, rule_format]
  note c2 = Return_unwinds_to_MethodBody [THEN conjunct2, THEN conjunct1, rule_format]
  note c11 = Return_unwinds_to_MethodBody [THEN conjunct2, THEN conjunct2, THEN conjunct2,
      THEN conjunct2, THEN conjunct2, THEN conjunct2, THEN conjunct2, THEN conjunct2,
      THEN conjunct2, THEN conjunct2, THEN conjunct1, rule_format]
  note c12 = Return_unwinds_to_MethodBody [THEN conjunct2, THEN conjunct2, THEN conjunct2,
      THEN conjunct2, THEN conjunct2, THEN conjunct2, THEN conjunct2, THEN conjunct2,
      THEN conjunct2, THEN conjunct2, THEN conjunct2, THEN conjunct1, rule_format]
  note c13 = Return_unwinds_to_MethodBody [THEN conjunct2, THEN conjunct2, THEN conjunct2,
      THEN conjunct2, THEN conjunct2, THEN conjunct2, THEN conjunct2, THEN conjunct2,
      THEN conjunct2, THEN conjunct2, THEN conjunct2, THEN conjunct2, THEN conjunct1,
      rule_format]
  note c14 = Return_unwinds_to_MethodBody [THEN conjunct2, THEN conjunct2, THEN conjunct2,
      THEN conjunct2, THEN conjunct2, THEN conjunct2, THEN conjunct2, THEN conjunct2,
      THEN conjunct2, THEN conjunct2, THEN conjunct2, THEN conjunct2, THEN conjunct2,
      THEN conjunct1, rule_format]
  note c15 = Return_unwinds_to_MethodBody [THEN conjunct2, THEN conjunct2, THEN conjunct2,
      THEN conjunct2, THEN conjunct2, THEN conjunct2, THEN conjunct2, THEN conjunct2,
      THEN conjunct2, THEN conjunct2, THEN conjunct2, THEN conjunct2, THEN conjunct2,
      THEN conjunct2, THEN conjunct1, rule_format]
  note c16 = Return_unwinds_to_MethodBody [THEN conjunct2, THEN conjunct2, THEN conjunct2,
      THEN conjunct2, THEN conjunct2, THEN conjunct2, THEN conjunct2, THEN conjunct2,
      THEN conjunct2, THEN conjunct2, THEN conjunct2, THEN conjunct2, THEN conjunct2,
      THEN conjunct2, THEN conjunct2, THEN conjunct1, rule_format]
  note c17 = Return_unwinds_to_MethodBody [THEN conjunct2, THEN conjunct2, THEN conjunct2,
      THEN conjunct2, THEN conjunct2, THEN conjunct2, THEN conjunct2, THEN conjunct2,
      THEN conjunct2, THEN conjunct2, THEN conjunct2, THEN conjunct2, THEN conjunct2,
      THEN conjunct2, THEN conjunct2, THEN conjunct2, THEN conjunct1, rule_format]
  note c18 = Return_unwinds_to_MethodBody [THEN conjunct2, THEN conjunct2, THEN conjunct2,
      THEN conjunct2, THEN conjunct2, THEN conjunct2, THEN conjunct2, THEN conjunct2,
      THEN conjunct2, THEN conjunct2, THEN conjunct2, THEN conjunct2, THEN conjunct2,
      THEN conjunct2, THEN conjunct2, THEN conjunct2, THEN conjunct2, THEN conjunct1,
      rule_format]
  note c19 = Return_unwinds_to_MethodBody [THEN conjunct2, THEN conjunct2, THEN conjunct2,
      THEN conjunct2, THEN conjunct2, THEN conjunct2, THEN conjunct2, THEN conjunct2,
      THEN conjunct2, THEN conjunct2, THEN conjunct2, THEN conjunct2, THEN conjunct2,
      THEN conjunct2, THEN conjunct2, THEN conjunct2, THEN conjunct2, THEN conjunct2,
      THEN conjunct1, rule_format]
  note c20 = Return_unwinds_to_MethodBody [THEN conjunct2, THEN conjunct2, THEN conjunct2,
      THEN conjunct2, THEN conjunct2, THEN conjunct2, THEN conjunct2, THEN conjunct2,
      THEN conjunct2, THEN conjunct2, THEN conjunct2, THEN conjunct2, THEN conjunct2,
      THEN conjunct2, THEN conjunct2, THEN conjunct2, THEN conjunct2, THEN conjunct2,
      THEN conjunct2, THEN conjunct1, rule_format]
  note c23 = Return_unwinds_to_MethodBody [THEN conjunct2, THEN conjunct2, THEN conjunct2,
      THEN conjunct2, THEN conjunct2, THEN conjunct2, THEN conjunct2, THEN conjunct2,
      THEN conjunct2, THEN conjunct2, THEN conjunct2, THEN conjunct2, THEN conjunct2,
      THEN conjunct2, THEN conjunct2, THEN conjunct2, THEN conjunct2, THEN conjunct2,
      THEN conjunct2, THEN conjunct2, THEN conjunct2, THEN conjunct2, THEN conjunct1,
      rule_format]
  let ?st = "([''n'' \<mapsto> Holder (Member 9) (Number 5)], world0)"
  let ?v = "Holder (Member 9) (Number 5)"
  let ?five = "Holder (Member 1) (Number 5)"
  let ?o = "[''o'' \<mapsto> Holder (Member 7) (ClassInstance 0)]"
  have v: "Execute 1 no_classes (VariableValue [''n'']) ?st = Some (Normal ?v, ?st)"
    by (simp add: exec_eval)
  have r: "Execute (Suc 1) no_classes (Return (VariableValue [''n''])) ?st = Some (Unwind ?v, ?st)"
    by (rule c1 [OF v])
  have b: "Execute (Suc (Suc 1)) no_classes (MethodBody (Return (VariableValue [''n'']))) ?st
      = Some (Normal ?v, ?st)"
    by (rule c2 [OF r])
  have f: "Execute 5 no_classes body_f ?st = Some (Normal ?v, ?st)"
    and g: "Execute 5 no_classes body_f ([''n'' \<mapsto> Holder (Member 9) (Number 0)], world0) =
     Some (Normal (Holder (Member 1) (Number 42)), ([''n'' \<mapsto> Holder (Member 9) (Number 0)], world0))"
    and h: "Execute 5 no_classes (MethodBody (Compound [Assignment ''x'' (NumericConst 1 42)]))
       (Map.empty, world0) =
     Some (Normal Empty, ([''x'' \<mapsto> Holder (Member 1) (Number 42)], world0))"
    by (simp_all add: exec_eval body_f_def)
  have cls: "class_at prog_R 0 = Some class_R" by (simp add: prog_R_def)
  have init: "HasMethod class_R ''__init__'' (length ([] @ Return (NumericConst 1 5) # []))"
    by (simp add: HasMethod_def class_R_def)
  have leave: "HasMethod class_R ''leave'' (length ([] :: ObjectHolder list))"
    and m: "GetMethod class_R ''leave'' =
      Some \<lparr>name = ''leave'', formal_params = [], body = Return (NumericConst 1 5)\<rparr>"
    by (simp_all add: HasMethod_def class_R_def)
  have ret: "Execute 2 S (Return (NumericConst 1 5)) st = Some (Unwind ?five, st)" for S st
    by (simp add: exec_eval)
  have new: "Execute (Suc 2) prog_R (NewInstance 7 0 ([] @ Return (NumericConst 1 5) # []))
      (Map.empty, world0) = Some (Unwind ?five, (Map.empty, world0))"
    by (rule c11 [OF cls init _ ret]) simp
  have call: "Call (Execute 2 prog_R) prog_R (Member 7) 0 ''leave'' [] world0 =
      Some (Unwind ?five, world0)"
    using c15 [OF cls leave m, of 2 "Member 7" world0 ?five] ret
    by (simp add: retain_vars_def release_vars_def)
  have obj: "Execute 2 prog_R (VariableValue [''o'']) (?o, world0) =
      Some (Normal (Holder (Member 7) (ClassInstance 0)), (?o, world0))"
    by (simp add: exec_eval)
  have mc: "Execute (Suc 2) prog_R (MethodCall (VariableValue [''o'']) ''leave'' []) (?o, world0) =
      Some (Unwind ?five, (?o, world0))"
    by (rule c16 [OF obj _ call]) simp
  have pre: "Print_loop (Execute 2 no_classes) (Print_virtual 2 no_classes) [StringConst 2 ''a'']
      (Map.empty, world0) = Some (Normal (), (Map.empty, world0\<lparr>out_text := ''a''\<rparr>))"
    by (simp add: exec_eval world0_def)
  have pr: "Execute (Suc 2) no_classes (Print ([StringConst 2 ''a''] @ Return (NumericConst 1 5) # []))
      (Map.empty, world0) = Some (Unwind ?five, (Map.empty, world0\<lparr>out_text := ''a ''\<rparr>))"
    by (rule c12 [OF pre]) (simp add: exec_eval world0_def)
  let ?inst = "Holder (Member 7) (ClassInstance 0)"
  let ?s = "Holder (Member 2) (String ''s'')"
  have five: "Execute 2 S (NumericConst 1 5) st = Some (Normal ?five, st)" for S st
    by (simp add: exec_eval)
  have obj3: "Execute 3 prog_R (VariableValue [''o'']) (?o, w) = Some (Normal ?inst, (?o, w))" for w
    by (simp add: exec_eval)
  have has: "HasMethod class_R ''__init__'' (length [NumericConst 1 5])"
    "HasMethod class_R ''__str__'' 0" "HasMethod class_R ''__eq__'' 1"
    by (simp_all add: HasMethod_def class_R_def)
  have call_init: "Call (Execute 2 prog_R) prog_R (Member 7) 0 ''__init__'' [?five] world0 =
      Some (Unwind ?five, world0)"
    and call_add: "Call (Execute 2 prog_R) prog_R (Member 7) 0 ''__add__'' [?five] world0 =
      Some (Unwind ?five, world0)"
    and call_eq: "Call (Execute 2 prog_R) prog_R (Member 7) 0 ''__eq__'' [?five] world0 =
      Some (Unwind ?five, world0)"
    and call_str: "Call (Execute 2 prog_R) prog_R (Member 7) 0 ''__str__'' [] w = Some (Unwind ?s, w)"
    for w
    by (simp_all add: exec_eval prog_R_def class_R_def)
  have new2: "Execute (Suc 2) prog_R (NewInstance 7 0 [NumericConst 1 5]) (Map.empty, world0) =
      Some (Unwind ?five, (Map.empty, world0))"
    by (rule c17 [OF cls has(1) _ call_init]) (simp add: exec_eval)
  have str: "Print_virtual (Suc 2) prog_R (Member 7) (ClassInstance 0) w = Some (Unwind ?s, w)" for w
    by (rule c23 [OF cls has(2) call_str])
  have pre3: "Print_loop (Execute 3 prog_R) (Print_virtual 3 prog_R) [StringConst 2 ''a'']
      (?o, world0) = Some (Normal (), (?o, world0\<lparr>out_text := ''a''\<rparr>))"
    by (simp add: exec_eval world0_def)
  have pr2: "Execute (Suc 3) prog_R (Print ([StringConst 2 ''a''] @ VariableValue [''o''] # []))
      (?o, world0) = Some (Unwind ?s, (?o, world0\<lparr>out_text := ''a ''\<rparr>))"
    using c13 [OF pre3, of "VariableValue [''o'']" "Member 7" "ClassInstance 0" ?o
        "world0\<lparr>out_text := ''a ''\<rparr>" ?s "world0\<lparr>out_text := ''a ''\<rparr>" "[]"]
      obj3 str
    by (simp add: dangling_def world0_def os_write_def numeral_3_eq_3)
  have sfy: "Execute (Suc 3) prog_R (Stringify (VariableValue [''o''])) (?o, world0) =
      Some (Unwind ?s, (?o, world0))"
    using c14 [OF obj3, of world0 ?s world0] str by (simp add: dangling_def numeral_3_eq_3)
  have add: "Execute (Suc 2) prog_R (Add (VariableValue [''o'']) (NumericConst 1 5)) (?o, world0) =
      Some (Unwind ?five, (?o, world0))"
    by (rule c18 [OF obj five call_add])
  have ne: "comparator cmp_NotEqual (Execute 2 prog_R) prog_R ?inst ?five world0 =
      Some (Unwind ?five, world0)"
    by (rule c20 [OF cls has(3) call_eq, THEN conjunct2])
  have cmp: "Execute (Suc 2) prog_R (Comparison cmp_NotEqual (VariableValue [''o'']) (NumericConst 1 5))
      (?o, world0) = Some (Unwind ?five, (?o, world0))"
    by (rule c19 [OF obj five ne])
  from r b f g h new call mc pr new2 pr2 sfy add cmp show ?thesis by simp
qed

subsection \<open>\<^verbatim>\<open>FieldAssignment\<close> to what is not an instance\<close>

text \<open>
  \<^bold>\<open>Claim C10\<close>. If the object chain of a \<^verbatim>\<open>FieldAssignment\<close> evaluates to a value that
  is not a \<^verbatim>\<open>ClassInstance\<close> (a Number, a String, a Bool, a class, the empty reference),
  then \<^verbatim>\<open>Execute\<close> returns the empty reference, raises nothing and leaves the closure
  and the world as they were, whatever the right-hand side is: it is not executed.
\<close>

theorem FieldAssignment_to_non_instance:
  assumes "Execute (Suc m) P (VariableValue object) (closure, w) = Some (Normal v, st1)"
    and "TryAs_ClassInstance v = None"
  shows "Execute (Suc n) P (FieldAssignment object field_name rv) (closure, w) =
           Some (Normal Empty, (closure, w))"
proof -
  from assms(1) have "VariableValue_loop w object closure = Normal v" by simp
  with assms(2) show ?thesis
    by (cases v rule: TryAs_ClassInstance.cases) simp_all
qed

theorem FieldAssignment_to_non_instance_witness:
  "Execute (Suc 1) no_classes
       (FieldAssignment [''x''] ''f'' (Print [StringConst 2 ''rhs'']))
       ([''x'' \<mapsto> Holder (Member 1) (Number 5)], world0) =
     Some (Normal Empty, ([''x'' \<mapsto> Holder (Member 1) (Number 5)], world0))"
proof -
  have v: "Execute (Suc 0) no_classes (VariableValue [''x''])
      ([''x'' \<mapsto> Holder (Member 1) (Number 5)], world0) =
      Some (Normal (Holder (Member 1) (Number 5)), ([''x'' \<mapsto> Holder (Member 1) (Number 5)], world0))"
    by simp
  have t: "TryAs_ClassInstance (Holder (Member 1) (Number 5)) = None" by simp
  from FieldAssignment_to_non_instance [OF v t, of 1] show ?thesis .
qed

subsection \<open>\<^verbatim>\<open>NewInstance\<close>\<close>

text \<open>
  \<^bold>\<open>Claim C2\<close>, as amended. Every execution of a \<^verbatim>\<open>NewInstance\<close> node that returns,
  returns a shared reference to the \<^verbatim>\<open>ClassInstance\<close> that is the data member \<^verbatim>\<open>cls_\<close>
  of the node, of the class given to the constructor of the node. Two executions of the
  same node so return the same instance, with the fields that everything executed before
  has left in it. When the class has no \<^verbatim>\<open>__init__\<close> of as many parameters as the node
  has arguments, the execution changes nothing; when it has one, it is called on that
  instance with the evaluated arguments and its result is dropped.

  The claim as stated has two executions of the same node return two distinct instances,
  each with empty fields. In the counterexample below a tree executes a node and assigns
  to a field of the instance; the next execution of the node returns the same instance,
  and the field is still there.
\<close>

theorem NewInstance_shares_its_member:
  "(Execute (Suc n) P (NewInstance a c args) st = Some (Normal h, st1) \<longrightarrow>
      h = Holder (Member a) (ClassInstance c)) \<and>
   (class_at P c = Some cls \<longrightarrow> \<not> HasMethod cls ''__init__'' (length args) \<longrightarrow>
      Execute (Suc n) P (NewInstance a c args) st =
        Some (Normal (Holder (Member a) (ClassInstance c)), st)) \<and>
   (class_at P c = Some cls \<longrightarrow> HasMethod cls ''__init__'' (length args) \<longrightarrow>
    ExecuteArgs (Execute n P) args st = Some (Normal params, (closure1, w1)) \<longrightarrow>
    Call (Execute n P) P (Member a) c ''__init__'' params w1 = Some (Normal r, w2) \<longrightarrow>
      Execute (Suc n) P (NewInstance a c args) st =
        Some (Normal (Holder (Member a) (ClassInstance c)), (closure1, w2)))"
  by (auto simp: after_def with_closure_def
      split: option.splits outcome.splits prod.splits if_splits)

theorem NewInstance_shares_its_member_witness:
  "Execute (Suc 0) one_class (NewInstance 7 0 []) (Map.empty, world0) =
     Some (Normal (Holder (Member 7) (ClassInstance 0)), (Map.empty, world0))"
  using NewInstance_shares_its_member [of 0 one_class 7 0 "[]" "(Map.empty, world0)" _ _ "Class ''C'' [] None"]
  by (simp add: one_class_def HasMethod_def)

theorem NewInstance_not_fresh_counterexample:
  "Execute 3 one_class
       (Compound [Assignment ''a'' (NewInstance 7 0 []),
                  FieldAssignment [''a''] ''x'' (NumericConst 8 5)])
       (Map.empty, world0) =
     Some (Normal Empty,
           ([''a'' \<mapsto> Holder (Member 7) (ClassInstance 0)],
            world0\<lparr>Fields := (Fields world0)(Member 7 := [''x'' \<mapsto> Holder (Member 8) (Number 5)])\<rparr>)) \<and>
   Execute 1 one_class (NewInstance 7 0 [])
       ([''a'' \<mapsto> Holder (Member 7) (ClassInstance 0)],
        world0\<lparr>Fields := (Fields world0)(Member 7 := [''x'' \<mapsto> Holder (Member 8) (Number 5)])\<rparr>) =
     Some (Normal (Holder (Member 7) (ClassInstance 0)),
           ([''a'' \<mapsto> Holder (Member 7) (ClassInstance 0)],
            world0\<lparr>Fields := (Fields world0)(Member 7 := [''x'' \<mapsto> Holder (Member 8) (Number 5)])\<rparr>)) \<and>
   Fields (world0\<lparr>Fields := (Fields world0)(Member 7 := [''x'' \<mapsto> Holder (Member 8) (Number 5)])\<rparr>)
       (Member 7) ''x'' = Some (Holder (Member 8) (Number 5))"
  by (simp add: exec_eval one_class_def world0_def)

end
